(* ===== verification/Prelude.thy ===== *)
theory Prelude
  imports Main "HOL-Library.Word"
begin

text \<open>
  Shared vocabulary of the development: the machine integer types of the Rust sources, the
  arithmetic of \<^verbatim>\<open>core::num\<close> that the sources use (wrapping, saturating and checked
  operations), the slice operations of \<^verbatim>\<open>Vec\<close> and \<^verbatim>\<open>[T]\<close>, the little-endian byte
  encodings, and the two interfaces (\<open>fixed_codec\<close>, \<open>burst_queue\<close>) that several components
  implement.

  Conventions.  A Rust \<^verbatim>\<open>u8/u16/u32/u64\<close> is a word of that width and \<open>+\<close> on it wraps, which
  is what the release profile of the workspace does; \<^verbatim>\<open>usize\<close> is \<open>nat\<close>, and the code's
  \<^verbatim>\<open>checked_add\<close> on it is written out at 64 bits.  A \<^verbatim>\<open>Result<T, E>\<close> is a sum with
  \<open>Inl\<close> for \<^verbatim>\<open>Err\<close>.  A method with \<^verbatim>\<open>&mut self\<close> is a function from the state that returns
  its result and the new state; the new state is also returned with an error, because several
  methods change counters before they fail.
\<close>

section \<open>Machine integers\<close>

type_synonym u8 = "8 word"
type_synonym u16 = "16 word"
type_synonym u32 = "32 word"
type_synonym u64 = "64 word"
type_synonym usize = nat

text \<open>The outcome of a fallible method together with the state it leaves behind.\<close>

type_synonym ('e, 'a, 's) outcome = "('e + 'a) \<times> 's"

named_theorems word_nat
  \<open>rewrites from words to their values as natural numbers\<close>

definition sat_add :: "'a::len word \<Rightarrow> 'a word \<Rightarrow> 'a word" where
  "sat_add a b = (if unat a + unat b < 2 ^ LENGTH('a) then a + b else - 1)"

definition sat_sub :: "'a::len word \<Rightarrow> 'a word \<Rightarrow> 'a word" where
  "sat_sub a b = (if b \<le> a then a - b else 0)"

definition abs_diff :: "'a::len word \<Rightarrow> 'a word \<Rightarrow> 'a word" where
  "abs_diff a b = (if b \<le> a then a - b else b - a)"

definition checked_add :: "usize \<Rightarrow> usize \<Rightarrow> usize option" where
  "checked_add a b = (if a + b < 2 ^ 64 then Some (a + b) else None)"

definition usat_add :: "usize \<Rightarrow> usize \<Rightarrow> usize" where
  "usat_add a b = min (a + b) (2 ^ 64 - 1)"

lemma unat_sat_add [word_nat]:
  "unat (sat_add a b) = min (unat a + unat b) (2 ^ LENGTH('a) - 1)"
  for a b :: "'a::len word"
proof (cases "unat a + unat b < 2 ^ LENGTH('a)")
  case True
  then have "unat (a + b) = unat a + unat b"
    by (simp add: unat_word_ariths)
  with True show ?thesis by (simp add: sat_add_def)
next
  case False
  then show ?thesis by (simp add: sat_add_def unsigned_minus_1_eq_mask mask_eq_exp_minus_1)
qed

lemma unat_sat_sub [word_nat]: "unat (sat_sub a b) = unat a - unat b"
  by (auto simp: sat_sub_def unat_sub word_le_nat_alt)

lemma sat_add_0 [simp]: "sat_add a 0 = a"
  by (simp add: sat_add_def unsigned_less)

lemma le_sat_add [simp]: "a \<le> sat_add a b"
  for a b :: "'a::len word"
proof -
  have "unat a \<le> 2 ^ LENGTH('a) - 1" using unsigned_less [of a] by (metis Suc_pred' less_Suc_eq_le zero_less_numeral zero_less_power)
  then show ?thesis by (simp add: word_le_nat_alt unat_sat_add)
qed

lemma sat_add_commute: "sat_add a b = sat_add b a"
  by (simp add: sat_add_def add.commute)

lemma le_sat_add_right [simp]: "b \<le> sat_add a b"
  by (subst sat_add_commute) (rule le_sat_add)

lemma sat_add_mono: "a \<le> c \<Longrightarrow> b \<le> d \<Longrightarrow> sat_add a b \<le> sat_add c d"
  by (simp add: word_le_nat_alt unat_sat_add)

lemma sat_sub_self [simp]: "sat_sub a a = 0"
  by (simp add: sat_sub_def)

lemma sat_sub_eq_0_iff: "sat_sub a b = 0 \<longleftrightarrow> a \<le> b"
  by (simp add: word_le_nat_alt unat_sat_sub flip: unat_eq_0)

lemma unat_abs_diff [word_nat]:
  "unat (abs_diff a b) = (unat a - unat b) + (unat b - unat a)"
  by (auto simp: abs_diff_def unat_sub word_le_nat_alt)

lemma unat_inc [word_nat]:
  "unat (a + 1) = (if unat a = 2 ^ LENGTH('a) - 1 then 0 else Suc (unat a))"
  for a :: "'a::len word"
  using unsigned_less [of a] by (auto simp: unat_word_ariths le_less_Suc_eq mod_Suc)

lemma unat_max [word_nat]: "unat (max a b) = max (unat a) (unat b)"
  by (simp add: max_def word_le_nat_alt)

lemma unat_min [word_nat]: "unat (min a b) = min (unat a) (unat b)"
  by (simp add: min_def word_le_nat_alt)

text \<open>\<^verbatim>\<open>Result::map_err\<close>, which the loaders apply to the result of a YAML parser.\<close>

definition map_err :: "('e \<Rightarrow> 'f) \<Rightarrow> 'e + 'a \<Rightarrow> 'f + 'a" where
  "map_err f r = (case r of Inl e \<Rightarrow> Inl (f e) | Inr x \<Rightarrow> Inr x)"

lemma map_err_simps [simp]: "map_err f (Inl e) = Inl (f e)" "map_err f (Inr x) = Inr x"
  by (simp_all add: map_err_def)

text \<open>The operator \<^verbatim>\<open>?\<close> and \<^verbatim>\<open>Result::ok\<close>, \<^verbatim>\<open>Result::unwrap_or\<close>.\<close>

definition and_then :: "'e + 'a \<Rightarrow> ('a \<Rightarrow> 'e + 'b) \<Rightarrow> 'e + 'b" where
  "and_then r f = (case r of Inl e \<Rightarrow> Inl e | Inr x \<Rightarrow> f x)"

definition ok :: "'e + 'a \<Rightarrow> 'a option" where
  "ok r = (case r of Inl _ \<Rightarrow> None | Inr x \<Rightarrow> Some x)"

definition unwrap_or :: "'e + 'a \<Rightarrow> 'a \<Rightarrow> 'a" where
  "unwrap_or r d = (case r of Inl _ \<Rightarrow> d | Inr x \<Rightarrow> x)"

definition or_default :: "'a option \<Rightarrow> 'a \<Rightarrow> 'a" where
  "or_default v d = (case v of None \<Rightarrow> d | Some x \<Rightarrow> x)"

lemma and_then_simps [simp]: "and_then (Inl e) f = Inl e" "and_then (Inr x) f = f x"
  by (simp_all add: and_then_def)

lemma and_then_Inr_iff: "and_then r f = Inr y \<longleftrightarrow> (\<exists>x. r = Inr x \<and> f x = Inr y)"
  by (cases r) simp_all

lemma and_then_map_err: "and_then (map_err f r) g = (case r of Inl e \<Rightarrow> Inl (f e) | Inr x \<Rightarrow> g x)"
  by (cases r) simp_all

lemma ok_simps [simp]: "ok (Inl e) = None" "ok (Inr x) = Some x"
  by (simp_all add: ok_def)

lemma unwrap_or_simps [simp]: "unwrap_or (Inl e) d = d" "unwrap_or (Inr x) d = x"
  by (simp_all add: unwrap_or_def)

lemma or_default_simps [simp]: "or_default None d = d" "or_default (Some x) d = x"
  by (simp_all add: or_default_def)

lemma map_err_Inr_iff [simp]: "map_err f r = Inr x \<longleftrightarrow> r = Inr x"
  by (cases r) simp_all

section \<open>Slices and vectors\<close>

text \<open>
  \<open>subslice xs a b\<close> is \<^verbatim>\<open>xs[a..b]\<close> where the bounds are in range; \<open>blit\<close> is
  \<^verbatim>\<open>xs[off..off + ys.len()].copy_from_slice(ys)\<close>; \<open>position\<close> is
  \<^verbatim>\<open>iter().position\<close>; the pair of \<open>drain_front\<close> is \<^verbatim>\<open>drain(0..n).collect()\<close> and the rest.
\<close>

definition subslice :: "'a list \<Rightarrow> nat \<Rightarrow> nat \<Rightarrow> 'a list" where
  "subslice xs a b = take (b - a) (drop a xs)"

definition blit :: "'a list \<Rightarrow> nat \<Rightarrow> 'a list \<Rightarrow> 'a list" where
  "blit xs off ys = take off xs @ ys @ drop (off + length ys) xs"

fun position :: "('a \<Rightarrow> bool) \<Rightarrow> 'a list \<Rightarrow> nat option" where
  "position p [] = None"
| "position p (x # xs) = (if p x then Some 0 else map_option Suc (position p xs))"

definition drain_front :: "nat \<Rightarrow> 'a list \<Rightarrow> 'a list \<times> 'a list" where
  "drain_front n xs = (take n xs, drop n xs)"

lemma length_subslice [simp]: "length (subslice xs a b) = min (b - a) (length xs - a)"
  by (simp add: subslice_def min.commute)

lemma subslice_full: "subslice xs 0 (length xs) = xs"
  by (simp add: subslice_def)

lemma subslice_append_left:
  "b \<le> length xs \<Longrightarrow> subslice (xs @ ys) a b = subslice xs a b"
  by (simp add: subslice_def)

lemma subslice_append_right:
  "length xs \<le> a \<Longrightarrow> subslice (xs @ ys) a b = subslice ys (a - length xs) (b - length xs)"
  by (cases "a \<le> b") (simp_all add: subslice_def)

lemma subslice_join:
  assumes "a \<le> b" "b \<le> c"
  shows "subslice xs a b @ subslice xs b c = subslice xs a c"
  using take_add [of "b - a" "c - b" "drop a xs"] assms by (simp add: subslice_def)

lemma subslice_exact:
  "a = length xs \<Longrightarrow> b = a + length ys \<Longrightarrow> subslice (xs @ ys @ zs) a b = ys"
  by (simp add: subslice_def)

lemma length_blit: "off + length ys \<le> length xs \<Longrightarrow> length (blit xs off ys) = length xs"
  by (simp add: blit_def)

lemma subslice_blit:
  "off + length ys \<le> length xs \<Longrightarrow> subslice (blit xs off ys) off (off + length ys) = ys"
  by (simp add: subslice_def blit_def)

lemma nth_blit:
  assumes "off + length ys \<le> length xs" "i < length xs"
  shows "blit xs off ys ! i =
    (if off \<le> i \<and> i < off + length ys then ys ! (i - off) else xs ! i)"
  using assms by (auto simp: blit_def nth_append)

lemma subslice_blit_below:
  assumes "off + length ys \<le> length xs" "b \<le> off"
  shows "subslice (blit xs off ys) a b = subslice xs a b"
  using assms by (cases "a \<le> b") (auto simp: subslice_def blit_def drop_take)

lemma subslice_blit_above:
  assumes "off + length ys \<le> length xs" "off + length ys \<le> a"
  shows "subslice (blit xs off ys) a b = subslice xs a b"
  using assms by (simp add: subslice_def blit_def)

lemma position_Some_iff:
  "position p xs = Some i \<longleftrightarrow> i < length xs \<and> p (xs ! i) \<and> (\<forall>j<i. \<not> p (xs ! j))"
proof (induction xs arbitrary: i)
  case Nil
  then show ?case by simp
next
  case (Cons x xs)
  show ?case by (cases i) (auto simp: Cons.IH nth_Cons split: nat.splits)
qed

lemma position_None_iff: "position p xs = None \<longleftrightarrow> (\<forall>x\<in>set xs. \<not> p x)"
  by (induction xs) auto

lemma position_SomeD:
  assumes "position p xs = Some i"
  shows "i < length xs" and "p (xs ! i)"
  using assms by (simp_all add: position_Some_iff)

lemma subslice_nat_blocks_disjoint:
  assumes "i \<noteq> j" "a < w" "b < w"
  shows "i * w + a \<noteq> j * w + (b::nat)"
proof
  assume eq: "i * w + a = j * w + b"
  from eq assms have "(i * w + a) div w = (j * w + b) div w" by simp
  with assms show False by simp
qed

section \<open>Little-endian byte encodings\<close>

text \<open>
  \<^verbatim>\<open>to_le_bytes\<close> and \<^verbatim>\<open>from_le_bytes\<close> of the unsigned integer types.  The number of bytes
  is explicit in \<open>le_bytes\<close>; the fixed-width encoders below instantiate it.
\<close>

fun le_bytes :: "nat \<Rightarrow> nat \<Rightarrow> u8 list" where
  "le_bytes 0 x = []"
| "le_bytes (Suc n) x = word_of_nat x # le_bytes n (x div 256)"

fun le_value :: "u8 list \<Rightarrow> nat" where
  "le_value [] = 0"
| "le_value (b # bs) = unat b + 256 * le_value bs"

definition u16_to_le_bytes :: "u16 \<Rightarrow> u8 list" where
  "u16_to_le_bytes w = le_bytes 2 (unat w)"

definition u16_from_le_bytes :: "u8 list \<Rightarrow> u16" where
  "u16_from_le_bytes bs = word_of_nat (le_value bs)"

definition u32_to_le_bytes :: "u32 \<Rightarrow> u8 list" where
  "u32_to_le_bytes w = le_bytes 4 (unat w)"

definition u32_from_le_bytes :: "u8 list \<Rightarrow> u32" where
  "u32_from_le_bytes bs = word_of_nat (le_value bs)"

definition u64_to_le_bytes :: "u64 \<Rightarrow> u8 list" where
  "u64_to_le_bytes w = le_bytes 8 (unat w)"

definition u64_from_le_bytes :: "u8 list \<Rightarrow> u64" where
  "u64_from_le_bytes bs = word_of_nat (le_value bs)"

lemma length_le_bytes [simp]: "length (le_bytes n x) = n"
  by (induction n arbitrary: x) simp_all

lemma le_value_le_bytes: "le_value (le_bytes n x) = x mod 256 ^ n"
proof (induction n arbitrary: x)
  case 0
  then show ?case by simp
next
  case (Suc n)
  have "le_value (le_bytes (Suc n) x) = x mod 256 + 256 * (x div 256 mod 256 ^ n)"
    by (simp add: Suc.IH unat_of_nat)
  also have "\<dots> = x mod (256 * 256 ^ n)"
    by (simp add: mod_mult2_eq)
  finally show ?case by simp
qed

lemma le_value_bound: "le_value bs < 256 ^ length bs"
proof (induction bs)
  case Nil
  then show ?case by simp
next
  case (Cons b bs)
  have "unat b < 256" using unsigned_less [of b] by simp
  moreover have "le_value bs + 1 \<le> 256 ^ length bs" using Cons.IH by simp
  then have "256 * (le_value bs + 1) \<le> 256 * 256 ^ length bs" by (rule mult_le_mono2)
  ultimately show ?case by simp
qed

lemma le_bytes_le_value: "le_bytes (length bs) (le_value bs) = bs"
proof (induction bs)
  case Nil
  then show ?case by simp
next
  case (Cons b bs)
  have "unat b < 256" using unsigned_less [of b] by simp
  then have "(unat b + 256 * le_value bs) div 256 = le_value bs" by simp
  moreover have "(word_of_nat (unat b + 256 * le_value bs) :: u8) = b"
    by (rule word_unat_eq_iff [THEN iffD2], subst unat_of_nat) (use \<open>unat b < 256\<close> in simp)
  ultimately show ?case using Cons.IH by simp
qed

text \<open>
  What a fixed-width field codec promises: a constant width and a bijection between values and
  byte strings of that width.
\<close>

locale fixed_codec =
  fixes enc :: "'v \<Rightarrow> u8 list"
    and dec :: "u8 list \<Rightarrow> 'v"
    and width :: nat
  assumes length_enc: "length (enc v) = width"
    and dec_enc: "dec (enc v) = v"
    and enc_dec: "length bs = width \<Longrightarrow> enc (dec bs) = bs"
begin

lemma field_at:
  assumes "a = length pre" "b = a + width"
  shows "dec (subslice (pre @ enc v @ post) a b) = v"
  using assms by (simp add: subslice_def length_enc dec_enc)

lemma enc_inject: "enc v = enc v' \<longleftrightarrow> v = v'"
  by (metis dec_enc)

lemma enc_subslice:
  "a + width \<le> length bs \<Longrightarrow> b = a + width \<Longrightarrow> enc (dec (subslice bs a b)) = subslice bs a b"
  by (rule enc_dec) simp

end

interpretation u16_codec: fixed_codec u16_to_le_bytes u16_from_le_bytes 2
proof unfold_locales
  fix v :: u16 and bs :: "u8 list"
  show "length (u16_to_le_bytes v) = 2" by (simp add: u16_to_le_bytes_def)
  have "unat v < 256 ^ 2" using unsigned_less [of v] by simp
  then show "u16_from_le_bytes (u16_to_le_bytes v) = v"
    by (simp add: u16_to_le_bytes_def u16_from_le_bytes_def le_value_le_bytes)
  assume len: "length bs = 2"
  then have "le_value bs < 65536" using le_value_bound [of bs] by simp
  then have "unat (word_of_nat (le_value bs) :: u16) = le_value bs"
    by (simp add: unat_of_nat)
  with len show "u16_to_le_bytes (u16_from_le_bytes bs) = bs"
    using le_bytes_le_value [of bs] by (simp add: u16_to_le_bytes_def u16_from_le_bytes_def)
qed

interpretation u32_codec: fixed_codec u32_to_le_bytes u32_from_le_bytes 4
proof unfold_locales
  fix v :: u32 and bs :: "u8 list"
  show "length (u32_to_le_bytes v) = 4" by (simp add: u32_to_le_bytes_def)
  have "unat v < 256 ^ 4" using unsigned_less [of v] by simp
  then show "u32_from_le_bytes (u32_to_le_bytes v) = v"
    by (simp add: u32_to_le_bytes_def u32_from_le_bytes_def le_value_le_bytes)
  assume len: "length bs = 4"
  then have "le_value bs < 4294967296" using le_value_bound [of bs] by simp
  then have "unat (word_of_nat (le_value bs) :: u32) = le_value bs"
    by (simp add: unat_of_nat)
  with len show "u32_to_le_bytes (u32_from_le_bytes bs) = bs"
    using le_bytes_le_value [of bs] by (simp add: u32_to_le_bytes_def u32_from_le_bytes_def)
qed

interpretation u64_codec: fixed_codec u64_to_le_bytes u64_from_le_bytes 8
proof unfold_locales
  fix v :: u64 and bs :: "u8 list"
  show "length (u64_to_le_bytes v) = 8" by (simp add: u64_to_le_bytes_def)
  have "unat v < 256 ^ 8" using unsigned_less [of v] by simp
  then show "u64_from_le_bytes (u64_to_le_bytes v) = v"
    by (simp add: u64_to_le_bytes_def u64_from_le_bytes_def le_value_le_bytes)
  assume len: "length bs = 8"
  then have "le_value bs < 18446744073709551616" using le_value_bound [of bs] by simp
  then have "unat (word_of_nat (le_value bs) :: u64) = le_value bs"
    by (simp add: unat_of_nat)
  with len show "u64_to_le_bytes (u64_from_le_bytes bs) = bs"
    using le_bytes_le_value [of bs] by (simp add: u64_to_le_bytes_def u64_from_le_bytes_def)
qed

lemmas codec_lengths [simp] =
  u16_codec.length_enc u32_codec.length_enc u64_codec.length_enc

section \<open>Queues read in bursts\<close>

text \<open>
  The receive side of the \<^verbatim>\<open>PacketIO\<close> trait.  An implementation hands out at most \<open>max\<close>
  elements per call, in order, from the queue \<open>queue\<close> that is visible to the caller, and removes
  exactly what it hands out.  \<open>quota s m\<close> is how many elements a call with bound \<open>m\<close> may return.
\<close>

locale burst_queue =
  fixes rx_burst :: "'s \<Rightarrow> nat \<Rightarrow> 'p list \<times> 's"
    and queue :: "'s \<Rightarrow> 'p list"
    and quota :: "'s \<Rightarrow> nat \<Rightarrow> nat"
    and inv :: "'s \<Rightarrow> bool"
  assumes burst_out: "inv s \<Longrightarrow> fst (rx_burst s m) = take (quota s m) (queue s)"
    and burst_rest: "inv s \<Longrightarrow> queue (snd (rx_burst s m)) = drop (quota s m) (queue s)"
    and burst_inv: "inv s \<Longrightarrow> inv (snd (rx_burst s m))"
    and burst_quota: "inv s \<Longrightarrow> quota (snd (rx_burst s m)) m' = quota s m'"
    and quota_le: "inv s \<Longrightarrow> quota s m \<le> m"
begin

primrec bursts :: "nat \<Rightarrow> nat \<Rightarrow> 's \<Rightarrow> 'p list \<times> 's" where
  "bursts 0 m s = ([], s)"
| "bursts (Suc k) m s =
     (let (out, s') = rx_burst s m; (outs, s'') = bursts k m s' in (out @ outs, s''))"

lemma burst_conserves:
  "inv s \<Longrightarrow> fst (rx_burst s m) @ queue (snd (rx_burst s m)) = queue s"
  by (simp add: burst_out burst_rest)

lemma burst_length: "inv s \<Longrightarrow> length (fst (rx_burst s m)) \<le> m"
  using quota_le [of s m] by (simp add: burst_out)

lemma bursts_spec:
  assumes "inv s"
  shows "fst (bursts k m s) = take (k * quota s m) (queue s)
       \<and> queue (snd (bursts k m s)) = drop (k * quota s m) (queue s)
       \<and> inv (snd (bursts k m s))"
  using assms
proof (induction k arbitrary: s)
  case 0
  then show ?case by simp
next
  case (Suc k)
  let ?s = "snd (rx_burst s m)"
  from Suc.prems have "inv ?s" by (rule burst_inv)
  from Suc.IH [OF this] Suc.prems show ?case
    by (simp add: split_beta Let_def burst_out burst_rest burst_quota take_add add.commute)
qed

lemma drain_complete:
  assumes "inv s" "length (queue s) \<le> k * quota s m"
  shows "fst (bursts k m s) = queue s" and "queue (snd (bursts k m s)) = []"
  using bursts_spec [OF assms(1), of k m] assms(2) by simp_all

end

end
