(* ===== verification/Ieee_Float.thy ===== *)
theory Ieee_Float
  imports Complex_Main Prelude
begin

text \<open>
  The part of IEEE 754 binary floating point that the Rust sources rely on: \<^verbatim>\<open>f64\<close> (and
  \<^verbatim>\<open>f32\<close> for IQ samples) values, the exactly rounded operations \<open>+\<close>, \<open>*\<close>, \<open>/\<close>, the
  conversions from and to unsigned integers, \<^verbatim>\<open>round\<close>, \<^verbatim>\<open>max\<close> and the comparisons.
  A finite value is the rational number it denotes.  Every operation computes the exact rational
  result and rounds it to the nearest representable number, ties to even, with gradual underflow
  and overflow to infinity.

  The two zeros are not distinguished.  Their difference is visible only through a division by
  zero or the bit pattern of a zero; every division of the sources has a divisor that is tested
  to be positive first.
\<close>

section \<open>Values, formats and rounding\<close>

datatype ieee = Fin rat | PInf | NInf | NaN

record ieee_format =
  prec :: nat
  emin :: int
  emax :: int

definition f64_format :: ieee_format where
  "f64_format = \<lparr>prec = 53, emin = - 1022, emax = 1023\<rparr>"

definition f32_format :: ieee_format where
  "f32_format = \<lparr>prec = 24, emin = - 126, emax = 127\<rparr>"

definition pow2 :: "int \<Rightarrow> rat" where
  "pow2 e = (if 0 \<le> e then 2 ^ nat e else 1 / 2 ^ nat (- e))"

text \<open>The binary exponent of a positive number: \<open>pow2 (ilog2 x) \<le> x < pow2 (ilog2 x + 1)\<close>.\<close>

function ilog2 :: "rat \<Rightarrow> int" where
  "ilog2 x =
     (if x \<le> 0 then 0
      else if 2 \<le> x then 1 + ilog2 (x / 2)
      else if x < 1 then ilog2 (2 * x) - 1
      else 0)"
  by pat_completeness auto
termination
proof (relation "measure (\<lambda>x. if 2 \<le> x then nat \<lfloor>x\<rfloor> else if 0 < x \<and> x < 1 then nat \<lceil>1 / x\<rceil> else 0)")
  fix x :: rat
  assume x: "\<not> x \<le> 0" "2 \<le> x"
  have "\<lfloor>x / 2\<rfloor> < \<lfloor>x\<rfloor>" using x by linarith
  with x show "(x / 2, x) \<in> measure (\<lambda>x. if 2 \<le> x then nat \<lfloor>x\<rfloor> else if 0 < x \<and> x < 1 then nat \<lceil>1 / x\<rceil> else 0)"
    by simp
next
  fix x :: rat
  assume x: "\<not> x \<le> 0" "\<not> 2 \<le> x" "x < 1"
  have "1 < 1 / x" using x by simp
  then have "1 < \<lceil>1 / x\<rceil>" by linarith
  moreover have "2 * x < 1 \<Longrightarrow> \<lceil>1 / (2 * x)\<rceil> < \<lceil>1 / x\<rceil>"
  proof -
    assume "2 * x < 1"
    then have "1 / x = 2 * (1 / (2 * x))" "1 < 1 / (2 * x)" using x by (simp_all add: field_simps)
    then show "\<lceil>1 / (2 * x)\<rceil> < \<lceil>1 / x\<rceil>" by linarith
  qed
  ultimately show "(2 * x, x) \<in> measure (\<lambda>x. if 2 \<le> x then nat \<lfloor>x\<rfloor> else if 0 < x \<and> x < 1 then nat \<lceil>1 / x\<rceil> else 0)"
    using x by auto
qed simp

declare ilog2.simps [simp del]

definition round_half_even :: "rat \<Rightarrow> int" where
  "round_half_even x =
     (let f = \<lfloor>x\<rfloor>; d = x - of_int f in
      if d < 1 / 2 then f else if 1 / 2 < d then f + 1 else if even f then f else f + 1)"

text \<open>The quantum (unit in the last place) used when \<open>x\<close> is rounded.\<close>

definition quantum :: "ieee_format \<Rightarrow> rat \<Rightarrow> rat" where
  "quantum F x = pow2 (max (ilog2 \<bar>x\<bar>) (emin F) - int (prec F) + 1)"

definition rnd_unbounded :: "ieee_format \<Rightarrow> rat \<Rightarrow> rat" where
  "rnd_unbounded F x =
     (if x = 0 then 0 else of_int (round_half_even (x / quantum F x)) * quantum F x)"

definition rnd :: "ieee_format \<Rightarrow> rat \<Rightarrow> ieee" where
  "rnd F x =
     (let v = rnd_unbounded F x in
      if pow2 (emax F + 1) \<le> v then PInf else if v \<le> - pow2 (emax F + 1) then NInf else Fin v)"

section \<open>Operations\<close>

fun f_neg :: "ieee \<Rightarrow> ieee" where
  "f_neg (Fin a) = Fin (- a)"
| "f_neg PInf = NInf"
| "f_neg NInf = PInf"
| "f_neg NaN = NaN"

fun f_add :: "ieee_format \<Rightarrow> ieee \<Rightarrow> ieee \<Rightarrow> ieee" where
  "f_add F (Fin a) (Fin b) = rnd F (a + b)"
| "f_add F NaN b = NaN"
| "f_add F a NaN = NaN"
| "f_add F PInf NInf = NaN"
| "f_add F NInf PInf = NaN"
| "f_add F PInf b = PInf"
| "f_add F NInf b = NInf"
| "f_add F a b = b"

definition inf_of :: "bool \<Rightarrow> ieee" where
  "inf_of positive = (if positive then PInf else NInf)"

fun f_mul :: "ieee_format \<Rightarrow> ieee \<Rightarrow> ieee \<Rightarrow> ieee" where
  "f_mul F (Fin a) (Fin b) = rnd F (a * b)"
| "f_mul F NaN b = NaN"
| "f_mul F a NaN = NaN"
| "f_mul F (Fin a) PInf = (if a = 0 then NaN else inf_of (0 < a))"
| "f_mul F (Fin a) NInf = (if a = 0 then NaN else inf_of (a < 0))"
| "f_mul F PInf (Fin a) = (if a = 0 then NaN else inf_of (0 < a))"
| "f_mul F NInf (Fin a) = (if a = 0 then NaN else inf_of (a < 0))"
| "f_mul F PInf b = b"
| "f_mul F NInf b = f_neg b"

fun f_div :: "ieee_format \<Rightarrow> ieee \<Rightarrow> ieee \<Rightarrow> ieee" where
  "f_div F (Fin a) (Fin b) =
     (if b = 0 then (if a = 0 then NaN else inf_of (0 < a)) else rnd F (a / b))"
| "f_div F NaN b = NaN"
| "f_div F a NaN = NaN"
| "f_div F (Fin a) b = Fin 0"
| "f_div F PInf (Fin b) = inf_of (0 \<le> b)"
| "f_div F NInf (Fin b) = inf_of (b < 0)"
| "f_div F a b = NaN"

text \<open>The comparisons are false when an operand is not a number.\<close>

fun f_le :: "ieee \<Rightarrow> ieee \<Rightarrow> bool" where
  "f_le NaN b = False"
| "f_le a NaN = False"
| "f_le NInf b = True"
| "f_le a PInf = True"
| "f_le (Fin a) (Fin b) = (a \<le> b)"
| "f_le a b = False"

fun f_lt :: "ieee \<Rightarrow> ieee \<Rightarrow> bool" where
  "f_lt (Fin a) (Fin b) = (a < b)"
| "f_lt NInf (Fin b) = True"
| "f_lt NInf PInf = True"
| "f_lt (Fin a) PInf = True"
| "f_lt a b = False"

text \<open>\<^verbatim>\<open>f64::max\<close> returns the other operand when one is not a number.\<close>

fun f_max :: "ieee \<Rightarrow> ieee \<Rightarrow> ieee" where
  "f_max NaN b = b"
| "f_max a NaN = a"
| "f_max a b = (if f_le a b then b else a)"

text \<open>\<^verbatim>\<open>f64::round\<close>: nearest integer, ties away from zero.\<close>

fun f_round :: "ieee \<Rightarrow> ieee" where
  "f_round (Fin a) = Fin (of_int (if 0 \<le> a then \<lfloor>a + 1 / 2\<rfloor> else - \<lfloor>- a + 1 / 2\<rfloor>))"
| "f_round a = a"

text \<open>\<^verbatim>\<open>as f64\<close> from an unsigned integer, and the saturating \<^verbatim>\<open>as u64\<close>.\<close>

definition f_of_nat :: "ieee_format \<Rightarrow> nat \<Rightarrow> ieee" where
  "f_of_nat F n = rnd F (of_nat n)"

fun f_to_u64 :: "ieee \<Rightarrow> u64" where
  "f_to_u64 (Fin a) = (if a \<le> 0 then 0 else if 2 ^ 64 \<le> a then - 1 else word_of_int \<lfloor>a\<rfloor>)"
| "f_to_u64 PInf = - 1"
| "f_to_u64 NInf = 0"
| "f_to_u64 NaN = 0"

text \<open>
  \<^verbatim>\<open>f64\<close> and \<^verbatim>\<open>f32\<close> share the representation \<open>ieee\<close>; a literal of the source is the rational
  it spells, rounded to the format.
\<close>

type_synonym f64 = ieee
type_synonym f32 = ieee

abbreviation f64_lit :: "rat \<Rightarrow> f64" where
  "f64_lit x \<equiv> rnd f64_format x"

abbreviation f32_lit :: "rat \<Rightarrow> f32" where
  "f32_lit x \<equiv> rnd f32_format x"

abbreviation f64_mul :: "f64 \<Rightarrow> f64 \<Rightarrow> f64" where
  "f64_mul \<equiv> f_mul f64_format"

abbreviation f64_div :: "f64 \<Rightarrow> f64 \<Rightarrow> f64" where
  "f64_div \<equiv> f_div f64_format"

abbreviation f64_add :: "f64 \<Rightarrow> f64 \<Rightarrow> f64" where
  "f64_add \<equiv> f_add f64_format"

abbreviation f64_of_nat :: "nat \<Rightarrow> f64" where
  "f64_of_nat \<equiv> f_of_nat f64_format"

abbreviation f64_of_u64 :: "u64 \<Rightarrow> f64" where
  "f64_of_u64 w \<equiv> f_of_nat f64_format (unat w)"

text \<open>
  The bit pattern of an \<^verbatim>\<open>f32\<close>, which \<^verbatim>\<open>f32::to_le_bytes\<close> writes: sign, biased exponent,
  fraction.  A value that is not a number has the canonical quiet pattern.
\<close>

definition f32_magnitude_bits :: "rat \<Rightarrow> int" where
  "f32_magnitude_bits a =
     (if a = 0 then 0
      else if a < pow2 (- 126) then \<lfloor>a * pow2 149\<rfloor>
      else (ilog2 a + 127) * 2 ^ 23 + (\<lfloor>a * pow2 (23 - ilog2 a)\<rfloor> - 2 ^ 23))"

fun f32_to_bits :: "f32 \<Rightarrow> u32" where
  "f32_to_bits (Fin a) =
     word_of_int (f32_magnitude_bits \<bar>a\<bar> + (if a < 0 then 2 ^ 31 else 0))"
| "f32_to_bits PInf = 0x7F800000"
| "f32_to_bits NInf = 0xFF800000"
| "f32_to_bits NaN = 0x7FC00000"

section \<open>Powers of two and the binary exponent\<close>

lemma pow2_pos [simp]: "0 < pow2 e"
  by (simp add: pow2_def)

lemma pow2_nonzero [simp]: "pow2 e \<noteq> 0"
  using pow2_pos [of e] by linarith

lemma pow2_0 [simp]: "pow2 0 = 1"
  by (simp add: pow2_def)

lemma pow2_Suc: "pow2 (e + 1) = 2 * pow2 e"
proof -
  consider "0 \<le> e" | "e = - 1" | "e < - 1" by linarith
  then show ?thesis
  proof cases
    case 3
    then have "nat (- e) = Suc (nat (- (e + 1)))" by simp
    with 3 show ?thesis by (simp add: pow2_def)
  qed (simp_all add: pow2_def nat_add_distrib)
qed

lemma pow2_add: "pow2 (a + int n) = pow2 a * 2 ^ n"
proof (induction n)
  case 0
  then show ?case by simp
next
  case (Suc n)
  have "pow2 (a + int (Suc n)) = pow2 ((a + int n) + 1)" by (simp add: algebra_simps)
  also have "\<dots> = 2 * (pow2 a * 2 ^ n)" by (simp only: pow2_Suc Suc.IH)
  finally show ?case by simp
qed

lemma pow2_mono: "a \<le> b \<Longrightarrow> pow2 a \<le> pow2 b"
  using pow2_add [of a "nat (b - a)"] mult_left_mono [of 1 "2 ^ nat (b - a)" "pow2 a"]
  by (simp add: less_imp_le)

lemma pow2_mono_strict: "a < b \<Longrightarrow> pow2 a < pow2 b"
  using pow2_mono [of "a + 1" b] pow2_pos [of a] unfolding pow2_Suc by linarith

lemma ilog2_bounds: "0 < x \<Longrightarrow> pow2 (ilog2 x) \<le> x \<and> x < pow2 (ilog2 x + 1)"
proof (induction x rule: ilog2.induct)
  case (1 x)
  consider "2 \<le> x" | "x < 1" | "1 \<le> x" "x < 2" by linarith
  then show ?case
  proof cases
    case 1
    with "1.IH"(1) "1.prems" have "pow2 (ilog2 (x / 2)) \<le> x / 2 \<and> x / 2 < pow2 (ilog2 (x / 2) + 1)"
      by simp
    moreover have "ilog2 x = ilog2 (x / 2) + 1" using 1 by (simp add: ilog2.simps [of x])
    ultimately show ?thesis by (simp only: pow2_Suc) linarith
  next
    case 2
    with "1.IH"(2) "1.prems" have "pow2 (ilog2 (2 * x)) \<le> 2 * x \<and> 2 * x < pow2 (ilog2 (2 * x) + 1)"
      by simp
    with 2 "1.prems" show ?thesis
      using pow2_Suc [of "ilog2 (2 * x) - 1"] by (simp add: ilog2.simps [of x] pow2_Suc)
  next
    case 3
    then show ?thesis using pow2_Suc [of 0] by (simp add: ilog2.simps [of x])
  qed
qed

lemma ilog2_mono:
  assumes "0 < x" "x \<le> y"
  shows "ilog2 x \<le> ilog2 y"
proof (rule ccontr)
  assume "\<not> ilog2 x \<le> ilog2 y"
  then have "pow2 (ilog2 y + 1) \<le> pow2 (ilog2 x)" by (intro pow2_mono) simp
  with ilog2_bounds [of x] ilog2_bounds [of y] assms show False by simp
qed

section \<open>Rounding is monotone and exact on small integers\<close>

lemma round_half_even_of_int [simp]: "round_half_even (of_int k) = k"
  by (simp add: round_half_even_def)

lemma round_half_even_bounds:
  "x - 1 / 2 \<le> of_int (round_half_even x)" "of_int (round_half_even x) \<le> x + 1 / 2"
proof -
  have f: "of_int \<lfloor>x\<rfloor> \<le> x" by linarith
  show "x - 1 / 2 \<le> of_int (round_half_even x)" "of_int (round_half_even x) \<le> x + 1 / 2"
    unfolding round_half_even_def Let_def using f
    by (simp_all split: if_split, simp_all only: not_less, linarith+)
qed

lemma round_half_even_mono:
  assumes "x \<le> y"
  shows "round_half_even x \<le> round_half_even y"
proof (cases "\<lfloor>x\<rfloor> = \<lfloor>y\<rfloor>")
  case True
  with assms show ?thesis by (auto simp: round_half_even_def Let_def)
next
  case False
  with assms have "\<lfloor>x\<rfloor> + 1 \<le> \<lfloor>y\<rfloor>" using floor_mono [OF assms] by linarith
  moreover have "round_half_even x \<le> \<lfloor>x\<rfloor> + 1" "\<lfloor>y\<rfloor> \<le> round_half_even y"
    by (auto simp: round_half_even_def Let_def)
  ultimately show ?thesis by linarith
qed

lemma round_half_even_ge: "of_int k \<le> x \<Longrightarrow> k \<le> round_half_even x"
  using round_half_even_mono [of "of_int k" x] by simp

lemma round_half_even_le: "x \<le> of_int k \<Longrightarrow> round_half_even x \<le> k"
  using round_half_even_mono [of x "of_int k"] by simp

text \<open>
  Rounding never crosses a power of two that is a multiple of the quantum.
\<close>

definition quantum_exp :: "ieee_format \<Rightarrow> rat \<Rightarrow> int" where
  "quantum_exp F x = max (ilog2 \<bar>x\<bar>) (emin F) - int (prec F) + 1"

lemma quantum_pos [simp]: "0 < quantum F x"
  by (simp add: quantum_def)

lemma quantum_nonzero [simp]: "quantum F x \<noteq> 0"
  by (simp add: quantum_def)

lemma quantum_pow2: "quantum_exp F x \<le> k \<Longrightarrow> pow2 k = quantum F x * 2 ^ nat (k - quantum_exp F x)"
  using pow2_add [of "quantum_exp F x" "nat (k - quantum_exp F x)"]
  by (simp add: quantum_def quantum_exp_def)

lemma rnd_unbounded_eq: "x \<noteq> 0 \<Longrightarrow> rnd_unbounded F x = quantum F x * of_int (round_half_even (x / quantum F x))"
  by (simp add: rnd_unbounded_def mult.commute)

lemma rnd_unbounded_le_pow2:
  assumes "0 < x" "x \<le> pow2 k" "quantum_exp F x \<le> k"
  shows "rnd_unbounded F x \<le> pow2 k"
proof -
  have "x / quantum F x \<le> of_int (2 ^ nat (k - quantum_exp F x))"
    using assms(2) by (simp add: pos_divide_le_eq quantum_pow2 [OF assms(3)] mult.commute)
  then have "(of_int (round_half_even (x / quantum F x)) :: rat) \<le> of_int (2 ^ nat (k - quantum_exp F x))"
    by (simp only: of_int_le_iff round_half_even_le)
  then show ?thesis
    using assms(1) by (simp add: rnd_unbounded_eq quantum_pow2 [OF assms(3)])
qed

lemma rnd_unbounded_ge_pow2:
  assumes "pow2 k \<le> x" "quantum_exp F x \<le> k"
  shows "pow2 k \<le> rnd_unbounded F x"
proof -
  have "0 < x" using assms(1) pow2_pos [of k] by linarith
  have "of_int (2 ^ nat (k - quantum_exp F x)) \<le> x / quantum F x"
    using assms(1) by (simp add: pos_le_divide_eq quantum_pow2 [OF assms(2)] mult.commute)
  then have "of_int (2 ^ nat (k - quantum_exp F x)) \<le> (of_int (round_half_even (x / quantum F x)) :: rat)"
    by (simp only: of_int_le_iff round_half_even_ge)
  then show ?thesis
    using \<open>0 < x\<close> by (simp add: rnd_unbounded_eq quantum_pow2 [OF assms(2)])
qed

lemma rnd_unbounded_nonneg: "0 \<le> x \<Longrightarrow> 0 \<le> rnd_unbounded F x"
proof (cases "x = 0")
  case False
  assume "0 \<le> x"
  then have "of_int 0 \<le> x / quantum F x" by (simp add: quantum_def less_imp_le)
  from round_half_even_ge [OF this] show ?thesis
    by (simp add: rnd_unbounded_def quantum_def less_imp_le)
qed (simp add: rnd_unbounded_def)

lemma rnd_unbounded_mono:
  assumes "0 \<le> x" "x \<le> y" "0 < prec F"
  shows "rnd_unbounded F x \<le> rnd_unbounded F y"
proof (cases "x = 0")
  case True
  then show ?thesis using assms rnd_unbounded_nonneg [of y F] by (simp add: rnd_unbounded_def)
next
  case False
  with assms have x: "0 < x" and y: "0 < y" by simp_all
  have le: "quantum_exp F x \<le> quantum_exp F y"
    using ilog2_mono [OF x assms(2)] x y by (simp add: quantum_exp_def)
  show ?thesis
  proof (cases "quantum_exp F x = quantum_exp F y")
    case True
    then have q: "quantum F x = quantum F y" by (simp add: quantum_def quantum_exp_def)
    then have "x / quantum F x \<le> y / quantum F y"
      using assms(2) by (simp add: divide_right_mono less_imp_le)
    then have "(of_int (round_half_even (x / quantum F x)) :: rat) \<le> of_int (round_half_even (y / quantum F y))"
      by (simp only: of_int_le_iff round_half_even_mono)
    with q x y show ?thesis by (simp add: rnd_unbounded_eq)
  next
    case False
    with le have l: "max (ilog2 x) (emin F) + 1 \<le> ilog2 y" and m: "emin F \<le> ilog2 y"
      using x y by (auto simp: quantum_exp_def)
    have "x \<le> pow2 (ilog2 x + 1)" using ilog2_bounds [OF x] by simp
    also have "\<dots> \<le> pow2 (ilog2 y)" using l by (intro pow2_mono) simp
    finally have "rnd_unbounded F x \<le> pow2 (ilog2 y)"
      using x l by (intro rnd_unbounded_le_pow2) (simp_all add: quantum_exp_def)
    also have "\<dots> \<le> rnd_unbounded F y"
      using ilog2_bounds [OF y] y m assms(3) by (intro rnd_unbounded_ge_pow2) (simp_all add: quantum_exp_def)
    finally show ?thesis .
  qed
qed

lemma rnd_mono:
  assumes "0 \<le> x" "x \<le> y" "0 < prec F"
  shows "f_le (rnd F x) (rnd F y)"
proof -
  have "0 \<le> rnd_unbounded F x" "0 \<le> rnd_unbounded F y"
    using assms rnd_unbounded_nonneg by auto
  then have "\<not> rnd_unbounded F x \<le> - pow2 (emax F + 1)" "\<not> rnd_unbounded F y \<le> - pow2 (emax F + 1)"
    using pow2_pos [of "emax F + 1"] by linarith+
  with rnd_unbounded_mono [OF assms] show ?thesis
    by (auto simp: rnd_def Let_def)
qed

lemma rnd_0 [simp]: "rnd F 0 = Fin 0"
  using pow2_pos [of "emax F + 1"] by (simp add: rnd_def rnd_unbounded_def Let_def not_le)

lemma rnd_nat_exact:
  assumes "n < 2 ^ prec F" "emin F \<le> 0" "int (prec F) \<le> emax F + 1" "0 < prec F"
  shows "rnd F (of_nat n) = Fin (of_nat n)"
proof (cases "n = 0")
  case False
  then have pos: "0 < (of_nat n :: rat)" and one: "(1::rat) \<le> of_nat n" by simp_all
  have lt: "(of_nat n :: rat) < pow2 (int (prec F))"
  proof -
    have "(of_nat n :: rat) < of_nat (2 ^ prec F)" using assms(1) by (simp only: of_nat_less_iff)
    then show ?thesis using pow2_add [of 0 "prec F"] by simp
  qed
  have "ilog2 (of_nat n) < int (prec F)"
  proof (rule ccontr)
    assume "\<not> ilog2 (of_nat n) < int (prec F)"
    then have "pow2 (int (prec F)) \<le> pow2 (ilog2 (of_nat n))" by (intro pow2_mono) simp
    with ilog2_bounds [OF pos] lt show False by simp
  qed
  with assms(2,4) have "quantum_exp F (of_nat n) \<le> 0"
    by (simp add: quantum_exp_def)
  from quantum_pow2 [OF this] have q: "1 / quantum F (of_nat n) = 2 ^ nat (- quantum_exp F (of_nat n))"
    by (simp add: divide_eq_eq mult.commute)
  then have i: "of_nat n / quantum F (of_nat n) = (of_int (int n * 2 ^ nat (- quantum_exp F (of_nat n))) :: rat)"
    by (simp flip: q)
  have "rnd_unbounded F (of_nat n) = quantum F (of_nat n) * (of_nat n / quantum F (of_nat n))"
    using False unfolding i by (subst rnd_unbounded_eq, simp) (simp only: i round_half_even_of_int)
  then have "rnd_unbounded F (of_nat n) = of_nat n" by simp
  moreover have "(of_nat n :: rat) < pow2 (emax F + 1)"
    using lt pow2_mono [of "int (prec F)" "emax F + 1"] assms(3) by simp
  ultimately show ?thesis using one pow2_pos [of "emax F + 1"] by (simp add: rnd_def Let_def not_le)
qed simp

lemma f64_of_nat_exact: "n < 2 ^ 53 \<Longrightarrow> f64_of_nat n = Fin (of_nat n)"
  unfolding f_of_nat_def by (rule rnd_nat_exact) (simp_all add: f64_format_def)

lemma rnd_f64_numeral [simp]:
  "numeral k < (2 ^ 53 :: nat) \<Longrightarrow> rnd f64_format (numeral k) = Fin (numeral k)"
  using rnd_nat_exact [of "numeral k" f64_format] by (simp add: f64_format_def)

lemma rnd_f64_one [simp]: "rnd f64_format 1 = Fin 1"
  using rnd_nat_exact [of 1 f64_format] by (simp add: f64_format_def)

lemma f64_prec_pos [simp]: "0 < prec f64_format"
  by (simp add: f64_format_def)

text \<open>
  Certificates for evaluating a rounding: the exponent and the significand determine the result.
\<close>

lemma ilog2_unique:
  assumes "pow2 e \<le> x" "x < pow2 (e + 1)"
  shows "ilog2 x = e"
proof -
  have "0 < x" using assms(1) pow2_pos [of e] by linarith
  note b = ilog2_bounds [OF this]
  have "\<not> ilog2 x < e" using pow2_mono [of "ilog2 x + 1" e] b assms by auto
  moreover have "\<not> e < ilog2 x" using pow2_mono [of "e + 1" "ilog2 x"] b assms by auto
  ultimately show ?thesis by simp
qed

lemma rnd_f64_certificate:
  assumes "pow2 e \<le> x" "x < pow2 (e + 1)" "- 1022 \<le> e" "e < 1023"
    and "\<bar>x / pow2 (e - 52) - of_int m\<bar> < 1 / 2"
  shows "rnd f64_format x = Fin (of_int m * pow2 (e - 52))"
proof -
  have x: "0 < x" using assms(1) pow2_pos [of e] by linarith
  have q: "quantum f64_format x = pow2 (e - 52)"
    using x ilog2_unique [OF assms(1,2)] assms(3) by (simp add: quantum_def f64_format_def)
  have "round_half_even (x / pow2 (e - 52)) = m"
  proof -
    let ?y = "x / pow2 (e - 52)"
    have "?y < of_int m + 1 / 2" "of_int m - 1 / 2 < ?y" using assms(5) by linarith+
    then have "of_int (round_half_even ?y) < (of_int (m + 1) :: rat)"
      "of_int (m - 1) < (of_int (round_half_even ?y) :: rat)"
      using round_half_even_bounds [of ?y] by simp_all
    then show ?thesis by (simp only: of_int_less_iff)
  qed
  then have r: "rnd_unbounded f64_format x = of_int m * pow2 (e - 52)"
    using x by (simp add: rnd_unbounded_def q)
  have "quantum_exp f64_format x \<le> e + 1"
    using x ilog2_unique [OF assms(1,2)] assms(3) by (simp add: quantum_exp_def f64_format_def)
  then have "rnd_unbounded f64_format x \<le> pow2 (e + 1)"
    using x assms(2) by (intro rnd_unbounded_le_pow2) simp_all
  also have "\<dots> < pow2 1024" using assms(4) by (intro pow2_mono_strict) simp
  finally have "rnd_unbounded f64_format x < pow2 (emax f64_format + 1)"
    by (simp add: f64_format_def)
  moreover have "0 \<le> rnd_unbounded f64_format x" using x by (intro rnd_unbounded_nonneg) simp
  moreover have "\<not> rnd_unbounded f64_format x \<le> - pow2 (emax f64_format + 1)"
    using calculation(2) pow2_pos [of "emax f64_format + 1"] by linarith
  ultimately show ?thesis by (simp add: rnd_def Let_def r not_le)
qed

section \<open>Order of the operations on non-negative values\<close>

fun f_nonneg :: "ieee \<Rightarrow> bool" where
  "f_nonneg (Fin a) = (0 \<le> a)"
| "f_nonneg PInf = True"
| "f_nonneg _ = False"

lemma rnd_nonneg: "0 \<le> x \<Longrightarrow> f_nonneg (rnd F x)"
proof -
  assume "0 \<le> x"
  then have "0 \<le> rnd_unbounded F x" by (rule rnd_unbounded_nonneg)
  moreover have "\<not> rnd_unbounded F x \<le> - pow2 (emax F + 1)"
    using calculation pow2_pos [of "emax F + 1"] by linarith
  ultimately show ?thesis by (simp add: rnd_def Let_def)
qed

lemma f_of_nat_nonneg [simp]: "f_nonneg (f_of_nat F n)"
  by (simp add: f_of_nat_def rnd_nonneg)

lemma f_of_nat_mono: "m \<le> n \<Longrightarrow> 0 < prec F \<Longrightarrow> f_le (f_of_nat F m) (f_of_nat F n)"
  by (simp add: f_of_nat_def rnd_mono)

lemma f_le_refl_nonneg: "f_nonneg a \<Longrightarrow> f_le a a"
  by (cases a) simp_all

lemma f_le_nonneg_cases:
  assumes "f_nonneg a" "f_le a b"
  obtains x y where "a = Fin x" "b = Fin y" "0 \<le> x" "x \<le> y"
    | x where "a = Fin x" "b = PInf" "0 \<le> x"
    | "a = PInf" "b = PInf"
  using assms by (cases a; cases b) auto

lemma f_le_PInf [simp]: "f_nonneg a \<Longrightarrow> f_le a PInf"
  by (cases a) simp_all

lemma f_mul_mono_left:
  assumes "f_nonneg a" "f_le a b" "0 < c" "0 < prec F"
  shows "f_le (f_mul F a (Fin c)) (f_mul F b (Fin c))"
  using assms(1,2)
proof (cases rule: f_le_nonneg_cases)
  case (1 x y)
  then show ?thesis using assms(3,4) by (simp add: rnd_mono mult_right_mono)
next
  case (2 x)
  then show ?thesis using assms(3) by (simp add: inf_of_def rnd_nonneg)
qed (use assms(3) in \<open>simp add: inf_of_def\<close>)

lemma f_mul_nonneg: "f_nonneg a \<Longrightarrow> 0 < c \<Longrightarrow> f_nonneg (f_mul F a (Fin c))"
  by (cases a) (simp_all add: inf_of_def rnd_nonneg)

lemma f_div_mono_left:
  assumes "f_nonneg a" "f_le a b" "0 < c" "0 < prec F"
  shows "f_le (f_div F a (Fin c)) (f_div F b (Fin c))"
  using assms(1,2)
proof (cases rule: f_le_nonneg_cases)
  case (1 x y)
  then show ?thesis using assms(3,4) by (simp add: rnd_mono divide_right_mono)
next
  case (2 x)
  then show ?thesis using assms(3) by (simp add: inf_of_def rnd_nonneg)
qed (use assms(3) in \<open>simp add: inf_of_def\<close>)

lemma f_div_nonneg: "f_nonneg a \<Longrightarrow> 0 < c \<Longrightarrow> f_nonneg (f_div F a (Fin c))"
  by (cases a) (simp_all add: inf_of_def rnd_nonneg)

lemma unat_f_to_u64:
  assumes "0 \<le> a"
  shows "unat (f_to_u64 (Fin a)) = min (nat \<lfloor>a\<rfloor>) (2 ^ 64 - 1)"
proof (cases "2 ^ 64 \<le> a")
  case True
  then have "2 ^ 64 \<le> \<lfloor>a\<rfloor>" by (simp add: le_floor_iff)
  then have "2 ^ 64 \<le> nat \<lfloor>a\<rfloor>" using nat_mono [of "2 ^ 64" "\<lfloor>a\<rfloor>"] by (simp add: nat_power_eq)
  then have "min (nat \<lfloor>a\<rfloor>) (2 ^ 64 - 1) = 2 ^ 64 - 1" by linarith
  with True show ?thesis
    by (simp add: unsigned_minus_1_eq_mask mask_eq_exp_minus_1)
next
  case False
  then have lt: "\<lfloor>a\<rfloor> < 2 ^ 64" by (simp add: floor_less_iff)
  moreover have "0 \<le> \<lfloor>a\<rfloor>" using assms by simp
  ultimately have "uint (word_of_int \<lfloor>a\<rfloor> :: u64) = \<lfloor>a\<rfloor>"
    by (simp add: uint_word_of_int)
  then have "unat (word_of_int \<lfloor>a\<rfloor> :: u64) = nat \<lfloor>a\<rfloor>"
    by (simp flip: nat_uint_eq)
  moreover have "nat \<lfloor>a\<rfloor> < 2 ^ 64" using lt \<open>0 \<le> \<lfloor>a\<rfloor>\<close> by (simp add: nat_less_iff)
  then have "min (nat \<lfloor>a\<rfloor>) (2 ^ 64 - 1) = nat \<lfloor>a\<rfloor>" by linarith
  ultimately show ?thesis using False assms by (cases "a = 0") simp_all
qed

lemma f_to_u64_mono:
  assumes "f_nonneg a" "f_le a b"
  shows "f_to_u64 a \<le> f_to_u64 b"
  using assms
proof (cases rule: f_le_nonneg_cases)
  case (1 x y)
  then have "nat \<lfloor>x\<rfloor> \<le> nat \<lfloor>y\<rfloor>" by (simp add: floor_mono nat_mono)
  with 1 show ?thesis
    using unat_f_to_u64 [of x] unat_f_to_u64 [of y]
    by (simp only: word_le_nat_alt)
qed (simp_all del: f_to_u64.simps(1) add: word_order.extremum)

end
