(* ===== verification/Aether_Types.thy ===== *)
theory Aether_Types
  imports Prelude Ieee_Float
begin

text \<open>
  The crate \<^verbatim>\<open>aether-types\<close>: identities, timing newtypes, IQ samples and the packet that every
  other component exchanges.  A newtype is a datatype with one constructor; the types that derive
  \<^verbatim>\<open>Ord\<close> in the source are instances of \<open>linorder\<close> here.
\<close>

datatype StreamId = StreamId (sid: u32)

datatype Sequence = Sequence (seqno: u64)

datatype Timestamp = Timestamp (tstamp: u64)

datatype Sfn = Sfn (sfn_no: u32)

datatype Slot = Slot (slot_no: u16)

datatype Symbol = Symbol (symbol_no: u8)

datatype AntennaId = AntennaId (antenna_no: u16)

datatype CarrierId = CarrierId (carrier_no: u16)

record RadioTimestamp =
  rt_sfn :: u32
  rt_slot :: u16
  rt_symbol :: u8
  rt_ns :: u64

definition RadioTimestamp_new :: "u32 \<Rightarrow> u16 \<Rightarrow> u8 \<Rightarrow> u64 \<Rightarrow> RadioTimestamp" where
  "RadioTimestamp_new sfn slot symbol ns =
     \<lparr>rt_sfn = sfn, rt_slot = slot, rt_symbol = symbol, rt_ns = ns\<rparr>"

record IQSample =
  iq_i :: f32
  iq_q :: f32

definition IQSample_new :: "f32 \<Rightarrow> f32 \<Rightarrow> IQSample" where
  "IQSample_new i q = \<lparr>iq_i = i, iq_q = q\<rparr>"

record Packet =
  stream_id :: StreamId
  sequence :: Sequence
  timestamp :: Timestamp
  payload :: "u8 list"

definition Packet_new :: "StreamId \<Rightarrow> Sequence \<Rightarrow> Timestamp \<Rightarrow> u8 list \<Rightarrow> Packet" where
  "Packet_new s q t p = \<lparr>stream_id = s, sequence = q, timestamp = t, payload = p\<rparr>"

section \<open>The derived orders\<close>

instantiation Sequence :: linorder
begin

definition less_eq_Sequence :: "Sequence \<Rightarrow> Sequence \<Rightarrow> bool" where
  "less_eq_Sequence a b \<longleftrightarrow> seqno a \<le> seqno b"

definition less_Sequence :: "Sequence \<Rightarrow> Sequence \<Rightarrow> bool" where
  "less_Sequence a b \<longleftrightarrow> seqno a < seqno b"

instance
  by standard (auto simp: less_eq_Sequence_def less_Sequence_def intro: Sequence.expand)

end

instantiation Timestamp :: linorder
begin

definition less_eq_Timestamp :: "Timestamp \<Rightarrow> Timestamp \<Rightarrow> bool" where
  "less_eq_Timestamp a b \<longleftrightarrow> tstamp a \<le> tstamp b"

definition less_Timestamp :: "Timestamp \<Rightarrow> Timestamp \<Rightarrow> bool" where
  "less_Timestamp a b \<longleftrightarrow> tstamp a < tstamp b"

instance
  by standard (auto simp: less_eq_Timestamp_def less_Timestamp_def intro: Timestamp.expand)

end

lemma Packet_new_simps [simp]:
  "stream_id (Packet_new s q t p) = s" "sequence (Packet_new s q t p) = q"
  "timestamp (Packet_new s q t p) = t" "payload (Packet_new s q t p) = p"
  by (simp_all add: Packet_new_def)

lemma Packet_new_eta [simp]:
  "Packet_new (stream_id p) (sequence p) (timestamp p) (payload p) = p"
  by (cases p) (simp add: Packet_new_def)

lemma RadioTimestamp_new_simps [simp]:
  "rt_sfn (RadioTimestamp_new a b c d) = a" "rt_slot (RadioTimestamp_new a b c d) = b"
  "rt_symbol (RadioTimestamp_new a b c d) = c" "rt_ns (RadioTimestamp_new a b c d) = d"
  by (simp_all add: RadioTimestamp_new_def)

end
