(* ===== verification/Protocol.thy ===== *)
theory Protocol
  imports Aether_Types
begin

text \<open>
  The crate \<^verbatim>\<open>aether-protocol\<close>: the 32-byte transport header and the framing of packets.
  The header is written field by field into a zeroed buffer at the source's offsets; bytes 6 and
  7 are reserved and stay zero.  Decoding checks the length, then the magic number, then the
  version; framing adds the payload and its length.
\<close>

section \<open>Header and frames\<close>

definition AETHER_MAGIC :: u32 where
  "AETHER_MAGIC = 0x41544852"

definition AETHER_VERSION :: u16 where
  "AETHER_VERSION = 1"

record AetherHeader =
  magic :: u32
  version :: u16
  hdr_stream_id :: u32
  hdr_timestamp :: u64
  hdr_sequence :: u64
  payload_len :: u32

datatype ProtocolError =
    Truncated (got: usize) (need: usize)
  | BadMagic u32
  | UnsupportedVersion u16
  | PayloadLenMismatch (header_len: u32) (body_len: usize)

definition AetherHeader_new :: "StreamId \<Rightarrow> Timestamp \<Rightarrow> Sequence \<Rightarrow> u32 \<Rightarrow> AetherHeader" where
  "AetherHeader_new s t q n =
     \<lparr>magic = AETHER_MAGIC, version = AETHER_VERSION, hdr_stream_id = sid s,
      hdr_timestamp = tstamp t, hdr_sequence = seqno q, payload_len = n\<rparr>"

definition encode :: "AetherHeader \<Rightarrow> u8 list" where
  "encode h =
     (let buf = replicate 32 0;
          buf = blit buf 0 (u32_to_le_bytes (magic h));
          buf = blit buf 4 (u16_to_le_bytes (version h));
          buf = blit buf 8 (u32_to_le_bytes (hdr_stream_id h));
          buf = blit buf 12 (u64_to_le_bytes (hdr_timestamp h));
          buf = blit buf 20 (u64_to_le_bytes (hdr_sequence h));
          buf = blit buf 28 (u32_to_le_bytes (payload_len h))
      in buf)"

definition validate :: "AetherHeader \<Rightarrow> ProtocolError + unit" where
  "validate h =
     (if magic h \<noteq> AETHER_MAGIC then Inl (BadMagic (magic h))
      else if version h \<noteq> AETHER_VERSION then Inl (UnsupportedVersion (version h))
      else Inr ())"

definition header_of_bytes :: "u8 list \<Rightarrow> AetherHeader" where
  "header_of_bytes bytes =
     \<lparr>magic = u32_from_le_bytes (subslice bytes 0 4),
      version = u16_from_le_bytes (subslice bytes 4 6),
      hdr_stream_id = u32_from_le_bytes (subslice bytes 8 12),
      hdr_timestamp = u64_from_le_bytes (subslice bytes 12 20),
      hdr_sequence = u64_from_le_bytes (subslice bytes 20 28),
      payload_len = u32_from_le_bytes (subslice bytes 28 32)\<rparr>"

definition decode :: "u8 list \<Rightarrow> ProtocolError + AetherHeader" where
  "decode bytes =
     (if length bytes < 32 then Inl (Truncated (length bytes) 32)
      else
        let header = header_of_bytes bytes in
        case validate header of Inl e \<Rightarrow> Inl e | Inr _ \<Rightarrow> Inr header)"

definition encode_frame :: "Packet \<Rightarrow> u8 list" where
  "encode_frame packet =
     (let header = AetherHeader_new (stream_id packet) (timestamp packet) (sequence packet)
                     (word_of_nat (length (payload packet)))
      in encode header @ payload packet)"

definition decode_frame :: "u8 list \<Rightarrow> ProtocolError + Packet" where
  "decode_frame bytes =
     (case decode bytes of
        Inl e \<Rightarrow> Inl e
      | Inr header \<Rightarrow>
          let body = drop 32 bytes in
          if length body \<noteq> unat (payload_len header)
          then Inl (PayloadLenMismatch (payload_len header) (length body))
          else Inr (Packet_new (StreamId (hdr_stream_id header)) (Sequence (hdr_sequence header))
                      (Timestamp (hdr_timestamp header)) body))"

section \<open>The layout of a header\<close>

text \<open>The buffer writes are the concatenation of the fields with two reserved zero bytes.\<close>

lemma blit_append_zeros:
  assumes "off = length xs" "m = length ys + n"
  shows "blit (xs @ replicate m z) off ys = (xs @ ys) @ replicate n z"
  using assms by (simp add: blit_def)

lemma encode_layout:
  "encode h =
     u32_to_le_bytes (magic h) @ u16_to_le_bytes (version h) @ [0, 0]
     @ u32_to_le_bytes (hdr_stream_id h) @ u64_to_le_bytes (hdr_timestamp h)
     @ u64_to_le_bytes (hdr_sequence h) @ u32_to_le_bytes (payload_len h)"
proof -
  let ?m = "u32_to_le_bytes (magic h)" and ?v = "u16_to_le_bytes (version h)"
    and ?s = "u32_to_le_bytes (hdr_stream_id h)" and ?t = "u64_to_le_bytes (hdr_timestamp h)"
    and ?q = "u64_to_le_bytes (hdr_sequence h)" and ?n = "u32_to_le_bytes (payload_len h)"
  have "blit (replicate 32 0) 0 ?m = ?m @ replicate 28 0"
    using blit_append_zeros [of 0 "[]" 32 ?m 28] by simp
  moreover have "blit (?m @ replicate 28 0) 4 ?v = (?m @ ?v) @ replicate 26 0"
    by (rule blit_append_zeros) simp_all
  moreover have "(?m @ ?v) @ replicate 26 0 = (?m @ ?v @ [0, 0]) @ replicate 24 (0::u8)"
    by (simp add: numeral_eq_Suc)
  moreover have "blit ((?m @ ?v @ [0, 0]) @ replicate 24 0) 8 ?s = ((?m @ ?v @ [0, 0]) @ ?s) @ replicate 20 0"
    by (rule blit_append_zeros) simp_all
  moreover have "blit (((?m @ ?v @ [0, 0]) @ ?s) @ replicate 20 0) 12 ?t
      = (((?m @ ?v @ [0, 0]) @ ?s) @ ?t) @ replicate 12 0"
    by (rule blit_append_zeros) simp_all
  moreover have "blit ((((?m @ ?v @ [0, 0]) @ ?s) @ ?t) @ replicate 12 0) 20 ?q
      = ((((?m @ ?v @ [0, 0]) @ ?s) @ ?t) @ ?q) @ replicate 4 0"
    by (rule blit_append_zeros) simp_all
  moreover have "blit (((((?m @ ?v @ [0, 0]) @ ?s) @ ?t) @ ?q) @ replicate 4 0) 28 ?n
      = (((((?m @ ?v @ [0, 0]) @ ?s) @ ?t) @ ?q) @ ?n) @ replicate 0 0"
    by (rule blit_append_zeros) simp_all
  ultimately show ?thesis by (simp only: encode_def Let_def) simp
qed

lemma length_encode [simp]: "length (encode h) = 32"
  by (simp add: encode_layout)

lemma header_of_bytes_encode: "header_of_bytes (encode h @ rest) = h"
  by (simp add: header_of_bytes_def encode_layout subslice_def u32_codec.dec_enc
      u16_codec.dec_enc u64_codec.dec_enc)

text \<open>
  Conversely a header that was read from 32 bytes is written back as these bytes, except for the
  two reserved bytes, which are written as zeros whatever they were.
\<close>

lemma encode_header_of_bytes:
  assumes len: "length bytes = 32"
  shows "encode (header_of_bytes bytes) = blit bytes 6 [0, 0]"
proof -
  have "encode (header_of_bytes bytes) =
      subslice bytes 0 4 @ subslice bytes 4 6 @ [0, 0] @ subslice bytes 8 12
      @ subslice bytes 12 20 @ subslice bytes 20 28 @ subslice bytes 28 32"
    using len by (simp add: encode_layout header_of_bytes_def u32_codec.enc_dec u16_codec.enc_dec
        u64_codec.enc_dec)
  also have "\<dots> = (subslice bytes 0 4 @ subslice bytes 4 6) @ [0, 0] @ subslice bytes 8 32"
    by (simp add: subslice_join)
  also have "\<dots> = blit bytes 6 [0, 0]"
    using len by (subst subslice_join) (simp_all add: blit_def subslice_def)
  finally show ?thesis .
qed

lemma validate_Inr_iff: "validate h = Inr u \<longleftrightarrow> magic h = AETHER_MAGIC \<and> version h = AETHER_VERSION"
  by (auto simp: validate_def)

lemma decode_Inr_iff:
  "decode bytes = Inr h \<longleftrightarrow>
     32 \<le> length bytes \<and> h = header_of_bytes bytes \<and> magic h = AETHER_MAGIC \<and> version h = AETHER_VERSION"
  by (auto simp: decode_def Let_def validate_Inr_iff split: sum.splits) (auto simp: validate_def split: if_splits)

lemma decode_frame_Inr_iff:
  "decode_frame bytes = Inr p \<longleftrightarrow>
     (\<exists>h. decode bytes = Inr h \<and> length bytes = 32 + unat (payload_len h) \<and>
          p = Packet_new (StreamId (hdr_stream_id h)) (Sequence (hdr_sequence h))
                (Timestamp (hdr_timestamp h)) (drop 32 bytes))"
proof (cases "decode bytes")
  case (Inr h)
  then have "32 \<le> length bytes" by (simp add: decode_Inr_iff)
  then have "length (drop 32 bytes) = unat (payload_len h) \<longleftrightarrow> length bytes = 32 + unat (payload_len h)"
    by auto
  with Inr show ?thesis by (auto simp: decode_frame_def Let_def)
qed (simp add: decode_frame_def)

lemma decode_encode_frame:
  "decode (encode_frame p) =
     Inr (AetherHeader_new (stream_id p) (timestamp p) (sequence p) (word_of_nat (length (payload p))))"
  unfolding decode_Inr_iff encode_frame_def Let_def header_of_bytes_encode
  by (simp add: AetherHeader_new_def)

lemma payload_len_new [simp]: "payload_len (AetherHeader_new s t q n) = n"
  by (simp add: AetherHeader_new_def)

lemma length_encode_frame [simp]: "length (encode_frame p) = 32 + length (payload p)"
  by (simp add: encode_frame_def Let_def)

lemma decode_frame_encode_frame:
  "length (payload p) < 2 ^ 32 \<Longrightarrow> decode_frame (encode_frame p) = Inr p"
  unfolding decode_frame_Inr_iff decode_encode_frame
  by (simp add: unat_of_nat) (simp add: encode_frame_def Let_def AetherHeader_new_def)

section \<open>Properties of the wire format\<close>

text \<open>
  C3: a frame decodes to the packet it was made from, exactly when the payload length fits the
  32-bit length field of the header.  A longer payload has its length truncated by the cast
  \<^verbatim>\<open>as u32\<close> and the receiver rejects the frame with a length mismatch.
\<close>

theorem frame_roundtrip:
  "decode_frame (encode_frame p) =
     (if length (payload p) < 2 ^ 32 then Inr p
      else Inl (PayloadLenMismatch (word_of_nat (length (payload p))) (length (payload p))))"
proof (cases "length (payload p) < 2 ^ 32")
  case True
  then show ?thesis by (simp add: decode_frame_encode_frame)
next
  case False
  then have "length (payload p) mod 2 ^ 32 \<noteq> length (payload p)"
    by (metis mod_less_divisor zero_less_numeral zero_less_power)
  then show ?thesis using False
    by (simp add: decode_frame_def decode_encode_frame Let_def unat_of_nat)
qed

lemma accepted_is_frame:
  assumes "decode_frame bytes = Inr p"
  shows "encode_frame p = blit bytes 6 [0, 0] \<and> length (payload p) < 2 ^ 32"
proof -
  from assms obtain h where dec: "decode bytes = Inr h"
    and len: "length bytes = 32 + unat (payload_len h)"
    and p: "p = Packet_new (StreamId (hdr_stream_id h)) (Sequence (hdr_sequence h))
                (Timestamp (hdr_timestamp h)) (drop 32 bytes)"
    by (auto simp: decode_frame_Inr_iff)
  from dec have h: "h = header_of_bytes bytes" "magic h = AETHER_MAGIC" "version h = AETHER_VERSION"
    by (auto simp: decode_Inr_iff)
  have bound: "unat (payload_len h) < 2 ^ 32" using unsigned_less [of "payload_len h"] by simp
  let ?hb = "take 32 bytes"
  have hb: "header_of_bytes bytes = header_of_bytes ?hb"
    by (simp add: header_of_bytes_def subslice_def drop_take)
  have "AetherHeader_new (stream_id p) (timestamp p) (sequence p) (word_of_nat (length (payload p))) = h"
    using h(2,3) len by (cases h) (simp add: p AetherHeader_new_def)
  then have "encode_frame p = encode (header_of_bytes ?hb) @ drop 32 bytes"
    by (simp add: encode_frame_def Let_def p hb [symmetric] h(1) [symmetric])
  also have "\<dots> = blit ?hb 6 [0, 0] @ drop 32 bytes"
    using len by (simp add: encode_header_of_bytes)
  also have "\<dots> = blit bytes 6 [0, 0]"
    using len append_take_drop_id [of 24 "drop 8 bytes"] by (simp add: blit_def drop_take)
  finally show ?thesis using len bound by (simp add: p)
qed

text \<open>
  C28: the decoder accepts nothing but frames.  A byte string that decodes to a packet is the
  encoding of this packet up to the two reserved header bytes, which the decoder ignores and the
  encoder writes as zeros.
\<close>

theorem decode_frame_sound:
  assumes "decode_frame bytes = Inr p"
  shows "encode_frame p = blit bytes 6 [0, 0] \<and> length (payload p) < 2 ^ 32"
  using assms by (rule accepted_is_frame)

theorem decode_frame_sound_witness:
  "decode_frame (encode_frame (Packet_new (StreamId 3) (Sequence 9) (Timestamp 42) [1, 2, 3, 4]))
     = Inr (Packet_new (StreamId 3) (Sequence 9) (Timestamp 42) [1, 2, 3, 4])
   \<and> encode_frame (Packet_new (StreamId 3) (Sequence 9) (Timestamp 42) [1, 2, 3, 4])
     = blit (encode_frame (Packet_new (StreamId 3) (Sequence 9) (Timestamp 42) [1, 2, 3, 4])) 6 [0, 0]"
proof -
  let ?p = "Packet_new (StreamId 3) (Sequence 9) (Timestamp 42) [1, 2, 3, 4]"
  have h: "decode_frame (encode_frame ?p) = Inr ?p"
    by (rule decode_frame_encode_frame) simp
  show ?thesis using h decode_frame_sound [OF h] by simp
qed

section \<open>Damaged frames\<close>

lemma decode_frame_eq:
  "decode_frame bytes =
     (let h = header_of_bytes bytes; n = length bytes in
      if n < 32 then Inl (Truncated n 32)
      else if magic h \<noteq> AETHER_MAGIC then Inl (BadMagic (magic h))
      else if version h \<noteq> AETHER_VERSION then Inl (UnsupportedVersion (version h))
      else if n - 32 \<noteq> unat (payload_len h) then Inl (PayloadLenMismatch (payload_len h) (n - 32))
      else Inr (Packet_new (StreamId (hdr_stream_id h)) (Sequence (hdr_sequence h))
                  (Timestamp (hdr_timestamp h)) (drop 32 bytes)))"
  by (simp add: decode_frame_def decode_def validate_def Let_def)

lemma header_of_frame:
  "header_of_bytes (encode_frame p @ rest) =
     AetherHeader_new (stream_id p) (timestamp p) (sequence p) (word_of_nat (length (payload p)))"
  by (simp add: encode_frame_def Let_def header_of_bytes_encode)

lemma header_of_prefix: "32 \<le> n \<Longrightarrow> header_of_bytes (take n bytes) = header_of_bytes bytes"
  by (simp add: header_of_bytes_def subslice_def drop_take min_def)

lemma new_header_valid [simp]:
  "magic (AetherHeader_new s t q n) = AETHER_MAGIC" "version (AetherHeader_new s t q n) = AETHER_VERSION"
  by (simp_all add: AetherHeader_new_def)

lemma subslice_update:
  "subslice (bs[i := b]) l u = (if l \<le> i \<and> i < u then (subslice bs l u)[i - l := b] else subslice bs l u)"
  by (cases "l \<le> i") (auto simp: subslice_def drop_update_swap take_update_swap drop_update_cancel list_update_beyond)

text \<open>A field whose bytes contain the damaged one has another value, and every other field has its value.\<close>

lemma damaged_field:
  assumes "l \<le> i" "i < u" "u \<le> length bs" "b \<noteq> bs ! i" "\<And>xs. length xs = u - l \<Longrightarrow> enc (dec xs) = xs"
  shows "dec (subslice (bs[i := b]) l u) \<noteq> dec (subslice bs l u)"
proof
  assume "dec (subslice (bs[i := b]) l u) = dec (subslice bs l u)"
  then have "enc (dec (subslice (bs[i := b]) l u)) = enc (dec (subslice bs l u))" by simp
  then have "subslice (bs[i := b]) l u ! (i - l) = subslice bs l u ! (i - l)" using assms(3) by (simp add: assms(5))
  then show False using assms(1-4) by (simp add: subslice_def)
qed

lemma header_update_outside:
  assumes "i = 6 \<or> i = 7 \<or> 32 \<le> i"
  shows "header_of_bytes (bs[i := b]) = header_of_bytes bs"
  using assms by (auto simp: header_of_bytes_def subslice_update)

lemma damaged_header:
  assumes "length (payload p) < 2 ^ 32" "i < length (encode_frame p)" "b \<noteq> encode_frame p ! i"
  defines "h \<equiv> header_of_bytes ((encode_frame p)[i := b])"
  shows "magic h = AETHER_MAGIC \<longleftrightarrow> 4 \<le> i" "version h = AETHER_VERSION \<longleftrightarrow> \<not> (4 \<le> i \<and> i < 6)"
    "unat (payload_len h) = length (payload p) \<longleftrightarrow> \<not> (28 \<le> i \<and> i < 32)"
proof -
  let ?f = "encode_frame p"
  have old: "magic (header_of_bytes ?f) = AETHER_MAGIC" "version (header_of_bytes ?f) = AETHER_VERSION"
      "unat (payload_len (header_of_bytes ?f)) = length (payload p)"
    using assms(1) header_of_frame [of p "[]"] by (simp_all add: unat_of_nat)
  note field = damaged_field [of _ i _ ?f b, OF _ _ _ assms(3)]
  have "magic h \<noteq> magic (header_of_bytes ?f)" if "i < 4"
    unfolding h_def header_of_bytes_def AetherHeader.simps using that
    by (intro field [where enc = u32_to_le_bytes]) (simp_all add: u32_codec.enc_dec)
  then show "magic h = AETHER_MAGIC \<longleftrightarrow> 4 \<le> i" using old(1) by (auto simp: h_def header_of_bytes_def subslice_update not_less)
  have "version h \<noteq> version (header_of_bytes ?f)" if "4 \<le> i" "i < 6"
    unfolding h_def header_of_bytes_def AetherHeader.simps using that
    by (intro field [where enc = u16_to_le_bytes]) (simp_all add: u16_codec.enc_dec)
  then show "version h = AETHER_VERSION \<longleftrightarrow> \<not> (4 \<le> i \<and> i < 6)" using old(2) by (auto simp: h_def header_of_bytes_def subslice_update)
  have "payload_len h \<noteq> payload_len (header_of_bytes ?f)" if "28 \<le> i" "i < 32"
    unfolding h_def header_of_bytes_def AetherHeader.simps using that
    by (intro field [where enc = u32_to_le_bytes]) (simp_all add: u32_codec.enc_dec)
  then have "unat (payload_len h) \<noteq> unat (payload_len (header_of_bytes ?f))" if "28 \<le> i" "i < 32"
    using that by (simp add: word_unat_eq_iff)
  then show "unat (payload_len h) = length (payload p) \<longleftrightarrow> \<not> (28 \<le> i \<and> i < 32)"
    using old(3) by (auto simp: h_def header_of_bytes_def subslice_update)
qed

lemma damaged_byte:
  assumes "length (payload p) < 2 ^ 32" "i < length (encode_frame p)" "b \<noteq> encode_frame p ! i"
  shows "case decode_frame ((encode_frame p)[i := b]) of
         Inl (BadMagic m) \<Rightarrow> i < 4 \<and> m \<noteq> AETHER_MAGIC
       | Inl (UnsupportedVersion v) \<Rightarrow> 4 \<le> i \<and> i < 6 \<and> v \<noteq> AETHER_VERSION
       | Inl (PayloadLenMismatch l k) \<Rightarrow> 28 \<le> i \<and> i < 32 \<and> unat l \<noteq> length (payload p) \<and> k = length (payload p)
       | Inl (Truncated _ _) \<Rightarrow> False
       | Inr q \<Rightarrow> if i = 6 \<or> i = 7 then q = p else (8 \<le> i \<and> i < 28 \<or> 32 \<le> i) \<and> q \<noteq> p"
proof -
  let ?f = "encode_frame p" and ?d = "(encode_frame p)[i := b]"
  note h = damaged_header [OF assms]
  have len: "\<not> length ?d < 32" "length ?d - 32 = length (payload p)" by simp_all
  note eq = decode_frame_eq [of ?d, unfolded Let_def len]
  show ?thesis
  proof (cases "i = 6 \<or> i = 7")
    case True
    then have "header_of_bytes ?d = header_of_bytes ?f" "drop 32 ?d = drop 32 ?f"
      by (auto intro: header_update_outside drop_update_cancel)
    then have "decode_frame ?d = decode_frame ?f" by (simp only: decode_frame_eq Let_def length_list_update)
    then show ?thesis using True decode_frame_encode_frame [OF assms(1)] by simp
  next
    case False
    have "q \<noteq> p" if q: "decode_frame ?d = Inr q" "8 \<le> i" for q
    proof
      assume "q = p"
      then have "?f ! i = blit ?d 6 [0, 0] ! i" using accepted_is_frame [OF q(1)] by simp
      then show False using q(2) assms(2,3) by (auto simp: blit_def nth_append)
    qed
    then show ?thesis using False h eq by (auto split: if_splits)
  qed
qed

text \<open>
  C29: what the decoder makes of a damaged frame.  For a frame of a packet whose length fits the header: cut at any
  place, the frame is refused, as truncated inside the header and as a length mismatch after it; with bytes appended it is
  refused as a length mismatch.  One wrong byte is always noticed in the magic number, in the version and in the length,
  each with its own error; it is ignored in the two reserved bytes; and anywhere else, in the stream, time stamp,
  sequence number or payload, it is not noticed, and the receiver gets another packet: the format has no checksum.
\<close>

theorem damaged_frames:
  assumes "length (payload p) < 2 ^ 32" "n < length (encode_frame p)" "xs \<noteq> []" "i < length (encode_frame p)" "b \<noteq> encode_frame p ! i"
  shows "decode_frame (take n (encode_frame p)) =
      Inl (if n < 32 then Truncated n 32 else PayloadLenMismatch (word_of_nat (length (payload p))) (n - 32))
    \<and> decode_frame (encode_frame p @ xs) = Inl (PayloadLenMismatch (word_of_nat (length (payload p))) (length (payload p) + length xs))
    \<and> (case decode_frame ((encode_frame p)[i := b]) of
         Inl (BadMagic m) \<Rightarrow> i < 4 \<and> m \<noteq> AETHER_MAGIC
       | Inl (UnsupportedVersion v) \<Rightarrow> 4 \<le> i \<and> i < 6 \<and> v \<noteq> AETHER_VERSION
       | Inl (PayloadLenMismatch l k) \<Rightarrow> 28 \<le> i \<and> i < 32 \<and> unat l \<noteq> length (payload p) \<and> k = length (payload p)
       | Inl (Truncated _ _) \<Rightarrow> False
       | Inr q \<Rightarrow> if i = 6 \<or> i = 7 then q = p else (8 \<le> i \<and> i < 28 \<or> 32 \<le> i) \<and> q \<noteq> p)"
proof (intro conjI)
  have len: "unat (word_of_nat (length (payload p)) :: u32) = length (payload p)" using assms(1) by (simp add: unat_of_nat)
  have h: "header_of_bytes (encode_frame p) =
      AetherHeader_new (stream_id p) (timestamp p) (sequence p) (word_of_nat (length (payload p)))"
    using header_of_frame [of p "[]"] by simp
  show "decode_frame (take n (encode_frame p)) =
      Inl (if n < 32 then Truncated n 32 else PayloadLenMismatch (word_of_nat (length (payload p))) (n - 32))"
    using assms(2) len h by (auto simp: decode_frame_eq header_of_prefix Let_def not_less)
  show "decode_frame (encode_frame p @ xs) =
      Inl (PayloadLenMismatch (word_of_nat (length (payload p))) (length (payload p) + length xs))"
    using assms(3) len by (simp add: decode_frame_eq header_of_frame Let_def)
qed (rule damaged_byte [OF assms(1,4,5)])

definition sample_frame_packet :: Packet where
  "sample_frame_packet = Packet_new (StreamId 3) (Sequence 9) (Timestamp 42) [1, 2, 3, 4]"

theorem damaged_frames_witness:
  "decode_frame (take 33 (encode_frame sample_frame_packet)) = Inl (PayloadLenMismatch 4 1)
    \<and> decode_frame (encode_frame sample_frame_packet @ [7]) = Inl (PayloadLenMismatch 4 5)
    \<and> (case decode_frame ((encode_frame sample_frame_packet)[32 := 9]) of Inl _ \<Rightarrow> False | Inr q \<Rightarrow> q \<noteq> sample_frame_packet)"
proof -
  have "encode_frame sample_frame_packet ! 32 = 1" by (simp add: encode_frame_def sample_frame_packet_def Let_def nth_append)
  then show ?thesis using damaged_frames [of sample_frame_packet 33 "[7]" 32 9]
    by (auto simp: sample_frame_packet_def split: sum.splits ProtocolError.splits)
qed

end
