(* ===== verification/Transport_Check.thy ===== *)
theory Transport_Check
  imports Aether_Types
begin

text \<open>
  \<^verbatim>\<open>aether-transport/src/check.rs\<close>: the per-stream sequence checker and the deadline checker,
  with the error type of the transport crate.
\<close>

section \<open>Definitions\<close>

datatype TransportError =
    StreamNotFound StreamId
  | StreamExists StreamId
  | StreamNotRunning StreamId
  | LinkNotReady
  | SequenceGap u64 u64
  | LatePacket u64 u64
  | TransportConfigError string

record TransportDeadlineConfig =
  tdc_version :: string
  tdc_id :: string
  max_latency_ns :: u64
  allow_reorder :: bool
  start_sequence :: u64

definition TransportDeadlineConfig_from_yaml_str ::
    "(string \<Rightarrow> string + TransportDeadlineConfig) \<Rightarrow> string \<Rightarrow> TransportError + TransportDeadlineConfig" where
  "TransportDeadlineConfig_from_yaml_str yaml_parse s = map_err TransportConfigError (yaml_parse s)"

record SequenceChecker =
  sc_next :: "StreamId \<rightharpoonup> u64"
  sc_start :: u64
  sc_allow_reorder :: bool

definition SequenceChecker_new :: "u64 \<Rightarrow> bool \<Rightarrow> SequenceChecker" where
  "SequenceChecker_new start reorder =
     \<lparr>sc_next = Map.empty, sc_start = start, sc_allow_reorder = reorder\<rparr>"

definition SequenceChecker_from_config :: "TransportDeadlineConfig \<Rightarrow> SequenceChecker" where
  "SequenceChecker_from_config cfg = SequenceChecker_new (start_sequence cfg) (allow_reorder cfg)"

definition register_stream :: "SequenceChecker \<Rightarrow> StreamId \<Rightarrow> SequenceChecker" where
  "register_stream chk i =
     (case sc_next chk i of
        None \<Rightarrow> chk\<lparr>sc_next := (sc_next chk)(i \<mapsto> sc_start chk)\<rparr>
      | Some _ \<Rightarrow> chk)"

definition unregister_stream :: "SequenceChecker \<Rightarrow> StreamId \<Rightarrow> SequenceChecker" where
  "unregister_stream chk i = chk\<lparr>sc_next := (sc_next chk)(i := None)\<rparr>"

text \<open>The sequence number a stream must send next: the stored one, or the configured start.\<close>

definition expected_seq :: "SequenceChecker \<Rightarrow> StreamId \<Rightarrow> u64" where
  "expected_seq chk i = (case sc_next chk i of Some n \<Rightarrow> n | None \<Rightarrow> sc_start chk)"

definition seq_check ::
    "SequenceChecker \<Rightarrow> Packet \<Rightarrow> (TransportError, unit, SequenceChecker) outcome" where
  "seq_check chk packet =
     (let expected = expected_seq chk (stream_id packet);
          got = seqno (sequence packet)
      in if got = expected
         then (Inr (), chk\<lparr>sc_next := (sc_next chk)(stream_id packet \<mapsto> expected + 1)\<rparr>)
         else if sc_allow_reorder chk \<and> expected < got
         then (Inl (SequenceGap expected got),
               chk\<lparr>sc_next := (sc_next chk)(stream_id packet \<mapsto> got + 1)\<rparr>)
         else (Inl (SequenceGap expected got), chk))"

definition last_expected :: "SequenceChecker \<Rightarrow> StreamId \<Rightarrow> u64" where
  "last_expected chk i = sat_sub (expected_seq chk i) 1"

definition resync :: "SequenceChecker \<Rightarrow> StreamId \<Rightarrow> u64 \<Rightarrow> SequenceChecker" where
  "resync chk i next_seq = chk\<lparr>sc_next := (sc_next chk)(i \<mapsto> next_seq)\<rparr>"

record TimestampChecker =
  tc_max_latency_ns :: u64

definition TimestampChecker_new :: "u64 \<Rightarrow> TimestampChecker" where
  "TimestampChecker_new m = \<lparr>tc_max_latency_ns = m\<rparr>"

definition TimestampChecker_from_config :: "TransportDeadlineConfig \<Rightarrow> TimestampChecker" where
  "TimestampChecker_from_config cfg = TimestampChecker_new (max_latency_ns cfg)"

definition ts_check :: "TimestampChecker \<Rightarrow> Packet \<Rightarrow> u64 \<Rightarrow> TransportError + unit" where
  "ts_check chk packet now =
     (let sent = tstamp (timestamp packet);
          latency = sat_sub now sent
      in if tc_max_latency_ns chk < latency
         then Inl (LatePacket latency (tc_max_latency_ns chk))
         else Inr ())"

section \<open>Expected sequence numbers\<close>

lemma expected_seq_upd [simp]:
  "expected_seq (chk\<lparr>sc_next := (sc_next chk)(i \<mapsto> n)\<rparr>) j = (if j = i then n else expected_seq chk j)"
  by (simp add: expected_seq_def split: option.split)

lemma expected_seq_register [simp]: "expected_seq (register_stream chk i) j = expected_seq chk j"
  by (auto simp: expected_seq_def register_stream_def split: option.splits)

lemma expected_seq_resync [simp]:
  "expected_seq (resync chk i n) j = (if j = i then n else expected_seq chk j)"
  by (simp add: resync_def)

lemma dom_register [simp]: "dom (sc_next (register_stream chk i)) = insert i (dom (sc_next chk))"
  by (auto simp: register_stream_def split: option.splits)

lemma dom_unregister [simp]: "dom (sc_next (unregister_stream chk i)) = dom (sc_next chk) - {i}"
  by (simp add: unregister_stream_def)

lemma dom_resync [simp]: "dom (sc_next (resync chk i n)) = insert i (dom (sc_next chk))"
  by (simp add: resync_def)

lemma seq_check_Inr_iff:
  "fst (seq_check chk p) = Inr u \<longleftrightarrow> seqno (sequence p) = expected_seq chk (stream_id p)"
  by (simp add: seq_check_def Let_def)

lemma seq_check_accept:
  assumes "seqno (sequence p) = expected_seq chk (stream_id p)"
  shows "seq_check chk p =
    (Inr (), chk\<lparr>sc_next := (sc_next chk)(stream_id p \<mapsto> seqno (sequence p) + 1)\<rparr>)"
  using assms by (simp add: seq_check_def Let_def)

lemma seq_check_gap:
  assumes "seqno (sequence p) \<noteq> expected_seq chk (stream_id p)"
  shows "snd (seq_check chk p) =
    (if sc_allow_reorder chk \<and> expected_seq chk (stream_id p) < seqno (sequence p)
     then resync chk (stream_id p) (seqno (sequence p) + 1) else chk)"
  using assms by (simp add: seq_check_def resync_def Let_def)

lemma seq_check_error:
  "fst (seq_check chk p) = Inl e \<longleftrightarrow>
     seqno (sequence p) \<noteq> expected_seq chk (stream_id p) \<and>
     e = SequenceGap (expected_seq chk (stream_id p)) (seqno (sequence p))"
  by (auto simp: seq_check_def Let_def)

lemma seq_check_static [simp]:
  "sc_start (snd (seq_check chk p)) = sc_start chk"
  "sc_allow_reorder (snd (seq_check chk p)) = sc_allow_reorder chk"
  by (simp_all add: seq_check_def Let_def)

lemma seq_check_other_stream:
  "j \<noteq> stream_id p \<Longrightarrow> expected_seq (snd (seq_check chk p)) j = expected_seq chk j"
  by (simp add: seq_check_def Let_def)

lemma seq_check_expected:
  "expected_seq (snd (seq_check chk p)) (stream_id p) =
     (if seqno (sequence p) = expected_seq chk (stream_id p)
         \<or> sc_allow_reorder chk \<and> expected_seq chk (stream_id p) < seqno (sequence p)
      then seqno (sequence p) + 1 else expected_seq chk (stream_id p))"
  by (auto simp: seq_check_def Let_def)

lemma seq_check_dom: "dom (sc_next chk) \<subseteq> dom (sc_next (snd (seq_check chk p)))"
  by (auto simp: seq_check_def Let_def)

section \<open>The deadline check\<close>

lemma ts_check_Inr_iff:
  "ts_check chk p now = Inr u \<longleftrightarrow>
     unat now \<le> unat (tstamp (timestamp p)) + unat (tc_max_latency_ns chk)"
  by (auto simp: ts_check_def Let_def word_less_nat_alt unat_sat_sub)

text \<open>
  A packet is late exactly when the receive clock is past its time stamp by more than the
  configured latency, computed without wrap-around; a packet stamped in the future is never late.
\<close>

theorem late_iff_past_deadline:
  "(\<exists>l m. ts_check chk p now = Inl (LatePacket l m)) \<longleftrightarrow>
     unat (tstamp (timestamp p)) + unat (tc_max_latency_ns chk) < unat now"
  by (auto simp: ts_check_def Let_def word_less_nat_alt unat_sat_sub)

end
