(* ===== verification/Transport.thy ===== *)
theory Transport
  imports Transport_Check
begin

text \<open>
  The crate \<^verbatim>\<open>aether-transport\<close> (\<^verbatim>\<open>lib.rs\<close> and \<^verbatim>\<open>sim.rs\<close>): stream and link management, the mock
  engine used by interface tests and the simulation engine that runs every received packet
  through the deadline and sequence checks.  The three traits the engines implement are the
  locale \<open>transport_engine\<close>, which both engines interpret.
\<close>

section \<open>Types of the transport interface\<close>

record StreamConfig =
  cfg_stream_id :: StreamId
  carrier :: u16
  antenna :: u16
  qos :: u8
  deadline_ns :: u64

datatype StreamState = Stream_Idle | Stream_Running | Stream_Stopped | Stream_Error

record StreamStatus =
  status_stream_id :: StreamId
  status_state :: StreamState
  last_sequence :: u64

datatype LinkState =
  Link_Init | Link_Discovery | Link_Ready | Link_Running | Link_Error | Link_Recovery

section \<open>The mock engine\<close>

record MockTransportEngine =
  mock_streams :: "StreamConfig list"
  mock_inbox :: "Packet list"
  mock_outbox :: "Packet list"
  mock_link :: LinkState

definition Mock_new :: MockTransportEngine where
  "Mock_new = \<lparr>mock_streams = [], mock_inbox = [], mock_outbox = [], mock_link = Link_Init\<rparr>"

definition Mock_push_inbox :: "MockTransportEngine \<Rightarrow> Packet \<Rightarrow> MockTransportEngine" where
  "Mock_push_inbox e packet = e\<lparr>mock_inbox := mock_inbox e @ [packet]\<rparr>"

definition Mock_send :: "MockTransportEngine \<Rightarrow> Packet \<Rightarrow> (TransportError, unit, MockTransportEngine) outcome" where
  "Mock_send e packet =
     (if mock_link e \<noteq> Link_Running \<and> mock_link e \<noteq> Link_Ready then (Inl LinkNotReady, e)
      else (Inr (), e\<lparr>mock_outbox := mock_outbox e @ [packet]\<rparr>))"

definition Mock_receive :: "MockTransportEngine \<Rightarrow> (TransportError, Packet option, MockTransportEngine) outcome" where
  "Mock_receive e =
     (case mock_inbox e of
        [] \<Rightarrow> (Inr None, e)
      | p # ps \<Rightarrow> (Inr (Some p), e\<lparr>mock_inbox := ps\<rparr>))"

definition Mock_has_stream :: "MockTransportEngine \<Rightarrow> StreamId \<Rightarrow> bool" where
  "Mock_has_stream e i \<longleftrightarrow> list_ex (\<lambda>s. cfg_stream_id s = i) (mock_streams e)"

definition Mock_create_stream :: "MockTransportEngine \<Rightarrow> StreamConfig \<Rightarrow> (TransportError, StreamId, MockTransportEngine) outcome" where
  "Mock_create_stream e cfg =
     (if Mock_has_stream e (cfg_stream_id cfg) then (Inl (StreamExists (cfg_stream_id cfg)), e)
      else (Inr (cfg_stream_id cfg), e\<lparr>mock_streams := mock_streams e @ [cfg]\<rparr>))"

definition Mock_start_stream :: "MockTransportEngine \<Rightarrow> StreamId \<Rightarrow> (TransportError, unit, MockTransportEngine) outcome" where
  "Mock_start_stream e i =
     (if \<not> Mock_has_stream e i then (Inl (StreamNotFound i), e) else (Inr (), e))"

definition Mock_stop_stream :: "MockTransportEngine \<Rightarrow> StreamId \<Rightarrow> (TransportError, unit, MockTransportEngine) outcome" where
  "Mock_stop_stream e i =
     (if \<not> Mock_has_stream e i then (Inl (StreamNotFound i), e) else (Inr (), e))"

definition Mock_query_stream :: "MockTransportEngine \<Rightarrow> StreamId \<Rightarrow> TransportError + StreamStatus" where
  "Mock_query_stream e i =
     (if \<not> Mock_has_stream e i then Inl (StreamNotFound i)
      else Inr \<lparr>status_stream_id = i, status_state = Stream_Running, last_sequence = 0\<rparr>)"

definition Mock_destroy_stream :: "MockTransportEngine \<Rightarrow> StreamId \<Rightarrow> (TransportError, unit, MockTransportEngine) outcome" where
  "Mock_destroy_stream e i =
     (let before = length (mock_streams e);
          e' = e\<lparr>mock_streams := filter (\<lambda>s. cfg_stream_id s \<noteq> i) (mock_streams e)\<rparr>
      in if length (mock_streams e') = before then (Inl (StreamNotFound i), e') else (Inr (), e'))"

definition Mock_link_up :: "MockTransportEngine \<Rightarrow> (TransportError, unit, MockTransportEngine) outcome" where
  "Mock_link_up e = (Inr (), e\<lparr>mock_link := Link_Running\<rparr>)"

definition Mock_link_down :: "MockTransportEngine \<Rightarrow> (TransportError, unit, MockTransportEngine) outcome" where
  "Mock_link_down e = (Inr (), e\<lparr>mock_link := Link_Init\<rparr>)"

definition Mock_reset :: "MockTransportEngine \<Rightarrow> (TransportError, unit, MockTransportEngine) outcome" where
  "Mock_reset e = (Inr (), e\<lparr>mock_link := Link_Init, mock_inbox := [], mock_outbox := []\<rparr>)"

section \<open>The simulation engine\<close>

record StreamRuntime =
  rt_cfg :: StreamConfig
  rt_state :: StreamState

record SimTransportEngine =
  streams :: "StreamId \<rightharpoonup> StreamRuntime"
  inbox :: "Packet list"
  outbox :: "Packet list"
  link :: LinkState
  seq :: SequenceChecker
  ts :: TimestampChecker
  now_ns :: u64
  sequence_gaps :: u64
  late_packets :: u64

definition Sim_new :: "TransportDeadlineConfig \<Rightarrow> SimTransportEngine" where
  "Sim_new deadline =
     \<lparr>streams = Map.empty, inbox = [], outbox = [], link = Link_Init,
      seq = SequenceChecker_from_config deadline, ts = TimestampChecker_from_config deadline,
      now_ns = 0, sequence_gaps = 0, late_packets = 0\<rparr>"

definition Sim_from_yaml ::
    "(string \<Rightarrow> string + TransportDeadlineConfig) \<Rightarrow> string \<Rightarrow> TransportError + SimTransportEngine" where
  "Sim_from_yaml yaml_parse yaml =
     (case TransportDeadlineConfig_from_yaml_str yaml_parse yaml of
        Inl e \<Rightarrow> Inl e | Inr cfg \<Rightarrow> Inr (Sim_new cfg))"

definition ingest :: "SimTransportEngine \<Rightarrow> Packet \<Rightarrow> (TransportError, unit, SimTransportEngine) outcome" where
  "ingest e packet =
     (if link e \<noteq> Link_Running \<and> link e \<noteq> Link_Ready then (Inl LinkNotReady, e)
      else case streams e (stream_id packet) of
        None \<Rightarrow> (Inl (StreamNotFound (stream_id packet)), e)
      | Some runtime \<Rightarrow>
          if rt_state runtime \<noteq> Stream_Running then (Inl (StreamNotRunning (stream_id packet)), e)
          else case ts_check (ts e) packet (now_ns e) of
            Inl err \<Rightarrow> (Inl err, e\<lparr>late_packets := late_packets e + 1\<rparr>)
          | Inr _ \<Rightarrow>
              (case seq_check (seq e) packet of
                 (Inr _, chk) \<Rightarrow> (Inr (), e\<lparr>seq := chk, inbox := inbox e @ [packet]\<rparr>)
               | (Inl (SequenceGap a b), chk) \<Rightarrow>
                   (Inl (SequenceGap a b), e\<lparr>seq := chk, sequence_gaps := sequence_gaps e + 1\<rparr>)
               | (Inl err, chk) \<Rightarrow> (Inl err, e\<lparr>seq := chk\<rparr>)))"

definition recover_sequence :: "SimTransportEngine \<Rightarrow> StreamId \<Rightarrow> u64 \<Rightarrow> SimTransportEngine" where
  "recover_sequence e i next_seq =
     e\<lparr>seq := resync (seq e) i next_seq,
       streams := (case streams e i of
                     None \<Rightarrow> streams e
                   | Some s \<Rightarrow> (streams e)(i \<mapsto> s\<lparr>rt_state := Stream_Running\<rparr>)),
       link := Link_Running\<rparr>"

definition Sim_advance_time :: "SimTransportEngine \<Rightarrow> u64 \<Rightarrow> SimTransportEngine" where
  "Sim_advance_time e delta = e\<lparr>now_ns := sat_add (now_ns e) delta\<rparr>"

definition send :: "SimTransportEngine \<Rightarrow> Packet \<Rightarrow> (TransportError, unit, SimTransportEngine) outcome" where
  "send e packet =
     (if link e \<noteq> Link_Running \<and> link e \<noteq> Link_Ready then (Inl LinkNotReady, e)
      else case streams e (stream_id packet) of
        None \<Rightarrow> (Inl (StreamNotFound (stream_id packet)), e)
      | Some runtime \<Rightarrow>
          if rt_state runtime \<noteq> Stream_Running then (Inl (StreamNotRunning (stream_id packet)), e)
          else (Inr (), e\<lparr>outbox := outbox e @ [packet]\<rparr>))"

definition receive :: "SimTransportEngine \<Rightarrow> (TransportError, Packet option, SimTransportEngine) outcome" where
  "receive e =
     (case inbox e of
        [] \<Rightarrow> (Inr None, e)
      | p # ps \<Rightarrow> (Inr (Some p), e\<lparr>inbox := ps\<rparr>))"

definition create_stream :: "SimTransportEngine \<Rightarrow> StreamConfig \<Rightarrow> (TransportError, StreamId, SimTransportEngine) outcome" where
  "create_stream e cfg =
     (let i = cfg_stream_id cfg in
      if streams e i \<noteq> None then (Inl (StreamExists i), e)
      else (Inr i, e\<lparr>seq := register_stream (seq e) i,
                     streams := (streams e)(i \<mapsto> \<lparr>rt_cfg = cfg, rt_state = Stream_Idle\<rparr>)\<rparr>))"

definition set_stream_state :: "StreamState \<Rightarrow> SimTransportEngine \<Rightarrow> StreamId \<Rightarrow> (TransportError, unit, SimTransportEngine) outcome" where
  "set_stream_state st e i =
     (case streams e i of
        None \<Rightarrow> (Inl (StreamNotFound i), e)
      | Some s \<Rightarrow> (Inr (), e\<lparr>streams := (streams e)(i \<mapsto> s\<lparr>rt_state := st\<rparr>)\<rparr>))"

definition start_stream :: "SimTransportEngine \<Rightarrow> StreamId \<Rightarrow> (TransportError, unit, SimTransportEngine) outcome" where
  "start_stream = set_stream_state Stream_Running"

definition stop_stream :: "SimTransportEngine \<Rightarrow> StreamId \<Rightarrow> (TransportError, unit, SimTransportEngine) outcome" where
  "stop_stream = set_stream_state Stream_Stopped"

definition query_stream :: "SimTransportEngine \<Rightarrow> StreamId \<Rightarrow> TransportError + StreamStatus" where
  "query_stream e i =
     (case streams e i of
        None \<Rightarrow> Inl (StreamNotFound i)
      | Some s \<Rightarrow> Inr \<lparr>status_stream_id = i, status_state = rt_state s,
                       last_sequence = last_expected (seq e) i\<rparr>)"

definition destroy_stream :: "SimTransportEngine \<Rightarrow> StreamId \<Rightarrow> (TransportError, unit, SimTransportEngine) outcome" where
  "destroy_stream e i =
     (case streams e i of
        None \<Rightarrow> (Inl (StreamNotFound i), e)
      | Some _ \<Rightarrow> (Inr (), e\<lparr>streams := (streams e)(i := None), seq := unregister_stream (seq e) i\<rparr>))"

definition stream_carrier_antenna :: "SimTransportEngine \<Rightarrow> StreamId \<Rightarrow> TransportError + (u16 \<times> u16)" where
  "stream_carrier_antenna e i =
     (case streams e i of
        None \<Rightarrow> Inl (StreamNotFound i)
      | Some s \<Rightarrow> Inr (carrier (rt_cfg s), antenna (rt_cfg s)))"

definition link_up :: "SimTransportEngine \<Rightarrow> (TransportError, unit, SimTransportEngine) outcome" where
  "link_up e = (Inr (), e\<lparr>link := Link_Running\<rparr>)"

definition link_down :: "SimTransportEngine \<Rightarrow> (TransportError, unit, SimTransportEngine) outcome" where
  "link_down e = (Inr (), e\<lparr>link := Link_Init\<rparr>)"

definition reset :: "SimTransportEngine \<Rightarrow> (TransportError, unit, SimTransportEngine) outcome" where
  "reset e = (Inr (), e\<lparr>link := Link_Init, inbox := [], outbox := [], sequence_gaps := 0, late_packets := 0\<rparr>)"

section \<open>The contract of the three traits\<close>

text \<open>
  What \<^verbatim>\<open>TransportEngine\<close>, \<^verbatim>\<open>StreamManager\<close> and \<^verbatim>\<open>LinkManager\<close> promise to their callers,
  in terms of the packets waiting on either side and the set of streams.
\<close>

locale transport_engine =
  fixes snd_op :: "'s \<Rightarrow> Packet \<Rightarrow> (TransportError, unit, 's) outcome"
    and rcv_op :: "'s \<Rightarrow> (TransportError, Packet option, 's) outcome"
    and create_op :: "'s \<Rightarrow> StreamConfig \<Rightarrow> (TransportError, StreamId, 's) outcome"
    and destroy_op :: "'s \<Rightarrow> StreamId \<Rightarrow> (TransportError, unit, 's) outcome"
    and up_op :: "'s \<Rightarrow> (TransportError, unit, 's) outcome"
    and down_op :: "'s \<Rightarrow> (TransportError, unit, 's) outcome"
    and reset_op :: "'s \<Rightarrow> (TransportError, unit, 's) outcome"
    and status :: "'s \<Rightarrow> LinkState"
    and waiting :: "'s \<Rightarrow> Packet list"
    and sent :: "'s \<Rightarrow> Packet list"
    and known :: "'s \<Rightarrow> StreamId set"
  assumes send_gate: "status s \<notin> {Link_Running, Link_Ready} \<Longrightarrow> snd_op s p = (Inl LinkNotReady, s)"
    and send_ok: "snd_op s p = (Inr u, s') \<Longrightarrow> sent s' = sent s @ [p] \<and> waiting s' = waiting s"
    and send_err: "snd_op s p = (Inl e, s') \<Longrightarrow> s' = s"
    and receive_none: "waiting s = [] \<Longrightarrow> rcv_op s = (Inr None, s)"
    and receive_some: "waiting s = p # ps \<Longrightarrow> \<exists>s'. rcv_op s = (Inr (Some p), s') \<and> waiting s' = ps"
    and create_dup: "cfg_stream_id c \<in> known s \<Longrightarrow> create_op s c = (Inl (StreamExists (cfg_stream_id c)), s)"
    and create_new: "cfg_stream_id c \<notin> known s \<Longrightarrow>
      fst (create_op s c) = Inr (cfg_stream_id c) \<and> known (snd (create_op s c)) = insert (cfg_stream_id c) (known s)"
    and destroy_missing: "i \<notin> known s \<Longrightarrow> destroy_op s i = (Inl (StreamNotFound i), s)"
    and destroy_present: "i \<in> known s \<Longrightarrow>
      fst (destroy_op s i) = Inr () \<and> known (snd (destroy_op s i)) = known s - {i}"
    and up_status: "fst (up_op s) = Inr () \<and> status (snd (up_op s)) = Link_Running"
    and down_status: "fst (down_op s) = Inr () \<and> status (snd (down_op s)) = Link_Init"
    and reset_status: "fst (reset_op s) = Inr () \<and> status (snd (reset_op s)) = Link_Init"
    and reset_boxes: "waiting (snd (reset_op s)) = [] \<and> sent (snd (reset_op s)) = []"
begin

primrec receive_n :: "nat \<Rightarrow> 's \<Rightarrow> Packet list \<times> 's" where
  "receive_n 0 s = ([], s)"
| "receive_n (Suc n) s =
     (case rcv_op s of
        (Inr (Some p), s') \<Rightarrow> (let (ps, s'') = receive_n n s' in (p # ps, s''))
      | (_, s') \<Rightarrow> receive_n n s')"

lemma receive_n_fifo:
  "fst (receive_n n s) = take n (waiting s) \<and> waiting (snd (receive_n n s)) = drop n (waiting s)"
proof (induction n arbitrary: s)
  case 0
  then show ?case by simp
next
  case (Suc n)
  show ?case
  proof (cases "waiting s")
    case Nil
    then show ?thesis using Suc.IH [of s] by (simp add: receive_none)
  next
    case (Cons p ps)
    then obtain s' where "rcv_op s = (Inr (Some p), s')" "waiting s' = ps"
      using receive_some by blast
    then show ?thesis using Suc.IH [of s'] Cons by (simp add: split_beta Let_def)
  qed
qed

lemma create_destroy_known:
  assumes "cfg_stream_id c \<notin> known s"
  shows "known (snd (destroy_op (snd (create_op s c)) (cfg_stream_id c))) = known s"
  using create_new [OF assms] destroy_present [of "cfg_stream_id c" "snd (create_op s c)"] assms
  by simp

lemma create_twice:
  "cfg_stream_id c \<notin> known s \<Longrightarrow>
     fst (create_op (snd (create_op s c)) c) = Inl (StreamExists (cfg_stream_id c))"
  using create_new [of c s] by (simp add: create_dup)

lemma no_send_after_down: "snd_op (snd (down_op s)) p = (Inl LinkNotReady, snd (down_op s))"
  using down_status by (intro send_gate) simp

lemma no_send_after_reset: "snd_op (snd (reset_op s)) p = (Inl LinkNotReady, snd (reset_op s))"
  using reset_status by (intro send_gate) simp

end

abbreviation mock_known :: "MockTransportEngine \<Rightarrow> StreamId set" where
  "mock_known e \<equiv> cfg_stream_id ` set (mock_streams e)"

lemma Mock_has_stream_iff: "Mock_has_stream e i \<longleftrightarrow> i \<in> mock_known e"
  by (auto simp: Mock_has_stream_def list_ex_iff)

lemma Mock_destroy_found:
  "length (filter (\<lambda>s. cfg_stream_id s \<noteq> i) xs) = length xs \<longleftrightarrow> i \<notin> cfg_stream_id ` set xs"
proof (cases "i \<in> cfg_stream_id ` set xs")
  case True
  then obtain x where "x \<in> set xs" "\<not> cfg_stream_id x \<noteq> i" by auto
  then have "length (filter (\<lambda>s. cfg_stream_id s \<noteq> i) xs) < length xs" by (rule length_filter_less)
  with True show ?thesis by simp
next
  case False
  then have "filter (\<lambda>s. cfg_stream_id s \<noteq> i) xs = xs" by (auto simp: filter_id_conv)
  with False show ?thesis by simp
qed

lemmas mock_defs = Mock_send_def Mock_receive_def Mock_create_stream_def Mock_destroy_stream_def
  Mock_link_up_def Mock_link_down_def Mock_reset_def

interpretation mock: transport_engine Mock_send Mock_receive Mock_create_stream Mock_destroy_stream
  Mock_link_up Mock_link_down Mock_reset mock_link mock_inbox mock_outbox mock_known
proof unfold_locales
  fix s i
  assume "i \<notin> mock_known s"
  then have "filter (\<lambda>c. cfg_stream_id c \<noteq> i) (mock_streams s) = mock_streams s"
    by (auto simp: filter_id_conv)
  then show "Mock_destroy_stream s i = (Inl (StreamNotFound i), s)"
    by (simp add: Mock_destroy_stream_def Let_def)
next
  fix s i
  assume "i \<in> mock_known s"
  then show "fst (Mock_destroy_stream s i) = Inr ()
    \<and> mock_known (snd (Mock_destroy_stream s i)) = mock_known s - {i}"
    by (auto simp: Mock_destroy_stream_def Let_def Mock_destroy_found)
qed (auto simp: mock_defs Mock_has_stream_iff split: if_splits list.splits)

lemmas sim_defs = send_def receive_def create_stream_def destroy_stream_def
  link_up_def link_down_def reset_def

interpretation sim: transport_engine send receive create_stream destroy_stream
  link_up link_down reset link inbox outbox "\<lambda>e. dom (streams e)"
  by unfold_locales (auto simp: sim_defs Let_def split: if_splits list.splits option.splits)

section \<open>Ingest\<close>

text \<open>What an accepted packet needs, and what acceptance does.\<close>

definition can_ingest :: "SimTransportEngine \<Rightarrow> Packet \<Rightarrow> bool" where
  "can_ingest e p \<longleftrightarrow>
     link e \<in> {Link_Running, Link_Ready}
     \<and> (\<exists>s. streams e (stream_id p) = Some s \<and> rt_state s = Stream_Running)
     \<and> unat (now_ns e) \<le> unat (tstamp (timestamp p)) + unat (tc_max_latency_ns (ts e))"

lemma ingest_cases:
  obtains (link) "link e \<notin> {Link_Running, Link_Ready}" "ingest e p = (Inl LinkNotReady, e)"
  | (missing) "streams e (stream_id p) = None" "ingest e p = (Inl (StreamNotFound (stream_id p)), e)"
  | (stopped) s where "streams e (stream_id p) = Some s" "rt_state s \<noteq> Stream_Running"
      "ingest e p = (Inl (StreamNotRunning (stream_id p)), e)"
  | (late) err where "ts_check (ts e) p (now_ns e) = Inl err"
      "ingest e p = (Inl err, e\<lparr>late_packets := late_packets e + 1\<rparr>)"
  | (gap) "can_ingest e p" "seqno (sequence p) \<noteq> expected_seq (seq e) (stream_id p)"
      "ingest e p = (Inl (SequenceGap (expected_seq (seq e) (stream_id p)) (seqno (sequence p))),
         e\<lparr>seq := snd (seq_check (seq e) p), sequence_gaps := sequence_gaps e + 1\<rparr>)"
  | (accept) "can_ingest e p" "seqno (sequence p) = expected_seq (seq e) (stream_id p)"
      "ingest e p = (Inr (), e\<lparr>seq := snd (seq_check (seq e) p), inbox := inbox e @ [p]\<rparr>)"
proof (cases "link e \<in> {Link_Running, Link_Ready}")
  case False
  then show ?thesis by (intro that(1)) (auto simp: ingest_def)
next
  case lk: True
  show ?thesis
  proof (cases "streams e (stream_id p)")
    case None
    with lk show ?thesis by (intro that(2)) (auto simp: ingest_def)
  next
    case st: (Some s)
    show ?thesis
    proof (cases "rt_state s = Stream_Running")
      case False
      with lk st show ?thesis by (intro that(3)) (auto simp: ingest_def)
    next
      case run: True
      show ?thesis
      proof (cases "ts_check (ts e) p (now_ns e)")
        case (Inl err)
        with lk st run show ?thesis by (intro that(4)) (auto simp: ingest_def)
      next
        case (Inr u)
        then have can: "can_ingest e p"
          using lk st run by (auto simp: can_ingest_def ts_check_Inr_iff)
        show ?thesis
        proof (cases "seqno (sequence p) = expected_seq (seq e) (stream_id p)")
          case True
          with lk st run Inr can show ?thesis
            by (intro that(6)) (auto simp: ingest_def seq_check_accept)
        next
          case False
          with lk st run Inr can show ?thesis
            by (intro that(5)) (auto simp: ingest_def seq_check_def Let_def)
        qed
      qed
    qed
  qed
qed

lemma can_ingest_checks:
  assumes "can_ingest e p"
  obtains s where "link e \<in> {Link_Running, Link_Ready}" "streams e (stream_id p) = Some s"
    "rt_state s = Stream_Running" "ts_check (ts e) p (now_ns e) = Inr ()"
  using assms by (auto simp: can_ingest_def ts_check_Inr_iff)

lemma ingest_accept:
  assumes "can_ingest e p" "seqno (sequence p) = expected_seq (seq e) (stream_id p)"
  shows "ingest e p =
    (Inr (), e\<lparr>seq := resync (seq e) (stream_id p) (seqno (sequence p) + 1), inbox := inbox e @ [p]\<rparr>)"
proof -
  obtain s where "link e \<in> {Link_Running, Link_Ready}" "streams e (stream_id p) = Some s"
    "rt_state s = Stream_Running" "ts_check (ts e) p (now_ns e) = Inr ()"
    using assms(1) by (rule can_ingest_checks)
  then show ?thesis
    by (simp add: ingest_def seq_check_accept [OF assms(2)] resync_def)
qed

lemma ingest_Inr_iff:
  "fst (ingest e p) = Inr u \<longleftrightarrow>
     can_ingest e p \<and> seqno (sequence p) = expected_seq (seq e) (stream_id p)"
proof -
  have "\<not> can_ingest e p" if "ts_check (ts e) p (now_ns e) = Inl err" for err
    using that can_ingest_checks [of e p] by force
  then show ?thesis
    by (cases rule: ingest_cases [of e p]) (auto simp: can_ingest_def)
qed

text \<open>
  C4: the fate of a received packet on every branch of \<^verbatim>\<open>ingest\<close>, with the whole engine after it.  The packet enters the
  inbox exactly when the link is up, its stream runs, it is within its deadline and carries the expected sequence number;
  then the stream expects the next number.  A gap is counted once, and moves the expected number past the packet only
  if the policy allows reordering and the packet is ahead.  A late packet is counted once and consumes no sequence
  number.  Any other refusal has its cause and changes nothing.  No branch changes anything else: link, streams, outbox,
  clock and the numbers of the other streams stay.
\<close>

theorem ingest_verdict:
  "(case ingest e p of
      (Inr _, e') \<Rightarrow>
        can_ingest e p \<and> seqno (sequence p) = expected_seq (seq e) (stream_id p)
        \<and> e' = e\<lparr>seq := resync (seq e) (stream_id p) (seqno (sequence p) + 1), inbox := inbox e @ [p]\<rparr>
    | (Inl (SequenceGap a b), e') \<Rightarrow>
        can_ingest e p \<and> a = expected_seq (seq e) (stream_id p) \<and> b = seqno (sequence p) \<and> a \<noteq> b
        \<and> e' = e\<lparr>seq := (if sc_allow_reorder (seq e) \<and> a < b then resync (seq e) (stream_id p) (b + 1) else seq e),
               sequence_gaps := sequence_gaps e + 1\<rparr>
    | (Inl (LatePacket l m), e') \<Rightarrow>
        unat (tstamp (timestamp p)) + unat (tc_max_latency_ns (ts e)) < unat (now_ns e)
        \<and> e' = e\<lparr>late_packets := late_packets e + 1\<rparr>
    | (Inl LinkNotReady, e') \<Rightarrow> link e \<notin> {Link_Running, Link_Ready} \<and> e' = e
    | (Inl (StreamNotFound i), e') \<Rightarrow> i = stream_id p \<and> streams e i = None \<and> e' = e
    | (Inl (StreamNotRunning i), e') \<Rightarrow>
        i = stream_id p \<and> (\<exists>s. streams e i = Some s \<and> rt_state s \<noteq> Stream_Running) \<and> e' = e
    | _ \<Rightarrow> False)"
proof (cases rule: ingest_cases [of e p])
  case (late err)
  then show ?thesis
    by (auto simp: ts_check_def Let_def word_less_nat_alt unat_sat_sub split: if_splits)
next
  case accept
  then show ?thesis by (simp add: seq_check_accept resync_def)
next
  case gap
  then show ?thesis by (simp add: seq_check_gap)
qed auto

text \<open>
  A gap is recoverable.  The harnesses react to \<^verbatim>\<open>SequenceGap { got, .. }\<close> by resynchronising
  the stream to \<^verbatim>\<open>got\<close> and ingesting the same packet again.
\<close>

lemma recover_sequence_simps [simp]:
  "link (recover_sequence e i n) = Link_Running"
  "inbox (recover_sequence e i n) = inbox e"
  "outbox (recover_sequence e i n) = outbox e"
  "ts (recover_sequence e i n) = ts e"
  "now_ns (recover_sequence e i n) = now_ns e"
  "seq (recover_sequence e i n) = resync (seq e) i n"
  "sequence_gaps (recover_sequence e i n) = sequence_gaps e"
  "late_packets (recover_sequence e i n) = late_packets e"
  "dom (streams (recover_sequence e i n)) = dom (streams e)"
  by (auto simp: recover_sequence_def split: option.splits)

lemma recover_sequence_running:
  "streams e i = Some s \<Longrightarrow> streams (recover_sequence e i n) i = Some (s\<lparr>rt_state := Stream_Running\<rparr>)"
  by (simp add: recover_sequence_def)

lemma recover_can_ingest:
  "can_ingest e p \<Longrightarrow> can_ingest (recover_sequence e (stream_id p) n) p"
  by (auto simp: can_ingest_def recover_sequence_running)

lemma ingest_frame [simp]:
  "link (snd (ingest e p)) = link e" "streams (snd (ingest e p)) = streams e"
  "outbox (snd (ingest e p)) = outbox e" "ts (snd (ingest e p)) = ts e"
  "now_ns (snd (ingest e p)) = now_ns e"
  by (cases rule: ingest_cases [of e p]; simp)+

lemma ts_check_error: "ts_check chk p n = Inl err \<Longrightarrow> \<exists>l m. err = LatePacket l m"
  by (auto simp: ts_check_def Let_def split: if_splits)

lemma ingest_gapD:
  assumes "fst (ingest e p) = Inl (SequenceGap a b)"
  shows "can_ingest e p" "b = seqno (sequence p)"
    "snd (ingest e p) = e\<lparr>seq := snd (seq_check (seq e) p), sequence_gaps := sequence_gaps e + 1\<rparr>"
  using assms by (cases rule: ingest_cases [of e p]; auto dest: ts_check_error)+

lemma gap_then_recover:
  assumes "fst (ingest e p) = Inl (SequenceGap a b)"
  defines "r \<equiv> recover_sequence (snd (ingest e p)) (stream_id p) b"
  shows "ingest r p = (Inr (), r\<lparr>seq := resync (seq r) (stream_id p) (b + 1), inbox := inbox e @ [p]\<rparr>)"
    "sequence_gaps r = sequence_gaps e + 1" "late_packets r = late_packets e"
proof -
  note gap = ingest_gapD [OF assms(1)]
  have "can_ingest (snd (ingest e p)) p" using gap(1) by (simp add: can_ingest_def)
  then have "can_ingest r p" unfolding r_def by (rule recover_can_ingest)
  moreover have "seqno (sequence p) = expected_seq (seq r) (stream_id p)" by (simp add: r_def gap(2))
  moreover have "inbox r = inbox e" by (simp add: r_def gap(3))
  ultimately show "ingest r p = (Inr (), r\<lparr>seq := resync (seq r) (stream_id p) (b + 1), inbox := inbox e @ [p]\<rparr>)"
    by (simp add: ingest_accept gap(2))
  show "sequence_gaps r = sequence_gaps e + 1" "late_packets r = late_packets e"
    by (simp_all add: r_def gap(3))
qed

text \<open>
  C16: recovery after a gap always succeeds.  When \<^verbatim>\<open>ingest\<close> reports a gap, resynchronising to
  the received number and ingesting the packet again puts it in the inbox and makes the stream
  expect its successor, whatever the order policy of the checker; the gap is counted once.
\<close>

theorem gap_recovery_succeeds:
  assumes "ingest e p = (Inl (SequenceGap a b), e')"
  shows "\<exists>e''. ingest (recover_sequence e' (stream_id p) b) p = (Inr (), e'')
    \<and> inbox e'' = inbox e @ [p] \<and> expected_seq (seq e'') (stream_id p) = b + 1
    \<and> sequence_gaps e'' = sequence_gaps e + 1"
proof -
  have "fst (ingest e p) = Inl (SequenceGap a b)" "e' = snd (ingest e p)" using assms by simp_all
  with gap_then_recover [OF this(1)] show ?thesis by simp
qed

definition sample_config :: "u32 \<Rightarrow> StreamConfig" where
  "sample_config i = \<lparr>cfg_stream_id = StreamId i, carrier = 0, antenna = 0, qos = 0, deadline_ns = 10000\<rparr>"

definition sample_deadline :: TransportDeadlineConfig where
  "sample_deadline = \<lparr>tdc_version = ''1.0.0'', tdc_id = ''transport-deadline-policy'',
     max_latency_ns = 10000, allow_reorder = False, start_sequence = 0\<rparr>"

definition sample_engine :: SimTransportEngine where
  "sample_engine =
     snd (start_stream (snd (create_stream (snd (link_up (Sim_new sample_deadline))) (sample_config 2))) (StreamId 2))"

lemmas sample_simps = sample_engine_def sample_deadline_def sample_config_def Sim_new_def
  SequenceChecker_from_config_def SequenceChecker_new_def TimestampChecker_from_config_def
  TimestampChecker_new_def start_stream_def set_stream_state_def create_stream_def link_up_def
  register_stream_def Let_def

theorem gap_recovery_succeeds_witness:
  "\<exists>e''. ingest (recover_sequence (snd (ingest sample_engine (Packet_new (StreamId 2) (Sequence 2) (Timestamp 10) [])))
           (StreamId 2) 2) (Packet_new (StreamId 2) (Sequence 2) (Timestamp 10) []) = (Inr (), e'')
    \<and> inbox e'' = inbox sample_engine @ [Packet_new (StreamId 2) (Sequence 2) (Timestamp 10) []]
    \<and> expected_seq (seq e'') (StreamId 2) = 2 + 1
    \<and> sequence_gaps e'' = sequence_gaps sample_engine + 1"
proof -
  let ?p = "Packet_new (StreamId 2) (Sequence 2) (Timestamp 10) []"
  have "ingest sample_engine ?p = (Inl (SequenceGap 0 2), snd (ingest sample_engine ?p))"
    by (simp add: ingest_def sample_simps ts_check_def seq_check_def expected_seq_def sat_sub_def)
  from gap_recovery_succeeds [OF this] show ?thesis by simp
qed

section \<open>Runs of the receiver\<close>

text \<open>The packets of a list that the engine accepts one after the other.\<close>

fun ingest_all :: "SimTransportEngine \<Rightarrow> Packet list \<Rightarrow> Packet list \<times> SimTransportEngine" where
  "ingest_all e [] = ([], e)"
| "ingest_all e (p # ps) =
     (case ingest e p of
        (Inr _, e') \<Rightarrow> (let (acc, e'') = ingest_all e' ps in (p # acc, e''))
      | (Inl _, e') \<Rightarrow> ingest_all e' ps)"

abbreviation of_stream :: "StreamId \<Rightarrow> Packet list \<Rightarrow> u64 list" where
  "of_stream i ps \<equiv> map (\<lambda>p. seqno (sequence p)) (filter (\<lambda>p. stream_id p = i) ps)"

fun consecutive_from :: "u64 \<Rightarrow> u64 list \<Rightarrow> bool" where
  "consecutive_from n [] = True"
| "consecutive_from n (q # qs) = (q = n \<and> consecutive_from (n + 1) qs)"

lemma ingest_expected_strict:
  assumes "\<not> sc_allow_reorder (seq e)"
  shows "expected_seq (seq (snd (ingest e p))) i =
    (if fst (ingest e p) = Inr () \<and> stream_id p = i then expected_seq (seq e) i + 1
     else expected_seq (seq e) i)"
proof (cases "stream_id p = i")
  case True
  with assms show ?thesis
    by (cases rule: ingest_cases [of e p]) (auto simp: seq_check_expected)
next
  case False
  then show ?thesis
    by (cases rule: ingest_cases [of e p]) (auto simp: seq_check_other_stream)
qed

lemma ingest_reorder_static [simp]:
  "sc_allow_reorder (seq (snd (ingest e p))) = sc_allow_reorder (seq e)"
  by (cases rule: ingest_cases [of e p]) simp_all

text \<open>
  C7: in-order delivery.  When reordering is not allowed, the packets of each stream that reach
  the inbox carry consecutive sequence numbers, starting with the one the stream expects, however
  the packets of all streams are interleaved, lost, repeated or reordered on the way; and the
  inbox grows by exactly the accepted packets in arrival order.
\<close>

theorem accepted_consecutive:
  assumes "\<not> sc_allow_reorder (seq e)"
  shows "consecutive_from (expected_seq (seq e) i) (of_stream i (fst (ingest_all e ps)))
    \<and> inbox (snd (ingest_all e ps)) = inbox e @ fst (ingest_all e ps)"
  using assms
proof (induction ps arbitrary: e)
  case Nil
  then show ?case by simp
next
  case (Cons p ps)
  let ?e = "snd (ingest e p)"
  have IH: "consecutive_from (expected_seq (seq ?e) i) (of_stream i (fst (ingest_all ?e ps)))
      \<and> inbox (snd (ingest_all ?e ps)) = inbox ?e @ fst (ingest_all ?e ps)"
    using Cons by simp
  note nxt = ingest_expected_strict [OF Cons.prems, of p i]
  show ?case
  proof (cases rule: ingest_cases [of e p])
    case accept
    with IH nxt show ?thesis by (auto simp: split_beta Let_def)
  qed (use IH nxt in \<open>auto\<close>)
qed

theorem accepted_consecutive_witness:
  "consecutive_from (expected_seq (seq sample_engine) (StreamId 2))
     (of_stream (StreamId 2) (fst (ingest_all sample_engine
        [Packet_new (StreamId 2) (Sequence 0) (Timestamp 0) [], Packet_new (StreamId 2) (Sequence 3) (Timestamp 5) []])))
   \<and> inbox (snd (ingest_all sample_engine
        [Packet_new (StreamId 2) (Sequence 0) (Timestamp 0) [], Packet_new (StreamId 2) (Sequence 3) (Timestamp 5) []]))
     = inbox sample_engine @ fst (ingest_all sample_engine
        [Packet_new (StreamId 2) (Sequence 0) (Timestamp 0) [], Packet_new (StreamId 2) (Sequence 3) (Timestamp 5) []])"
  by (rule accepted_consecutive) (simp add: sample_simps)

section \<open>Reachable engines\<close>

text \<open>
  One call of the engine's interface, and the engines that a sequence of calls can produce from
  \<^verbatim>\<open>SimTransportEngine::new\<close>.  A failing call is a step too.
\<close>

inductive sim_step :: "SimTransportEngine \<Rightarrow> SimTransportEngine \<Rightarrow> bool" where
  step_ingest: "sim_step e (snd (ingest e p))"
| step_recover: "sim_step e (recover_sequence e i n)"
| step_time: "sim_step e (Sim_advance_time e d)"
| step_send: "sim_step e (snd (send e p))"
| step_receive: "sim_step e (snd (receive e))"
| step_create: "sim_step e (snd (create_stream e cfg))"
| step_start: "sim_step e (snd (start_stream e i))"
| step_stop: "sim_step e (snd (stop_stream e i))"
| step_destroy: "sim_step e (snd (destroy_stream e i))"
| step_up: "sim_step e (snd (link_up e))"
| step_down: "sim_step e (snd (link_down e))"
| step_reset: "sim_step e (snd (reset e))"

inductive sim_reachable :: "TransportDeadlineConfig \<Rightarrow> SimTransportEngine \<Rightarrow> bool" for cfg where
  reach_new: "sim_reachable cfg (Sim_new cfg)"
| reach_step: "sim_reachable cfg e \<Longrightarrow> sim_step e e' \<Longrightarrow> sim_reachable cfg e'"

inductive_cases sim_stepE: "sim_step e e'"

definition sim_inv :: "TransportDeadlineConfig \<Rightarrow> SimTransportEngine \<Rightarrow> bool" where
  "sim_inv cfg e \<longleftrightarrow>
     dom (streams e) \<subseteq> dom (sc_next (seq e))
     \<and> (\<forall>i s. streams e i = Some s \<longrightarrow> cfg_stream_id (rt_cfg s) = i \<and> rt_state s \<noteq> Stream_Error)
     \<and> link e \<in> {Link_Init, Link_Running}
     \<and> sc_start (seq e) = start_sequence cfg \<and> sc_allow_reorder (seq e) = allow_reorder cfg
     \<and> tc_max_latency_ns (ts e) = max_latency_ns cfg"

lemma register_static [simp]:
  "sc_start (register_stream c i) = sc_start c"
  "sc_allow_reorder (register_stream c i) = sc_allow_reorder c"
  by (simp_all add: register_stream_def split: option.split)

lemma resync_static [simp]:
  "sc_start (resync c i n) = sc_start c" "sc_allow_reorder (resync c i n) = sc_allow_reorder c"
  by (simp_all add: resync_def)

lemma unregister_static [simp]:
  "sc_start (unregister_stream c i) = sc_start c"
  "sc_allow_reorder (unregister_stream c i) = sc_allow_reorder c"
  by (simp_all add: unregister_stream_def)

lemma sim_inv_new: "sim_inv cfg (Sim_new cfg)"
  by (simp add: sim_inv_def Sim_new_def SequenceChecker_from_config_def SequenceChecker_new_def
      TimestampChecker_from_config_def TimestampChecker_new_def)

lemma sim_inv_ingest:
  assumes "sim_inv cfg e"
  shows "sim_inv cfg (snd (ingest e p))"
proof -
  have "dom (sc_next (seq e)) \<subseteq> dom (sc_next (seq (snd (ingest e p))))"
    using seq_check_dom by (cases rule: ingest_cases [of e p]) auto
  moreover have "sc_start (seq (snd (ingest e p))) = sc_start (seq e)"
    by (cases rule: ingest_cases [of e p]) simp_all
  ultimately show ?thesis using assms unfolding sim_inv_def by (simp, blast)
qed

lemma sim_inv_recover: "sim_inv cfg e \<Longrightarrow> sim_inv cfg (recover_sequence e i n)"
  by (auto simp: sim_inv_def recover_sequence_def split: option.splits if_splits)

lemma sim_inv_streams:
  assumes "sim_inv cfg e"
  shows "sim_inv cfg (snd (create_stream e c))" "sim_inv cfg (snd (destroy_stream e i))"
    "st \<noteq> Stream_Error \<Longrightarrow> sim_inv cfg (snd (set_stream_state st e i))"
  using assms
  by (auto simp: sim_inv_def create_stream_def destroy_stream_def set_stream_state_def Let_def
      split: option.splits if_splits)

lemma sim_inv_boxes:
  assumes "sim_inv cfg e"
  shows "sim_inv cfg (snd (send e p))" "sim_inv cfg (snd (receive e))"
    "sim_inv cfg (snd (link_up e))" "sim_inv cfg (snd (link_down e))" "sim_inv cfg (snd (reset e))"
    "sim_inv cfg (Sim_advance_time e d)"
  using assms
  by (auto simp: sim_inv_def send_def receive_def link_up_def link_down_def reset_def
      Sim_advance_time_def split: option.splits list.splits)

lemma sim_inv_step: "sim_step e e' \<Longrightarrow> sim_inv cfg e \<Longrightarrow> sim_inv cfg e'"
  by (cases rule: sim_step.cases)
    (auto simp: start_stream_def stop_stream_def
      intro: sim_inv_ingest sim_inv_recover sim_inv_streams sim_inv_boxes)

lemma sim_reachable_inv: "sim_reachable cfg e \<Longrightarrow> sim_inv cfg e"
  by (induction rule: sim_reachable.induct) (auto intro: sim_inv_new sim_inv_step)

text \<open>
  C17: the engine's invariant over every sequence of interface calls.  Each stream is stored under
  its own identifier and has an expected sequence number; no stream is ever in the error state and
  the link only moves between \<^verbatim>\<open>Init\<close> and \<^verbatim>\<open>Running\<close>, so the remaining constructors of
  \<^verbatim>\<open>LinkState\<close> are never observed; the deadline and the order policy are those of the
  configuration for the engine's whole life.
\<close>

theorem engine_invariant:
  assumes "sim_reachable cfg e"
  shows "dom (streams e) \<subseteq> dom (sc_next (seq e))
    \<and> (\<forall>i s. streams e i = Some s \<longrightarrow> cfg_stream_id (rt_cfg s) = i \<and> rt_state s \<noteq> Stream_Error)
    \<and> link e \<in> {Link_Init, Link_Running}
    \<and> tc_max_latency_ns (ts e) = max_latency_ns cfg \<and> sc_allow_reorder (seq e) = allow_reorder cfg"
  using sim_reachable_inv [OF assms] by (simp add: sim_inv_def)

lemma sample_engine_reachable: "sim_reachable sample_deadline sample_engine"
  unfolding sample_engine_def by (intro reach_step [OF _ step_start] reach_step [OF _ step_create]
      reach_step [OF _ step_up] reach_new)

theorem engine_invariant_witness:
  "dom (streams sample_engine) \<subseteq> dom (sc_next (seq sample_engine))
    \<and> map_option (\<lambda>s. cfg_stream_id (rt_cfg s)) (streams sample_engine (StreamId 2)) = Some (StreamId 2)
    \<and> link sample_engine \<in> {Link_Init, Link_Running}
    \<and> tc_max_latency_ns (ts sample_engine) = max_latency_ns sample_deadline
    \<and> sc_allow_reorder (seq sample_engine) = allow_reorder sample_deadline"
proof -
  have "streams sample_engine (StreamId 2) \<noteq> None" by (simp add: sample_simps)
  then show ?thesis using engine_invariant [OF sample_engine_reachable] by fastforce
qed

section \<open>Delivery and stream life cycle\<close>

text \<open>
  Delivery order.  Calling \<^verbatim>\<open>receive\<close> any number of times returns the accepted packets in
  the order they were ingested and leaves the rest in place; a call on an empty inbox returns
  \<^verbatim>\<open>None\<close> and changes nothing.
\<close>

theorem receive_is_fifo:
  "fst (sim.receive_n n e) = take n (inbox e) \<and> inbox (snd (sim.receive_n n e)) = drop n (inbox e)
   \<and> receive (e\<lparr>inbox := []\<rparr>) = (Inr None, e\<lparr>inbox := []\<rparr>)"
  using sim.receive_n_fifo [of n e] sim.receive_none [of "e\<lparr>inbox := []\<rparr>"] by simp

lemma destroy_forgets_sequence:
  "i \<in> dom (streams e) \<Longrightarrow> expected_seq (seq (snd (destroy_stream e i))) i = sc_start (seq e)"
  by (auto simp: destroy_stream_def unregister_stream_def expected_seq_def)

text \<open>
  The life of a stream identifier.  Creating it twice is refused with the engine unchanged;
  destroying it makes it unknown again and forgets its sequence state, so that a stream created
  later under the same identifier is idle and starts over at the configured first sequence number.
\<close>

theorem stream_recreated_fresh:
  assumes "cfg_stream_id c \<in> dom (streams e)" "cfg_stream_id c' = cfg_stream_id c"
  shows "create_stream e c = (Inl (StreamExists (cfg_stream_id c)), e)
    \<and> (let e' = snd (create_stream (snd (destroy_stream e (cfg_stream_id c))) c')
       in query_stream e' (cfg_stream_id c) =
            Inr \<lparr>status_stream_id = cfg_stream_id c, status_state = Stream_Idle,
                 last_sequence = sat_sub (sc_start (seq e)) 1\<rparr>
          \<and> expected_seq (seq e') (cfg_stream_id c) = sc_start (seq e))"
proof -
  let ?d = "snd (destroy_stream e (cfg_stream_id c))"
  have "cfg_stream_id c \<notin> dom (streams ?d)"
    using sim.destroy_present [OF assms(1)] by simp
  then show ?thesis
    using sim.create_dup [OF assms(1)] destroy_forgets_sequence [OF assms(1)] assms(2)
    by (simp add: create_stream_def query_stream_def last_expected_def Let_def domIff)
qed

theorem stream_recreated_fresh_witness:
  "create_stream sample_engine (sample_config 2) = (Inl (StreamExists (cfg_stream_id (sample_config 2))), sample_engine)
    \<and> (let e' = snd (create_stream (snd (destroy_stream sample_engine (cfg_stream_id (sample_config 2)))) (sample_config 2))
       in query_stream e' (cfg_stream_id (sample_config 2)) =
            Inr \<lparr>status_stream_id = cfg_stream_id (sample_config 2), status_state = Stream_Idle,
                 last_sequence = sat_sub (sc_start (seq sample_engine)) 1\<rparr>
          \<and> expected_seq (seq e') (cfg_stream_id (sample_config 2)) = sc_start (seq sample_engine))"
  by (rule stream_recreated_fresh) (simp_all add: sample_simps)

text \<open>
  Recovering an identifier that is not a stream yet stores the number anyway and raises the link,
  so a stream created afterwards does not start at the configured first sequence number.
\<close>

lemma recover_unknown_stream_stale:
  assumes "cfg_stream_id c \<notin> dom (streams e)"
  shows "expected_seq (seq (snd (create_stream (recover_sequence e (cfg_stream_id c) n) c))) (cfg_stream_id c) = n"
    "link (recover_sequence e (cfg_stream_id c) n) = Link_Running"
  using assms by (auto simp: create_stream_def recover_sequence_def Let_def split: option.splits)

end
