(* ===== verification/Ethernet.thy ===== *)
theory Ethernet
  imports Aether_Types
begin

text \<open>
  The crate \<^verbatim>\<open>ethernet-model\<close>: the link parameters and the serialization delay of a frame.
  The delay is computed in \<^verbatim>\<open>f64\<close> and truncated to whole nanoseconds.
\<close>

record EthernetModelConfig =
  eth_version :: string
  eth_id :: string
  bandwidth_gbps :: f64
  mtu :: u32
  latency_ns :: u64
  jitter_ns :: u64
  eth_loss_rate :: f64

datatype EthernetError = EthernetConfigError string

definition EthernetModelConfig_from_yaml_str ::
    "(string \<Rightarrow> string + EthernetModelConfig) \<Rightarrow> string \<Rightarrow> EthernetError + EthernetModelConfig" where
  "EthernetModelConfig_from_yaml_str yaml_parse s = map_err EthernetConfigError (yaml_parse s)"

definition serialize_delay_ns :: "EthernetModelConfig \<Rightarrow> usize \<Rightarrow> u64" where
  "serialize_delay_ns cfg bytes =
     (if f_le (bandwidth_gbps cfg) (Fin 0) then - 1
      else
        let bits = f64_mul (f64_of_nat bytes) (f64_lit 8);
            seconds = f64_div bits (f64_mul (bandwidth_gbps cfg) (f64_lit 1000000000))
        in f_to_u64 (f64_mul seconds (f64_lit 1000000000)))"

definition wire_delay_ns :: "EthernetModelConfig \<Rightarrow> u64" where
  "wire_delay_ns cfg = latency_ns cfg"

section \<open>The delay grows with the frame\<close>

text \<open>The three ways the divisor of the delay can come out once the bandwidth is not negative.\<close>

lemma bandwidth_divisor_cases:
  assumes "\<not> f_le bw (Fin 0)" "0 < c"
  obtains d where "f_mul F bw (Fin c) = Fin d" "0 \<le> d"
    | "f_mul F bw (Fin c) = PInf" | "f_mul F bw (Fin c) = NaN"
proof (cases bw)
  case (Fin b)
  then have "f_nonneg (f_mul F bw (Fin c))" using assms by (simp add: rnd_nonneg)
  then show ?thesis using that by (cases "f_mul F bw (Fin c)") auto
qed (use assms that in \<open>auto simp: inf_of_def\<close>)

lemma f_to_u64_scaled_zero [simp]: "f_to_u64 (f64_mul (Fin 0) (Fin c)) = 0"
  by (simp add: rnd_def rnd_unbounded_def Let_def not_le)

lemma delay_mono_for_divisor:
  assumes "f_nonneg a" "f_le a b" "d = Fin x \<and> 0 \<le> x \<or> d = PInf \<or> d = NaN"
  shows "f_to_u64 (f64_mul (f64_div a d) (Fin 1000000000))
    \<le> f_to_u64 (f64_mul (f64_div b d) (Fin 1000000000))"
proof (cases "\<exists>x. d = Fin x \<and> 0 < x")
  case True
  then obtain x where "d = Fin x" "0 < x" by auto
  with assms(1,2) show ?thesis
    by (intro f_to_u64_mono f_mul_mono_left f_mul_nonneg f_div_mono_left f_div_nonneg)
      (simp_all add: f_div_mono_left f_div_nonneg)
next
  case False
  with assms(3) have "d = Fin 0 \<or> d = PInf \<or> d = NaN" by auto
  with assms(1,2) show ?thesis
    by (elim f_le_nonneg_cases) (auto simp: inf_of_def word_order.extremum)
qed

lemma serialize_delay_mono: "m \<le> n \<Longrightarrow> serialize_delay_ns cfg m \<le> serialize_delay_ns cfg n"
proof -
  assume mn: "m \<le> n"
  show ?thesis
  proof (cases "f_le (bandwidth_gbps cfg) (Fin 0)")
    case False
    let ?d = "f64_mul (bandwidth_gbps cfg) (Fin 1000000000)"
    have "\<exists>x. ?d = Fin x \<and> 0 \<le> x \<or> ?d = PInf \<or> ?d = NaN"
      using bandwidth_divisor_cases [OF False, of 1000000000 f64_format] by auto
    then obtain x where d: "?d = Fin x \<and> 0 \<le> x \<or> ?d = PInf \<or> ?d = NaN" by blast
    have "f_nonneg (f64_mul (f64_of_nat m) (Fin 8))" by (rule f_mul_nonneg) simp_all
    moreover have "f_le (f64_mul (f64_of_nat m) (Fin 8)) (f64_mul (f64_of_nat n) (Fin 8))"
      by (rule f_mul_mono_left) (simp_all add: f_of_nat_mono mn)
    ultimately show ?thesis using False d
      unfolding serialize_delay_ns_def by (simp add: delay_mono_for_divisor)
  qed (simp add: serialize_delay_ns_def)
qed

text \<open>
  The delay the crate's own test expects: 1250 bytes at 100 Gbps take 100 ns.  Neither the
  quotient nor the product is exact; both roundings are certified.
\<close>

lemma rnd_seconds_1250: "rnd f64_format (1 / 10000000) = Fin (7555786372591432 * pow2 (- 76))"
  using rnd_f64_certificate [of "- 24" "1 / 10000000" 7555786372591432] by (simp add: pow2_def)

lemma rnd_ns_1250: "rnd f64_format (7555786372591432 * pow2 (- 76) * 1000000000) = Fin 100"
  using rnd_f64_certificate [of 6 "7555786372591432 * pow2 (- 76) * 1000000000" 7036874417766400] by (simp add: pow2_def)

text \<open>
  The serialization delay is monotone in the frame size for every configuration, including a
  bandwidth that is infinite, not a number or so small that the product underflows; a bandwidth
  that is zero or negative makes every frame take the maximal delay.
\<close>

theorem serialize_delay_monotone:
  assumes "m \<le> n"
  shows "serialize_delay_ns cfg m \<le> serialize_delay_ns cfg n
    \<and> serialize_delay_ns (cfg\<lparr>bandwidth_gbps := Fin (- of_nat k)\<rparr>) m = - 1"
  using serialize_delay_mono [OF assms] by (simp add: serialize_delay_ns_def)

definition sample_ethernet :: EthernetModelConfig where
  "sample_ethernet = \<lparr>eth_version = ''1.0.0'', eth_id = ''ethernet-model-100g'', bandwidth_gbps = Fin 100,
     mtu = 9000, latency_ns = 1000, jitter_ns = 500, eth_loss_rate = Fin 0\<rparr>"

lemma serialize_delay_1250: "serialize_delay_ns sample_ethernet 1250 = 100"
proof -
  have bits: "f64_mul (f64_of_nat 1250) (Fin 8) = Fin 10000"
    by (simp add: f64_of_nat_exact)
  have div: "f64_mul (Fin 100) (Fin 1000000000) = Fin 100000000000" by simp
  have sec: "f64_div (Fin 10000) (Fin 100000000000) = Fin (7555786372591432 * pow2 (- 76))"
    using rnd_seconds_1250 by simp
  have ns: "f64_mul (Fin (7555786372591432 * pow2 (- 76))) (Fin 1000000000) = Fin 100"
    by (simp only: f_mul.simps rnd_ns_1250)
  show ?thesis
    unfolding serialize_delay_ns_def sample_ethernet_def Let_def
    by (simp only: EthernetModelConfig.simps rnd_f64_numeral, simp del: f_mul.simps f_div.simps add: bits div sec ns)
qed

theorem serialize_delay_monotone_witness:
  "serialize_delay_ns sample_ethernet 1250 \<le> serialize_delay_ns sample_ethernet 9000
   \<and> serialize_delay_ns (sample_ethernet\<lparr>bandwidth_gbps := Fin (- of_nat 0)\<rparr>) 1250 = - 1"
  by (rule serialize_delay_monotone) simp

end
