(* ===== verification/Fault_Injection.thy ===== *)
theory Fault_Injection
  imports Aether_Types "HOL-Library.Multiset"
begin

text \<open>
  The crate \<^verbatim>\<open>fault-injection\<close>: the drop decisions, the sequence and time-stamp mutations and
  the injector with its one-packet reorder buffer.
\<close>

section \<open>Definitions\<close>

record FaultInjectionConfig =
  fi_version :: string
  fi_id :: string
  enabled :: bool
  loss_rate :: f64
  extra_latency_us :: f64
  burst_length :: u32
  kernel_delay_us :: f64
  burst_start :: u64
  reorder_distance :: u32
  sequence_jump :: u64
  timestamp_skew_ns :: u64

datatype FaultError = FaultConfigError string

definition FaultInjectionConfig_from_yaml_str ::
    "(string \<Rightarrow> string + FaultInjectionConfig) \<Rightarrow> string \<Rightarrow> FaultError + FaultInjectionConfig" where
  "FaultInjectionConfig_from_yaml_str yaml_parse s = map_err FaultConfigError (yaml_parse s)"

text \<open>The period of the deterministic loss: \<^verbatim>\<open>(1.0 / loss_rate).round().max(1.0) as u64\<close>.\<close>

definition drop_period :: "FaultInjectionConfig \<Rightarrow> u64" where
  "drop_period cfg = f_to_u64 (f_max (f_round (f64_div (f64_lit 1) (loss_rate cfg))) (f64_lit 1))"

definition should_drop_deterministic :: "FaultInjectionConfig \<Rightarrow> u64 \<Rightarrow> bool" where
  "should_drop_deterministic cfg s =
     (if \<not> enabled cfg \<or> f_le (loss_rate cfg) (Fin 0) then False
      else s mod drop_period cfg = 0)"

definition should_drop_burst :: "FaultInjectionConfig \<Rightarrow> u64 \<Rightarrow> u64 \<Rightarrow> bool" where
  "should_drop_burst cfg s start =
     (if \<not> enabled cfg \<or> burst_length cfg = 0 then False
      else start \<le> s \<and> s < start + ucast (burst_length cfg))"

definition should_drop :: "FaultInjectionConfig \<Rightarrow> u64 \<Rightarrow> bool" where
  "should_drop cfg s \<longleftrightarrow> should_drop_deterministic cfg s \<or> should_drop_burst cfg s (burst_start cfg)"

definition extra_latency_ns :: "FaultInjectionConfig \<Rightarrow> u64" where
  "extra_latency_ns cfg =
     (if \<not> enabled cfg then 0 else f_to_u64 (f64_mul (extra_latency_us cfg) (f64_lit 1000)))"

definition kernel_delay_ns :: "FaultInjectionConfig \<Rightarrow> u64" where
  "kernel_delay_ns cfg =
     (if \<not> enabled cfg then 0 else f_to_u64 (f64_mul (kernel_delay_us cfg) (f64_lit 1000)))"

text \<open>
  The skew is an \<^verbatim>\<open>i64\<close>, read by \<open>sint\<close>; the sum is computed in \<^verbatim>\<open>i128\<close>, which cannot
  overflow, clamped at zero and truncated to 64 bits.
\<close>

definition mutate_packet :: "FaultInjectionConfig \<Rightarrow> Packet \<Rightarrow> Packet" where
  "mutate_packet cfg packet =
     (if \<not> enabled cfg then packet
      else
        let packet = (if 0 < sequence_jump cfg
              then packet\<lparr>sequence := Sequence (sat_add (seqno (sequence packet)) (sequence_jump cfg))\<rparr>
              else packet)
        in if timestamp_skew_ns cfg \<noteq> 0
           then let t = uint (tstamp (timestamp packet)) + sint (timestamp_skew_ns cfg)
                in packet\<lparr>timestamp := Timestamp (word_of_int (max t 0))\<rparr>
           else packet)"

record FaultInjector =
  fi_cfg :: FaultInjectionConfig
  held :: "Packet option"
  held_countdown :: u32
  fi_dropped :: u64
  reordered :: u64

definition FaultInjector_new :: "FaultInjectionConfig \<Rightarrow> FaultInjector" where
  "FaultInjector_new cfg =
     \<lparr>fi_cfg = cfg, held = None, held_countdown = 0, fi_dropped = 0, reordered = 0\<rparr>"

definition tick_hold :: "FaultInjector \<Rightarrow> Packet option \<times> FaultInjector" where
  "tick_hold fi =
     (case held fi of
        None \<Rightarrow> (None, fi)
      | Some p \<Rightarrow>
          if held_countdown fi = 0 then (Some p, fi\<lparr>held := None\<rparr>)
          else let fi = fi\<lparr>held_countdown := sat_sub (held_countdown fi) 1\<rparr>
               in if held_countdown fi = 0 then (Some p, fi\<lparr>held := None\<rparr>) else (None, fi))"

definition push :: "FaultInjector \<Rightarrow> Packet \<Rightarrow> Packet list \<times> FaultInjector" where
  "push fi packet =
     (let packet = mutate_packet (fi_cfg fi) packet in
      if should_drop (fi_cfg fi) (seqno (sequence packet))
      then let fi = fi\<lparr>fi_dropped := fi_dropped fi + 1\<rparr>;
               (released, fi) = tick_hold fi
           in (case released of Some p \<Rightarrow> [p] | None \<Rightarrow> [], fi)
      else
        let did_release = held fi \<noteq> None \<and> held_countdown fi \<le> 1;
            (released, fi) = tick_hold fi;
            out = (case released of Some p \<Rightarrow> [p] | None \<Rightarrow> [])
        in if enabled (fi_cfg fi) \<and> 0 < reorder_distance (fi_cfg fi) \<and> held fi = None \<and> \<not> did_release
           then (out, fi\<lparr>held := Some packet, held_countdown := reorder_distance (fi_cfg fi),
                         reordered := reordered fi + 1\<rparr>)
           else (out @ [packet], fi))"

definition flush :: "FaultInjector \<Rightarrow> Packet option \<times> FaultInjector" where
  "flush fi = (held fi, fi\<lparr>held_countdown := 0, held := None\<rparr>)"

text \<open>A stream of packets through the injector, as the drivers call it.\<close>

fun push_all :: "FaultInjector \<Rightarrow> Packet list \<Rightarrow> Packet list \<times> FaultInjector" where
  "push_all fi [] = ([], fi)"
| "push_all fi (p # ps) =
     (let (out, fi') = push fi p; (outs, fi'') = push_all fi' ps in (out @ outs, fi''))"

section \<open>Drop decisions\<close>

lemma drop_period_pos: "0 < drop_period cfg"
proof -
  let ?x = "f_round (f64_div (Fin 1) (loss_rate cfg))"
  have "f_le (Fin 1) (f_max ?x (Fin 1))" by (cases ?x) auto
  then have "f_to_u64 (Fin 1) \<le> f_to_u64 (f_max ?x (Fin 1))" by (intro f_to_u64_mono) simp_all
  then have "1 \<le> drop_period cfg" by (simp add: drop_period_def)
  then show ?thesis by (simp add: word_le_nat_alt word_less_nat_alt)
qed

lemma should_drop_burst_iff:
  "should_drop_burst cfg s start \<longleftrightarrow>
     enabled cfg \<and> unat start \<le> unat s \<and> unat s < unat start + unat (burst_length cfg)
     \<and> unat start + unat (burst_length cfg) < 2 ^ 64"
proof -
  let ?n = "unat (burst_length cfg)"
  have n: "?n < 2 ^ 32" using unsigned_less [of "burst_length cfg"] by simp
  have b: "unat start < 2 ^ 64" using unsigned_less [of start] by simp
  have u: "unat (ucast (burst_length cfg) :: u64) = ?n"
    using n by (simp add: unsigned_ucast_eq take_bit_nat_eq_self)
  have sum: "unat (start + ucast (burst_length cfg)) =
      (if unat start + ?n < 2 ^ 64 then unat start + ?n else unat start + ?n - 2 ^ 64)"
    unfolding unat_word_ariths u using n b by (simp add: mod_if)
  show ?thesis
    using n b by (auto simp: should_drop_burst_def word_le_nat_alt word_less_nat_alt sum
        simp flip: unat_eq_0 split: if_splits)
qed

text \<open>
  The two loss models.  The deterministic one never divides by zero, because the period is at
  least one for every loss rate including infinite ones and those that are not a number.  The burst
  drops exactly the sequence numbers from the start of the burst up to its length, provided the
  end of the burst is representable; a burst that reaches the end of the number space drops nothing.
\<close>

theorem drop_decisions:
  "0 < drop_period cfg
   \<and> (should_drop_burst cfg s start \<longleftrightarrow>
        enabled cfg \<and> unat start \<le> unat s \<and> unat s < unat start + unat (burst_length cfg)
        \<and> unat start + unat (burst_length cfg) < 2 ^ 64)
   \<and> (should_drop_deterministic cfg s \<longleftrightarrow>
        enabled cfg \<and> \<not> f_le (loss_rate cfg) (Fin 0) \<and> unat (drop_period cfg) dvd unat s)"
  using drop_period_pos should_drop_burst_iff [of cfg s start]
  by (simp add: should_drop_deterministic_def dvd_eq_mod_eq_0 unat_mod_distrib flip: unat_eq_0)

section \<open>The injector\<close>

lemma sat_sub_one_zero_iff: "sat_sub n 1 = 0 \<longleftrightarrow> n \<le> 1"
  by (rule sat_sub_eq_0_iff)

text \<open>The packet in the reorder buffer, as a list, and the two effects of a tick on it.\<close>

abbreviation held_list :: "FaultInjector \<Rightarrow> Packet list" where
  "held_list fi \<equiv> (case held fi of Some p \<Rightarrow> [p] | None \<Rightarrow> [])"

lemma tick_hold_idle: "held fi = None \<Longrightarrow> tick_hold fi = (None, fi)"
  by (simp add: tick_hold_def)

lemma tick_hold_release:
  assumes "held fi = Some p" "held_countdown fi \<le> 1"
  shows "tick_hold fi = (Some p, fi\<lparr>held_countdown := 0, held := None\<rparr>)"
proof (cases "held_countdown fi = 0")
  case True
  then have "fi\<lparr>held_countdown := 0\<rparr> = fi" by simp
  with True assms show ?thesis by (simp add: tick_hold_def)
next
  case False
  with assms show ?thesis by (simp add: tick_hold_def Let_def sat_sub_one_zero_iff)
qed

lemma tick_hold_wait:
  assumes "held fi = Some p" "1 < held_countdown fi"
  shows "tick_hold fi = (None, fi\<lparr>held_countdown := held_countdown fi - 1\<rparr>)"
proof -
  have "held_countdown fi \<noteq> 0" "sat_sub (held_countdown fi) 1 \<noteq> 0" "sat_sub (held_countdown fi) 1 = held_countdown fi - 1"
    using assms(2) by (auto simp: sat_sub_eq_0_iff not_le sat_sub_def)
  with assms show ?thesis by (simp add: tick_hold_def Let_def)
qed

abbreviation survives :: "FaultInjectionConfig \<Rightarrow> Packet \<Rightarrow> bool" where
  "survives cfg p \<equiv> \<not> should_drop cfg (seqno (sequence (mutate_packet cfg p)))"

text \<open>The five ways a push can go.\<close>

lemma push_cases:
  obtains
    (drop_idle) "\<not> survives (fi_cfg fi) p" "held fi = None" "push fi p = ([], fi\<lparr>fi_dropped := fi_dropped fi + 1\<rparr>)"
  | (drop_wait) q where "\<not> survives (fi_cfg fi) p" "held fi = Some q" "1 < held_countdown fi"
      "push fi p = ([], fi\<lparr>fi_dropped := fi_dropped fi + 1, held_countdown := held_countdown fi - 1\<rparr>)"
  | (drop_release) q where "\<not> survives (fi_cfg fi) p" "held fi = Some q" "held_countdown fi \<le> 1"
      "push fi p = ([q], fi\<lparr>fi_dropped := fi_dropped fi + 1, held_countdown := 0, held := None\<rparr>)"
  | (hold) "survives (fi_cfg fi) p" "held fi = None" "enabled (fi_cfg fi)" "0 < reorder_distance (fi_cfg fi)"
      "push fi p = ([], fi\<lparr>held := Some (mutate_packet (fi_cfg fi) p),
          held_countdown := reorder_distance (fi_cfg fi), reordered := reordered fi + 1\<rparr>)"
  | (pass) "survives (fi_cfg fi) p" "held fi = None" "\<not> enabled (fi_cfg fi) \<or> reorder_distance (fi_cfg fi) = 0"
      "push fi p = ([mutate_packet (fi_cfg fi) p], fi)"
  | (pass_wait) q where "survives (fi_cfg fi) p" "held fi = Some q" "1 < held_countdown fi"
      "push fi p = ([mutate_packet (fi_cfg fi) p], fi\<lparr>held_countdown := held_countdown fi - 1\<rparr>)"
  | (pass_release) q where "survives (fi_cfg fi) p" "held fi = Some q" "held_countdown fi \<le> 1"
      "push fi p = ([q, mutate_packet (fi_cfg fi) p], fi\<lparr>held_countdown := 0, held := None\<rparr>)"
proof (cases "held fi")
  case None
  show ?thesis
  proof (cases "survives (fi_cfg fi) p")
    case True
    show ?thesis
    proof (cases "enabled (fi_cfg fi) \<and> 0 < reorder_distance (fi_cfg fi)")
      case t: True
      with None True show ?thesis by (intro that(4)) (simp_all add: push_def Let_def tick_hold_idle)
    next
      case f: False
      with None True show ?thesis by (intro that(5)) (auto simp: push_def Let_def tick_hold_idle word_gt_0)
    qed
  next
    case False
    with None show ?thesis by (intro that(1)) (simp_all add: push_def Let_def tick_hold_idle)
  qed
next
  case (Some q)
  show ?thesis
  proof (cases "held_countdown fi \<le> 1")
    case le: True
    show ?thesis
    proof (cases "survives (fi_cfg fi) p")
      case True
      with Some le show ?thesis by (intro that(7)) (simp_all add: push_def Let_def tick_hold_release)
    next
      case False
      with Some le show ?thesis by (intro that(3)) (simp_all add: push_def Let_def tick_hold_release)
    qed
  next
    case gt: False
    show ?thesis
    proof (cases "survives (fi_cfg fi) p")
      case True
      with Some gt show ?thesis by (intro that(6)) (simp_all add: push_def Let_def tick_hold_wait not_le)
    next
      case False
      with Some gt show ?thesis by (intro that(2)) (simp_all add: push_def Let_def tick_hold_wait not_le)
    qed
  qed
qed

lemma push_cfg [simp]: "fi_cfg (snd (push fi p)) = fi_cfg fi"
  by (cases rule: push_cases [of fi p]) simp_all

lemma push_conserves:
  "mset (fst (push fi p)) + mset (held_list (snd (push fi p)))
     = mset (held_list fi) + (if survives (fi_cfg fi) p then {#mutate_packet (fi_cfg fi) p#} else {#})"
  by (cases rule: push_cases [of fi p]) simp_all

lemma push_dropped:
  "fi_dropped (snd (push fi p)) = fi_dropped fi + (if survives (fi_cfg fi) p then 0 else 1)"
  by (cases rule: push_cases [of fi p]) simp_all

lemma push_all_conserves:
  "mset (fst (push_all fi ps)) + mset (held_list (snd (push_all fi ps)))
     = mset (held_list fi) + mset (map (mutate_packet (fi_cfg fi)) (filter (survives (fi_cfg fi)) ps))
   \<and> fi_cfg (snd (push_all fi ps)) = fi_cfg fi
   \<and> fi_dropped (snd (push_all fi ps)) =
       fi_dropped fi + of_nat (length (filter (\<lambda>p. \<not> survives (fi_cfg fi) p) ps))"
proof (induction ps arbitrary: fi)
  case Nil
  then show ?case by simp
next
  case (Cons p ps)
  let ?n = "snd (push fi p)"
  let ?m = "\<lambda>ps. mset (map (mutate_packet (fi_cfg fi)) (filter (survives (fi_cfg fi)) ps))"
  have "mset (fst (push_all fi (p # ps))) + mset (held_list (snd (push_all fi (p # ps)))) =
      mset (fst (push fi p)) + (mset (fst (push_all ?n ps)) + mset (held_list (snd (push_all ?n ps))))"
    by (simp add: split_beta Let_def)
  also have "\<dots> = mset (fst (push fi p)) + (mset (held_list ?n) + ?m ps)"
    using Cons.IH [of ?n] by simp
  also have "\<dots> = (mset (fst (push fi p)) + mset (held_list ?n)) + ?m ps" by (simp only: add.assoc)
  also have "\<dots> = mset (held_list fi) + ?m (p # ps)" unfolding push_conserves by simp
  finally have "mset (fst (push_all fi (p # ps))) + mset (held_list (snd (push_all fi (p # ps)))) =
      mset (held_list fi) + ?m (p # ps)" .
  moreover have "fi_dropped (snd (push_all fi (p # ps))) =
      fi_dropped fi + of_nat (length (filter (\<lambda>p. \<not> survives (fi_cfg fi) p) (p # ps)))"
    using Cons.IH [of ?n] push_dropped [of fi p] by (simp add: split_beta Let_def)
  moreover have "fi_cfg (snd (push_all fi (p # ps))) = fi_cfg fi"
    using Cons.IH [of ?n] by (simp add: split_beta Let_def)
  ultimately show ?case by blast
qed

text \<open>
  C8: the injector neither loses nor invents packets.  Over any stream followed by a flush, the
  packets that come out are, counted with multiplicity, exactly the mutated images of those the
  drop decision lets through, and the drop counter has grown by the number of the others.
\<close>

theorem injector_conserves:
  "(case push_all (FaultInjector_new cfg) ps of
      (out, fi) \<Rightarrow>
        mset out + mset (case fst (flush fi) of Some p \<Rightarrow> [p] | None \<Rightarrow> [])
          = mset (map (mutate_packet cfg) (filter (\<lambda>p. \<not> should_drop cfg (seqno (sequence (mutate_packet cfg p)))) ps))
        \<and> fi_dropped fi = of_nat (length (filter (\<lambda>p. should_drop cfg (seqno (sequence (mutate_packet cfg p)))) ps))
        \<and> held (snd (flush fi)) = None)"
  using push_all_conserves [of "FaultInjector_new cfg" ps]
  by (simp add: split_beta flush_def FaultInjector_new_def)

lemma push_survives_hold:
  assumes "survives (fi_cfg fi) p" "held fi = None" "enabled (fi_cfg fi)" "0 < reorder_distance (fi_cfg fi)"
  shows "push fi p = ([], fi\<lparr>held := Some (mutate_packet (fi_cfg fi) p),
          held_countdown := reorder_distance (fi_cfg fi), reordered := reordered fi + 1\<rparr>)"
  using assms by (cases rule: push_cases [of fi p]) auto

lemma push_survives_wait:
  assumes "survives (fi_cfg fi) p" "held fi = Some q" "1 < held_countdown fi"
  shows "push fi p = ([mutate_packet (fi_cfg fi) p], fi\<lparr>held_countdown := held_countdown fi - 1\<rparr>)"
  using assms by (cases rule: push_cases [of fi p]) auto

lemma push_survives_release:
  assumes "survives (fi_cfg fi) p" "held fi = Some q" "held_countdown fi \<le> 1"
  shows "push fi p = ([q, mutate_packet (fi_cfg fi) p], fi\<lparr>held_countdown := 0, held := None\<rparr>)"
  using assms by (cases rule: push_cases [of fi p]) auto

lemma push_all_release:
  assumes "\<forall>p\<in>set ps. survives (fi_cfg fi) p" "held fi = Some q"
    "unat (held_countdown fi) = length ps" "ps \<noteq> []"
  shows "push_all fi ps =
    (map (mutate_packet (fi_cfg fi)) (butlast ps) @ q # [mutate_packet (fi_cfg fi) (last ps)],
     fi\<lparr>held_countdown := 0, held := None\<rparr>)"
  using assms
proof (induction ps arbitrary: fi)
  case Nil
  then show ?case by simp
next
  case (Cons p ps)
  show ?case
  proof (cases "ps = []")
    case True
    then have "held_countdown fi \<le> 1" using Cons.prems(3) by (simp add: word_le_nat_alt)
    with True Cons.prems show ?thesis by (simp add: push_survives_release)
  next
    case False
    let ?f = "fi\<lparr>held_countdown := held_countdown fi - 1\<rparr>"
    have gt: "1 < held_countdown fi" using False Cons.prems(3) by (simp add: word_less_nat_alt)
    then have "1 \<le> held_countdown fi" by simp
    then have "unat (held_countdown ?f) = length ps"
      using Cons.prems(3) by (simp add: unat_sub)
    with Cons.IH [of ?f] Cons.prems False gt show ?thesis
      by (simp add: push_survives_wait)
  qed
qed

text \<open>
  C37: what the reorder distance does.  An idle, enabled injector that drops nothing turns a block
  of \<open>d + 1\<close> packets, for reorder distance \<open>d\<close>, into the same block with the first packet moved
  behind the next \<open>d - 1\<close>, and is idle again.  With \<open>d = 1\<close> the block comes out in its original
  order, although the packet is counted as reordered.
\<close>

theorem reorder_block:
  assumes "enabled (fi_cfg fi)" "0 < reorder_distance (fi_cfg fi)" "held fi = None"
    and "length ps = unat (reorder_distance (fi_cfg fi))"
    and "\<forall>p\<in>set (p0 # ps). \<not> should_drop (fi_cfg fi) (seqno (sequence (mutate_packet (fi_cfg fi) p)))"
  shows "push_all fi (p0 # ps) =
    (map (mutate_packet (fi_cfg fi)) (butlast ps @ [p0, last ps]),
     fi\<lparr>held_countdown := 0, held := None, reordered := reordered fi + 1\<rparr>)"
proof -
  let ?f = "fi\<lparr>held := Some (mutate_packet (fi_cfg fi) p0),
          held_countdown := reorder_distance (fi_cfg fi), reordered := reordered fi + 1\<rparr>"
  have "ps \<noteq> []" using assms(2,4) by (auto simp: word_less_nat_alt)
  then have "push_all ?f ps =
    (map (mutate_packet (fi_cfg fi)) (butlast ps) @ mutate_packet (fi_cfg fi) p0 # [mutate_packet (fi_cfg fi) (last ps)],
     ?f\<lparr>held_countdown := 0, held := None\<rparr>)"
    using push_all_release [of ps ?f] assms by simp
  moreover have "push fi p0 = ([], ?f)"
    using assms by (intro push_survives_hold) simp_all
  ultimately show ?thesis by simp
qed

definition sample_fault :: "u32 \<Rightarrow> FaultInjectionConfig" where
  "sample_fault d = \<lparr>fi_version = ''1.0.0'', fi_id = ''fault-injection-defaults'', enabled = True,
     loss_rate = Fin 0, extra_latency_us = Fin 5, burst_length = 0, kernel_delay_us = Fin 100,
     burst_start = 5, reorder_distance = d, sequence_jump = 0, timestamp_skew_ns = 0\<rparr>"

abbreviation numbered_packet :: "u64 \<Rightarrow> Packet" where
  "numbered_packet n \<equiv> Packet_new (StreamId 1) (Sequence n) (Timestamp (1000 * n)) [1]"

lemma sample_fault_survives: "\<not> should_drop (sample_fault d) s"
  by (simp add: should_drop_def should_drop_deterministic_def should_drop_burst_def sample_fault_def)

lemma sample_fault_simps:
  "mutate_packet (sample_fault d) p = p" "enabled (sample_fault d)" "reorder_distance (sample_fault d) = d"
  by (simp_all add: mutate_packet_def sample_fault_def)

theorem reorder_block_witness:
  "push_all (FaultInjector_new (sample_fault 3)) [numbered_packet 0, numbered_packet 1, numbered_packet 2, numbered_packet 3]
     = ([numbered_packet 1, numbered_packet 2, numbered_packet 0, numbered_packet 3],
        (FaultInjector_new (sample_fault 3))\<lparr>held_countdown := 0, held := None, reordered := 0 + 1\<rparr>)"
  using reorder_block [of "FaultInjector_new (sample_fault 3)" "[numbered_packet 1, numbered_packet 2, numbered_packet 3]"
      "numbered_packet 0"]
  by (simp add: FaultInjector_new_def sample_fault_survives sample_fault_simps)

lemma mutate_disabled: "\<not> enabled cfg \<Longrightarrow> mutate_packet cfg = (\<lambda>p. p)"
  by (simp add: fun_eq_iff mutate_packet_def)

text \<open>
  Without a reorder distance the injector is a filter.  Packets leave in the order they
  arrive, each one mutated and none delayed; a disabled injector is the identity.
\<close>

theorem injector_without_reorder:
  assumes "reorder_distance (fi_cfg fi) = 0 \<or> \<not> enabled (fi_cfg fi)" "held fi = None"
  shows "fst (push_all fi ps) =
      map (mutate_packet (fi_cfg fi))
        (filter (\<lambda>p. \<not> should_drop (fi_cfg fi) (seqno (sequence (mutate_packet (fi_cfg fi) p)))) ps)
    \<and> held (snd (push_all fi ps)) = None
    \<and> fst (push_all (fi\<lparr>fi_cfg := (fi_cfg fi)\<lparr>enabled := False\<rparr>\<rparr>) ps) = ps"
proof -
  have gen: "fst (push_all g ps) = map (mutate_packet (fi_cfg g)) (filter (survives (fi_cfg g)) ps)
      \<and> held (snd (push_all g ps)) = None"
    if "reorder_distance (fi_cfg g) = 0 \<or> \<not> enabled (fi_cfg g)" "held g = None" for g
    using that
  proof (induction ps arbitrary: g)
    case Nil
    then show ?case by simp
  next
    case (Cons p ps)
    then have "held (snd (push g p)) = None"
      "fst (push g p) = (if survives (fi_cfg g) p then [mutate_packet (fi_cfg g) p] else [])"
      by (cases rule: push_cases [of g p]; auto)+
    with Cons.IH [of "snd (push g p)"] Cons.prems show ?case by (simp add: split_beta Let_def)
  qed
  have "fst (push_all (fi\<lparr>fi_cfg := (fi_cfg fi)\<lparr>enabled := False\<rparr>\<rparr>) ps) = ps"
    using gen [of "fi\<lparr>fi_cfg := (fi_cfg fi)\<lparr>enabled := False\<rparr>\<rparr>"] assms(2)
    by (simp add: should_drop_def should_drop_deterministic_def should_drop_burst_def mutate_disabled)
  with gen [of fi] assms show ?thesis by simp
qed

theorem injector_without_reorder_witness:
  "fst (push_all (FaultInjector_new (sample_fault 0)) [numbered_packet 0, numbered_packet 1]) =
      map (mutate_packet (fi_cfg (FaultInjector_new (sample_fault 0))))
        (filter (\<lambda>p. \<not> should_drop (fi_cfg (FaultInjector_new (sample_fault 0)))
            (seqno (sequence (mutate_packet (fi_cfg (FaultInjector_new (sample_fault 0))) p))))
          [numbered_packet 0, numbered_packet 1])
    \<and> held (snd (push_all (FaultInjector_new (sample_fault 0)) [numbered_packet 0, numbered_packet 1])) = None
    \<and> fst (push_all ((FaultInjector_new (sample_fault 0))\<lparr>fi_cfg :=
         (fi_cfg (FaultInjector_new (sample_fault 0)))\<lparr>enabled := False\<rparr>\<rparr>) [numbered_packet 0, numbered_packet 1])
      = [numbered_packet 0, numbered_packet 1]"
  by (rule injector_without_reorder) (simp_all add: FaultInjector_new_def sample_fault_simps)

end
