(* ===== verification/Cx5.thy ===== *)
theory Cx5
  imports Aether_Types Rust_Strings
begin

text \<open>
  The crate \<^verbatim>\<open>cx5-emulator\<close>: the \<^verbatim>\<open>PacketIO\<close> trait and its three in-process implementations,
  the plain queue, the ConnectX-5 style NIC with its DMA delay, and the DPDK-shaped mock with its
  mbuf pool.  Each implementation interprets the interface \<open>burst_queue\<close> of the prelude.
\<close>

section \<open>Definitions\<close>

record NicDmaConfig =
  nic_version :: string
  nic_id :: string
  nic_dma_latency_us :: f64
  rx_queue_depth :: usize
  tx_queue_depth :: usize
  completion_queue_depth :: usize

datatype Cx5Error =
    Cx5ConfigError string
  | QueueFull
  | BackendUnavailable string
  | MbufExhausted

definition NicDmaConfig_from_yaml_str ::
    "(string \<Rightarrow> string + NicDmaConfig) \<Rightarrow> string \<Rightarrow> Cx5Error + NicDmaConfig" where
  "NicDmaConfig_from_yaml_str yaml_parse s = map_err Cx5ConfigError (yaml_parse s)"

definition dma_latency_ns :: "NicDmaConfig \<Rightarrow> u64" where
  "dma_latency_ns cfg = f_to_u64 (f64_mul (nic_dma_latency_us cfg) (f64_lit 1000))"

subsection \<open>The plain queue\<close>

record SimPacketIO =
  sio_rx :: "Packet list"
  sio_tx :: "Packet list"

definition SimPacketIO_rx_burst :: "SimPacketIO \<Rightarrow> usize \<Rightarrow> Packet list \<times> SimPacketIO" where
  "SimPacketIO_rx_burst io m =
     (let n = min m (length (sio_rx io)); (out, rest) = drain_front n (sio_rx io)
      in (out, io\<lparr>sio_rx := rest\<rparr>))"

definition SimPacketIO_tx_burst :: "SimPacketIO \<Rightarrow> Packet list \<Rightarrow> usize \<times> SimPacketIO" where
  "SimPacketIO_tx_burst io packets = (length packets, io\<lparr>sio_tx := sio_tx io @ packets\<rparr>)"

subsection \<open>The NIC\<close>

record PendingRx =
  ready_at_ns :: u64
  pr_packet :: Packet

record Cx5Nic =
  nic_cfg :: NicDmaConfig
  nic_now_ns :: u64
  pending :: "PendingRx list"
  rx_ready :: "Packet list"
  nic_tx :: "Packet list"
  completions :: u64

definition Cx5Nic_new :: "NicDmaConfig \<Rightarrow> Cx5Nic" where
  "Cx5Nic_new cfg = \<lparr>nic_cfg = cfg, nic_now_ns = 0, pending = [], rx_ready = [], nic_tx = [], completions = 0\<rparr>"

definition Cx5Nic_from_yaml :: "(string \<Rightarrow> string + NicDmaConfig) \<Rightarrow> string \<Rightarrow> Cx5Error + Cx5Nic" where
  "Cx5Nic_from_yaml yaml_parse yaml =
     (case NicDmaConfig_from_yaml_str yaml_parse yaml of Inl e \<Rightarrow> Inl e | Inr cfg \<Rightarrow> Inr (Cx5Nic_new cfg))"

text \<open>The loop of \<^verbatim>\<open>poll_completions\<close>, with the NIC and \<^verbatim>\<open>still\<close> as its state.\<close>

fun poll_loop :: "u64 \<Rightarrow> PendingRx list \<Rightarrow> Cx5Nic \<times> PendingRx list \<Rightarrow> Cx5Nic \<times> PendingRx list" where
  "poll_loop now [] st = st"
| "poll_loop now (p # ps) (nic, still) =
     (if ready_at_ns p \<le> now
      then poll_loop now ps (nic\<lparr>rx_ready := rx_ready nic @ [pr_packet p], completions := completions nic + 1\<rparr>, still)
      else poll_loop now ps (nic, still @ [p]))"

definition poll_completions :: "Cx5Nic \<Rightarrow> Cx5Nic" where
  "poll_completions nic =
     (let (nic', still) = poll_loop (nic_now_ns nic) (pending nic) (nic\<lparr>pending := []\<rparr>, [])
      in nic'\<lparr>pending := still\<rparr>)"

definition advance_time :: "Cx5Nic \<Rightarrow> u64 \<Rightarrow> Cx5Nic" where
  "advance_time nic now = poll_completions (nic\<lparr>nic_now_ns := now\<rparr>)"

definition submit_rx_ready_at :: "Cx5Nic \<Rightarrow> Packet \<Rightarrow> u64 \<Rightarrow> (Cx5Error, unit, Cx5Nic) outcome" where
  "submit_rx_ready_at nic packet ready =
     (if rx_queue_depth (nic_cfg nic) \<le> length (pending nic) + length (rx_ready nic)
      then (Inl QueueFull, nic)
      else (Inr (), poll_completions
              (nic\<lparr>pending := pending nic @ [\<lparr>ready_at_ns = ready, pr_packet = packet\<rparr>]\<rparr>)))"

definition submit_rx :: "Cx5Nic \<Rightarrow> Packet \<Rightarrow> (Cx5Error, unit, Cx5Nic) outcome" where
  "submit_rx nic packet =
     submit_rx_ready_at nic packet (sat_add (nic_now_ns nic) (dma_latency_ns (nic_cfg nic)))"

definition Cx5Nic_rx_burst :: "Cx5Nic \<Rightarrow> usize \<Rightarrow> Packet list \<times> Cx5Nic" where
  "Cx5Nic_rx_burst nic m =
     (let nic = poll_completions nic;
          n = min m (length (rx_ready nic));
          (out, rest) = drain_front n (rx_ready nic)
      in (out, nic\<lparr>rx_ready := rest\<rparr>))"

definition Cx5Nic_tx_burst :: "Cx5Nic \<Rightarrow> Packet list \<Rightarrow> usize \<times> Cx5Nic" where
  "Cx5Nic_tx_burst nic packets =
     (let n = length packets in
      if tx_queue_depth (nic_cfg nic) < length (nic_tx nic) + n
      then let room = tx_queue_depth (nic_cfg nic) - length (nic_tx nic)
           in (room, nic\<lparr>nic_tx := nic_tx nic @ take room packets\<rparr>)
      else (n, nic\<lparr>nic_tx := nic_tx nic @ packets\<rparr>))"

subsection \<open>The DPDK-shaped mock\<close>

record DpdkBackendConfig =
  dpdk_version :: string
  dpdk_id :: string
  backend :: string
  dpdk_enabled :: bool
  pci_address :: string
  rx_queues :: usize
  tx_queues :: usize
  mbuf_pool_size :: usize
  burst_size :: usize
  poll_cost_ns :: u64
  hugepage_mb :: u64

text \<open>The document as it is parsed: the fields with a default may be missing.\<close>

record DpdkBackendDoc =
  dd_version :: string
  dd_id :: string
  dd_backend :: "string option"
  dd_enabled :: "bool option"
  dd_pci_address :: "string option"
  dd_rx_queues :: "usize option"
  dd_tx_queues :: "usize option"
  dd_mbuf_pool_size :: "usize option"
  dd_burst_size :: "usize option"
  dd_poll_cost_ns :: "u64 option"
  dd_hugepage_mb :: "u64 option"

definition default_dpdk_backend :: string where "default_dpdk_backend = ''mock''"

definition default_one :: usize where "default_one = 1"

definition default_mbuf_pool :: usize where "default_mbuf_pool = 1024"

definition default_burst :: usize where "default_burst = 32"

definition DpdkBackendConfig_of :: "DpdkBackendDoc \<Rightarrow> DpdkBackendConfig" where
  "DpdkBackendConfig_of d =
     \<lparr>dpdk_version = dd_version d, dpdk_id = dd_id d, backend = or_default (dd_backend d) default_dpdk_backend,
      dpdk_enabled = or_default (dd_enabled d) False, pci_address = or_default (dd_pci_address d) [],
      rx_queues = or_default (dd_rx_queues d) default_one, tx_queues = or_default (dd_tx_queues d) default_one,
      mbuf_pool_size = or_default (dd_mbuf_pool_size d) default_mbuf_pool, burst_size = or_default (dd_burst_size d) default_burst,
      poll_cost_ns = or_default (dd_poll_cost_ns d) 0, hugepage_mb = or_default (dd_hugepage_mb d) 0\<rparr>"

definition DpdkBackendConfig_from_yaml_str ::
    "(string \<Rightarrow> string + DpdkBackendDoc) \<Rightarrow> string \<Rightarrow> Cx5Error + DpdkBackendConfig" where
  "DpdkBackendConfig_from_yaml_str yaml_parse s = map_err Cx5ConfigError (map_sum id DpdkBackendConfig_of (yaml_parse s))"

record DpdkPacketIO =
  dp_cfg :: DpdkBackendConfig
  dp_rx :: "Packet list"
  dp_tx :: "Packet list"
  mbufs_in_use :: usize
  poll_cycles :: u64
  last_poll_cost_ns :: u64

definition open_config :: "DpdkBackendConfig \<Rightarrow> Cx5Error + DpdkPacketIO" where
  "open_config cfg =
     (let mode = to_ascii_lowercase (backend cfg) in
      if mode \<in> {''hardware'', ''libdpdk'', ''real''} \<or> \<not> dpdk_enabled cfg
      then Inl (BackendUnavailable (''DPDK backend='' @ mode @ '' enabled='' @ show_bool (dpdk_enabled cfg)
                  @ '' is not available in this build; use backend=mock''))
      else if mode \<notin> {''mock'', ''simulation'', ''sim''}
      then Inl (Cx5ConfigError (''unknown DPDK backend '' @ [CHR 0x27] @ mode @ [CHR 0x27]))
      else Inr \<lparr>dp_cfg = cfg, dp_rx = [], dp_tx = [], mbufs_in_use = 0, poll_cycles = 0, last_poll_cost_ns = 0\<rparr>)"

definition open_yaml :: "(string \<Rightarrow> string + DpdkBackendDoc) \<Rightarrow> string \<Rightarrow> Cx5Error + DpdkPacketIO" where
  "open_yaml yaml_parse yaml =
     (case DpdkBackendConfig_from_yaml_str yaml_parse yaml of Inl e \<Rightarrow> Inl e | Inr cfg \<Rightarrow> open_config cfg)"

definition try_open ::
    "(string \<Rightarrow> string + string) \<Rightarrow> (string \<Rightarrow> string + DpdkBackendDoc) \<Rightarrow> string \<Rightarrow> Cx5Error + DpdkPacketIO" where
  "try_open read_to_string yaml_parse path =
     (case map_err (\<lambda>e. Cx5ConfigError (''read '' @ path @ '': '' @ e)) (read_to_string path) of
        Inl e \<Rightarrow> Inl e | Inr yaml \<Rightarrow> open_yaml yaml_parse yaml)"

fun inject_rx :: "DpdkPacketIO \<Rightarrow> Packet list \<Rightarrow> (Cx5Error, unit, DpdkPacketIO) outcome" where
  "inject_rx io [] = (Inr (), io)"
| "inject_rx io (p # ps) =
     (if mbuf_pool_size (dp_cfg io) \<le> mbufs_in_use io then (Inl MbufExhausted, io)
      else inject_rx (io\<lparr>dp_rx := dp_rx io @ [p], mbufs_in_use := mbufs_in_use io + 1\<rparr>) ps)"

definition Dpdk_rx_burst :: "DpdkPacketIO \<Rightarrow> usize \<Rightarrow> Packet list \<times> DpdkPacketIO" where
  "Dpdk_rx_burst io m =
     (let io = io\<lparr>poll_cycles := poll_cycles io + 1, last_poll_cost_ns := poll_cost_ns (dp_cfg io)\<rparr>;
          n = min (min m (burst_size (dp_cfg io))) (length (dp_rx io));
          (out, rest) = drain_front n (dp_rx io)
      in (out, io\<lparr>dp_rx := rest, mbufs_in_use := mbufs_in_use io - length out\<rparr>))"

definition Dpdk_tx_burst :: "DpdkPacketIO \<Rightarrow> Packet list \<Rightarrow> usize \<times> DpdkPacketIO" where
  "Dpdk_tx_burst io packets =
     (let io = io\<lparr>poll_cycles := poll_cycles io + 1, last_poll_cost_ns := poll_cost_ns (dp_cfg io)\<rparr>;
          room = min (min (mbuf_pool_size (dp_cfg io) - mbufs_in_use io) (burst_size (dp_cfg io))) (length packets);
          taken = take room packets;
          n = length taken;
          io = io\<lparr>mbufs_in_use := mbufs_in_use io + n\<rparr>;
          io = io\<lparr>dp_tx := dp_tx io @ taken\<rparr>
      in (n, io\<lparr>mbufs_in_use := mbufs_in_use io - n\<rparr>))"

section \<open>Completion polling\<close>

lemma poll_loop_eq:
  "poll_loop now ps (nic, still) =
    (nic\<lparr>rx_ready := rx_ready nic @ map pr_packet (filter (\<lambda>p. ready_at_ns p \<le> now) ps),
         completions := completions nic + of_nat (length (filter (\<lambda>p. ready_at_ns p \<le> now) ps))\<rparr>,
     still @ filter (\<lambda>p. \<not> ready_at_ns p \<le> now) ps)"
  by (induction now ps "(nic, still)" arbitrary: nic still rule: poll_loop.induct) simp_all

lemma poll_completions_eq:
  "poll_completions nic =
     nic\<lparr>pending := filter (\<lambda>p. \<not> ready_at_ns p \<le> nic_now_ns nic) (pending nic),
         rx_ready := rx_ready nic @ map pr_packet (filter (\<lambda>p. ready_at_ns p \<le> nic_now_ns nic) (pending nic)),
         completions := completions nic
           + of_nat (length (filter (\<lambda>p. ready_at_ns p \<le> nic_now_ns nic) (pending nic)))\<rparr>"
  by (simp add: poll_completions_def poll_loop_eq)

text \<open>What is on its way to the host, in the order the host will see it if the clock is monotone.\<close>

definition in_flight :: "Cx5Nic \<Rightarrow> Packet list" where
  "in_flight nic = rx_ready nic @ map pr_packet (pending nic)"

definition nic_inv :: "Cx5Nic \<Rightarrow> bool" where
  "nic_inv nic \<longleftrightarrow>
     length (pending nic) + length (rx_ready nic) \<le> rx_queue_depth (nic_cfg nic)
     \<and> length (nic_tx nic) \<le> tx_queue_depth (nic_cfg nic)
     \<and> (\<forall>p\<in>set (pending nic). nic_now_ns nic < ready_at_ns p)"

lemma poll_static [simp]:
  "nic_cfg (poll_completions nic) = nic_cfg nic" "nic_now_ns (poll_completions nic) = nic_now_ns nic"
  "nic_tx (poll_completions nic) = nic_tx nic"
  by (simp_all add: poll_completions_eq)

lemma poll_occupancy [simp]:
  "length (pending (poll_completions nic)) + length (rx_ready (poll_completions nic))
     = length (pending nic) + length (rx_ready nic)"
  using sum_length_filter_compl [of "\<lambda>p. ready_at_ns p \<le> nic_now_ns nic" "pending nic"]
  by (simp add: poll_completions_eq)

lemma poll_pending_late: "\<forall>p\<in>set (pending (poll_completions nic)). nic_now_ns nic < ready_at_ns p"
  by (auto simp: poll_completions_eq)

lemma poll_idle:
  assumes "\<forall>p\<in>set (pending nic). nic_now_ns nic < ready_at_ns p"
  shows "poll_completions nic = nic"
proof -
  have "filter (\<lambda>p. ready_at_ns p \<le> nic_now_ns nic) (pending nic) = []"
    using assms by (auto simp: filter_empty_conv not_le)
  moreover have "filter (\<lambda>p. \<not> ready_at_ns p \<le> nic_now_ns nic) (pending nic) = pending nic"
    using assms by (auto simp: filter_id_conv not_le)
  ultimately show ?thesis by (simp only: poll_completions_eq) simp
qed

lemma poll_idle_inv: "nic_inv nic \<Longrightarrow> poll_completions nic = nic"
  by (simp add: nic_inv_def poll_idle)

section \<open>The NIC's invariant\<close>

inductive nic_step :: "Cx5Nic \<Rightarrow> Cx5Nic \<Rightarrow> bool" where
  nic_advance: "nic_step nic (advance_time nic t)"
| nic_submit: "nic_step nic (snd (submit_rx nic p))"
| nic_submit_at: "nic_step nic (snd (submit_rx_ready_at nic p r))"
| nic_rx: "nic_step nic (snd (Cx5Nic_rx_burst nic m))"
| nic_tx: "nic_step nic (snd (Cx5Nic_tx_burst nic ps))"

inductive nic_reachable :: "NicDmaConfig \<Rightarrow> Cx5Nic \<Rightarrow> bool" for cfg where
  nic_start: "nic_reachable cfg (Cx5Nic_new cfg)"
| nic_next: "nic_reachable cfg nic \<Longrightarrow> nic_step nic nic' \<Longrightarrow> nic_reachable cfg nic'"

lemma nic_inv_poll:
  assumes "length (pending nic) + length (rx_ready nic) \<le> rx_queue_depth (nic_cfg nic)"
    "length (nic_tx nic) \<le> tx_queue_depth (nic_cfg nic)"
  shows "nic_inv (poll_completions nic)"
  using assms poll_pending_late [of nic] by (simp add: nic_inv_def)

lemma nic_inv_submit:
  assumes "nic_inv nic"
  shows "nic_inv (snd (submit_rx_ready_at nic p r))"
proof (cases "rx_queue_depth (nic_cfg nic) \<le> length (pending nic) + length (rx_ready nic)")
  case True
  with assms show ?thesis by (simp add: submit_rx_ready_at_def)
next
  case False
  with assms have "nic_inv (poll_completions (nic\<lparr>pending := pending nic @ [\<lparr>ready_at_ns = r, pr_packet = p\<rparr>]\<rparr>))"
    by (intro nic_inv_poll) (simp_all add: nic_inv_def)
  with False show ?thesis by (simp add: submit_rx_ready_at_def)
qed

lemma nic_inv_advance: "nic_inv nic \<Longrightarrow> nic_inv (advance_time nic t)"
  unfolding advance_time_def by (intro nic_inv_poll) (simp_all add: nic_inv_def)

lemma nic_inv_rx: "nic_inv nic \<Longrightarrow> nic_inv (snd (Cx5Nic_rx_burst nic m))"
  by (simp add: Cx5Nic_rx_burst_def poll_idle_inv drain_front_def Let_def) (auto simp: nic_inv_def)

lemma nic_inv_tx: "nic_inv nic \<Longrightarrow> nic_inv (snd (Cx5Nic_tx_burst nic ps))"
  by (auto simp: Cx5Nic_tx_burst_def nic_inv_def Let_def)

lemma nic_inv_step: "nic_step nic nic' \<Longrightarrow> nic_inv nic \<Longrightarrow> nic_inv nic' \<and> nic_cfg nic' = nic_cfg nic"
proof (induction rule: nic_step.induct)
  case (nic_advance nic t)
  then show ?case using nic_inv_advance by (simp, simp add: advance_time_def)
next
  case (nic_submit nic p)
  then show ?case using nic_inv_submit by (simp add: submit_rx_def) (simp add: submit_rx_ready_at_def)
next
  case (nic_submit_at nic p r)
  then show ?case using nic_inv_submit by (simp, simp add: submit_rx_ready_at_def)
next
  case (nic_rx nic m)
  then show ?case using nic_inv_rx by (simp, simp add: Cx5Nic_rx_burst_def drain_front_def Let_def)
next
  case (nic_tx nic ps)
  then show ?case using nic_inv_tx by (simp, simp add: Cx5Nic_tx_burst_def Let_def)
qed

lemma nic_reachable_inv: "nic_reachable cfg nic \<Longrightarrow> nic_inv nic \<and> nic_cfg nic = cfg"
proof (induction rule: nic_reachable.induct)
  case nic_start
  then show ?case by (simp add: nic_inv_def Cx5Nic_new_def)
next
  case (nic_next nic nic')
  then show ?case using nic_inv_step by simp
qed

text \<open>
  The calls of a driver with any clock.  \<open>nic_do\<close> takes one call, and keeps what the bursts have returned so far;
  \<open>nic_at\<close> is the state after a sequence of calls, and \<open>due\<close> says which packet a call submits and when its DMA completes.
\<close>

datatype nic_op = SetClock u64 | SubmitRx Packet | SubmitRxAt Packet u64 | RxBurst usize | TxBurst "Packet list"

fun nic_do :: "Packet list \<times> Cx5Nic \<Rightarrow> nic_op \<Rightarrow> Packet list \<times> Cx5Nic" where
  "nic_do (seen, nic) (SetClock t) = (seen, advance_time nic t)"
| "nic_do (seen, nic) (SubmitRx p) = (seen, snd (submit_rx nic p))"
| "nic_do (seen, nic) (SubmitRxAt p r) = (seen, snd (submit_rx_ready_at nic p r))"
| "nic_do (seen, nic) (RxBurst m) = (case Cx5Nic_rx_burst nic m of (out, nic') \<Rightarrow> (seen @ out, nic'))"
| "nic_do (seen, nic) (TxBurst ps) = (seen, snd (Cx5Nic_tx_burst nic ps))"

definition nic_at :: "NicDmaConfig \<Rightarrow> nic_op list \<Rightarrow> Packet list \<times> Cx5Nic" where
  "nic_at cfg ops = foldl nic_do ([], Cx5Nic_new cfg) ops"

fun due :: "Cx5Nic \<Rightarrow> nic_op \<Rightarrow> (Packet \<times> u64) option" where
  "due nic (SubmitRx p) = Some (p, sat_add (nic_now_ns nic) (dma_latency_ns (nic_cfg nic)))"
| "due nic (SubmitRxAt p r) = Some (p, r)"
| "due nic _ = None"

text \<open>Call \<open>i\<close> submitted the packet \<open>p\<close> for time \<open>r\<close>, and by the end of \<open>ops\<close> the clock has once since been there.\<close>

definition submitted :: "NicDmaConfig \<Rightarrow> nic_op list \<Rightarrow> nat \<Rightarrow> Packet \<Rightarrow> u64 \<Rightarrow> bool" where
  "submitted cfg ops i p r \<longleftrightarrow> i < length ops \<and> due (snd (nic_at cfg (take i ops))) (ops ! i) = Some (p, r)"

definition completed :: "NicDmaConfig \<Rightarrow> nic_op list \<Rightarrow> Packet \<Rightarrow> bool" where
  "completed cfg ops p \<longleftrightarrow>
     (\<exists>i r j. submitted cfg ops i p r \<and> i < j \<and> j \<le> length ops \<and> r \<le> nic_now_ns (snd (nic_at cfg (take j ops))))"

lemma nic_at_snoc: "nic_at cfg (ops @ [op]) = nic_do (nic_at cfg ops) op"
  by (simp add: nic_at_def)

lemma nic_at_reachable: "nic_reachable cfg (snd (nic_at cfg ops))"
proof (induction ops rule: rev_induct)
  case Nil
  then show ?case by (simp add: nic_at_def nic_start)
next
  case (snoc op ops)
  obtain seen nic where st: "nic_at cfg ops = (seen, nic)" by fastforce
  have "nic_step nic (snd (nic_do (seen, nic) op))"
    by (cases op) (auto simp: split_beta intro: nic_step.intros)
  then show ?case using snoc st by (auto simp: nic_at_snoc intro: nic_next)
qed

lemma submitted_snoc: "submitted cfg ops i p r \<Longrightarrow> submitted cfg (ops @ [op]) i p r"
  by (auto simp: submitted_def nth_append)

lemma completed_snoc:
  assumes "completed cfg ops p"
  shows "completed cfg (ops @ [op]) p"
proof -
  obtain i r j where "submitted cfg ops i p r" "i < j" "j \<le> length ops" "r \<le> nic_now_ns (snd (nic_at cfg (take j ops)))"
    using assms by (auto simp: completed_def)
  then show ?thesis unfolding completed_def
    by (intro exI [of _ i] exI [of _ r] exI [of _ j]) (simp add: submitted_snoc)
qed

text \<open>What the host can see or has seen is completed, and what is pending is submitted for its time.\<close>

definition nic_times :: "NicDmaConfig \<Rightarrow> nic_op list \<Rightarrow> Packet list \<times> Cx5Nic \<Rightarrow> bool" where
  "nic_times cfg ops st \<longleftrightarrow>
     (\<forall>p\<in>set (fst st) \<union> set (rx_ready (snd st)). completed cfg ops p)
     \<and> (\<forall>x\<in>set (pending (snd st)). \<exists>i. submitted cfg ops i (pr_packet x) (ready_at_ns x))"

lemma nic_times_poll:
  assumes "nic_times cfg ops (seen, nic)" "ops \<noteq> []" "nic_now_ns (snd (nic_at cfg ops)) = nic_now_ns nic"
  shows "nic_times cfg ops (seen, poll_completions nic)"
proof -
  have "completed cfg ops (pr_packet x)" if x: "x \<in> set (pending nic)" "ready_at_ns x \<le> nic_now_ns nic" for x
  proof -
    obtain i where "submitted cfg ops i (pr_packet x) (ready_at_ns x)" using assms(1) x(1) by (auto simp: nic_times_def)
    then show ?thesis using x(2) assms(3) unfolding completed_def
      by (intro exI [of _ i] exI [of _ "ready_at_ns x"] exI [of _ "length ops"]) (simp add: submitted_def)
  qed
  then show ?thesis using assms(1) by (auto simp: nic_times_def poll_completions_eq)
qed

lemma nic_times_snoc: "nic_times cfg ops st \<Longrightarrow> nic_times cfg (ops @ [op]) st"
  unfolding nic_times_def using completed_snoc submitted_snoc by meson

lemma nic_times_submit:
  assumes "nic_times cfg ops (seen, nic)" "nic_at cfg ops = (seen, nic)" "due nic op = Some (p, r)"
    and op: "nic_do (seen, nic) op = (seen, snd (submit_rx_ready_at nic p r))"
  shows "nic_times cfg (ops @ [op]) (nic_do (seen, nic) op)"
proof (cases "rx_queue_depth (nic_cfg nic) \<le> length (pending nic) + length (rx_ready nic)")
  case True
  then show ?thesis using nic_times_snoc [OF assms(1)] op by (simp add: submit_rx_ready_at_def)
next
  case False
  let ?n = "nic\<lparr>pending := pending nic @ [\<lparr>ready_at_ns = r, pr_packet = p\<rparr>]\<rparr>"
  have "submitted cfg (ops @ [op]) (length ops) p r" using assms(2,3) by (simp add: submitted_def)
  then have "nic_times cfg (ops @ [op]) (seen, ?n)" using nic_times_snoc [OF assms(1), of op] by (auto simp: nic_times_def)
  moreover have step: "nic_do (seen, nic) op = (seen, poll_completions ?n)" using False op by (simp add: submit_rx_ready_at_def)
  then have "nic_now_ns (snd (nic_at cfg (ops @ [op]))) = nic_now_ns ?n" by (simp add: nic_at_snoc assms(2))
  ultimately show ?thesis unfolding step by (intro nic_times_poll) simp_all
qed

lemma nic_times_do:
  assumes "nic_times cfg ops (seen, nic)" "nic_at cfg ops = (seen, nic)"
  shows "nic_times cfg (ops @ [op]) (nic_do (seen, nic) op)"
proof (cases op)
  case (SetClock t)
  have "nic_times cfg (ops @ [op]) (seen, nic\<lparr>nic_now_ns := t\<rparr>)" using nic_times_snoc [OF assms(1)] by (simp add: nic_times_def)
  from nic_times_poll [OF this] show ?thesis using SetClock assms(2) by (simp add: nic_at_snoc advance_time_def)
next
  case (SubmitRx p)
  then show ?thesis by (intro nic_times_submit [OF assms]) (simp_all add: submit_rx_def)
next
  case (SubmitRxAt p r)
  then show ?thesis by (intro nic_times_submit [OF assms]) simp_all
next
  case (RxBurst m)
  have "nic_inv nic" using nic_reachable_inv [OF nic_at_reachable [of cfg ops]] assms(2) by simp
  then show ?thesis using nic_times_snoc [OF assms(1), of op] RxBurst
    by (auto simp: nic_times_def Cx5Nic_rx_burst_def poll_idle_inv drain_front_def Let_def dest!: in_set_takeD in_set_dropD)
next
  case (TxBurst ps)
  then show ?thesis using nic_times_snoc [OF assms(1), of op] by (simp add: nic_times_def Cx5Nic_tx_burst_def Let_def)
qed

lemma nic_times_at: "nic_times cfg ops (nic_at cfg ops)"
proof (induction ops rule: rev_induct)
  case Nil
  then show ?case by (simp add: nic_times_def nic_at_def Cx5Nic_new_def)
next
  case (snoc op ops)
  then show ?case using nic_times_do [of cfg ops "fst (nic_at cfg ops)" "snd (nic_at cfg ops)"] by (simp add: nic_at_snoc)
qed

text \<open>
  C36: the NIC's queues and its delay, for any sequence of clock changes (also backwards), submissions and bursts.  The
  receive and transmit queues stay within their configured depths; every packet that is still pending completes strictly
  after the present time; and the host never sees a packet before its completion time: each packet a burst has returned
  was submitted by an earlier call, and after that call the clock has reached the time its DMA completes, which is the
  time given or, for \<^verbatim>\<open>submit_rx\<close>, the time of the submission plus the DMA latency.
\<close>

theorem nic_queues_bounded:
  "(case nic_at cfg ops of (seen, nic) \<Rightarrow>
      length (pending nic) + length (rx_ready nic) \<le> rx_queue_depth cfg \<and> length (nic_tx nic) \<le> tx_queue_depth cfg
      \<and> (\<forall>x\<in>set (pending nic). nic_now_ns nic < ready_at_ns x)
      \<and> (\<forall>p\<in>set seen. \<exists>i r j. i < j \<and> j \<le> length ops \<and> due (snd (nic_at cfg (take i ops))) (ops ! i) = Some (p, r)
            \<and> r \<le> nic_now_ns (snd (nic_at cfg (take j ops)))))"
proof -
  obtain seen nic where st: "nic_at cfg ops = (seen, nic)" by fastforce
  have "nic_inv nic" "nic_cfg nic = cfg" using nic_reachable_inv [OF nic_at_reachable [of cfg ops]] st by simp_all
  moreover have "completed cfg ops p" if "p \<in> set seen" for p using nic_times_at [of cfg ops] st that by (simp add: nic_times_def)
  ultimately show ?thesis unfolding st prod.case nic_inv_def completed_def submitted_def by blast
qed

definition sample_nic_config :: NicDmaConfig where
  "sample_nic_config = \<lparr>nic_version = ''1.0.0'', nic_id = ''cx5-dma-model'', nic_dma_latency_us = Fin 2,
     rx_queue_depth = 8, tx_queue_depth = 8, completion_queue_depth = 8\<rparr>"

definition sample_nic :: Cx5Nic where
  "sample_nic = snd (submit_rx (advance_time (Cx5Nic_new sample_nic_config) 0)
     (Packet_new (StreamId 1) (Sequence 0) (Timestamp 0) [7]))"

lemma sample_nic_reachable: "nic_reachable sample_nic_config sample_nic"
  unfolding sample_nic_def
  by (intro nic_next [OF _ nic_submit] nic_next [OF _ nic_advance] nic_start)

lemma sample_dma_latency: "dma_latency_ns sample_nic_config = 2000"
  by (simp add: dma_latency_ns_def sample_nic_config_def)

text \<open>A packet submitted at time 0 and polled at time 2000, the DMA latency.\<close>

definition sample_nic_ops :: "nic_op list" where
  "sample_nic_ops = [SubmitRx (Packet_new (StreamId 1) (Sequence 0) (Timestamp 0) [7]), RxBurst 4, SetClock 2000, RxBurst 4]"

theorem nic_queues_bounded_witness:
  "(case nic_at sample_nic_config sample_nic_ops of (seen, nic) \<Rightarrow>
      length (pending nic) + length (rx_ready nic) \<le> rx_queue_depth sample_nic_config
      \<and> length (nic_tx nic) \<le> tx_queue_depth sample_nic_config
      \<and> list_all (\<lambda>x. nic_now_ns nic < ready_at_ns x) (pending nic)
      \<and> list_all (\<lambda>p. \<exists>i r j. i < j \<and> j \<le> length sample_nic_ops
            \<and> due (snd (nic_at sample_nic_config (take i sample_nic_ops))) (sample_nic_ops ! i) = Some (p, r)
            \<and> r \<le> nic_now_ns (snd (nic_at sample_nic_config (take j sample_nic_ops)))) seen)
   \<and> fst (nic_at sample_nic_config sample_nic_ops) = [Packet_new (StreamId 1) (Sequence 0) (Timestamp 0) [7]]
   \<and> fst (nic_at sample_nic_config (take 2 sample_nic_ops)) = []"
proof -
  let ?p = "Packet_new (StreamId 1) (Sequence 0) (Timestamp 0) [7]"
  have "fst (nic_at sample_nic_config sample_nic_ops) = [?p]" "fst (nic_at sample_nic_config (take 2 sample_nic_ops)) = []"
    using sample_dma_latency
    by (simp_all add: nic_at_def sample_nic_ops_def submit_rx_def submit_rx_ready_at_def Cx5Nic_new_def sat_add_def
        poll_completions_eq advance_time_def Cx5Nic_rx_burst_def drain_front_def Let_def)
      (simp_all add: sample_nic_config_def)
  then show ?thesis using nic_queues_bounded [of sample_nic_config sample_nic_ops] unfolding list_all_iff by blast
qed

section \<open>Order of delivery under a monotone clock\<close>

text \<open>
  Submissions made through \<^verbatim>\<open>submit_rx\<close> all wait the same DMA latency, so with a clock that never
  goes back the NIC behaves like a first-in first-out queue with the contents \<open>in_flight\<close>.
\<close>

definition nic_fifo :: "Cx5Nic \<Rightarrow> bool" where
  "nic_fifo nic \<longleftrightarrow>
     sorted (map ready_at_ns (pending nic))
     \<and> (\<forall>p\<in>set (pending nic). ready_at_ns p \<le> sat_add (nic_now_ns nic) (dma_latency_ns (nic_cfg nic)))"

lemma sorted_filter_le_append:
  fixes t :: "'b::linorder"
  assumes "sorted (map f xs)"
  shows "filter (\<lambda>x. f x \<le> t) xs @ filter (\<lambda>x. \<not> f x \<le> t) xs = xs"
  using assms
proof (induction xs)
  case (Cons x xs)
  show ?case
  proof (cases "f x \<le> t")
    case False
    with Cons.prems have "\<forall>y\<in>set xs. \<not> f y \<le> t" by auto
    with False show ?thesis by (auto simp: filter_empty_conv filter_id_conv)
  qed (use Cons in auto)
qed simp

lemma poll_in_flight: "nic_fifo nic \<Longrightarrow> in_flight (poll_completions nic) = in_flight nic"
  using sorted_filter_le_append [of ready_at_ns "pending nic" "nic_now_ns nic"]
  unfolding nic_fifo_def in_flight_def poll_completions_eq
  by (simp flip: map_append)

lemma poll_fifo: "nic_fifo nic \<Longrightarrow> nic_fifo (poll_completions nic)"
  by (auto simp: nic_fifo_def poll_completions_eq sorted_filter)

lemma advance_fifo:
  assumes "nic_fifo nic" "nic_now_ns nic \<le> t"
  shows "nic_fifo (advance_time nic t)" "in_flight (advance_time nic t) = in_flight nic"
proof -
  have "nic_fifo (nic\<lparr>nic_now_ns := t\<rparr>)"
    using assms sat_add_mono [OF assms(2) order_refl [of "dma_latency_ns (nic_cfg nic)"]]
    by (auto simp: nic_fifo_def intro: order_trans)
  then show "nic_fifo (advance_time nic t)" "in_flight (advance_time nic t) = in_flight nic"
    using poll_fifo poll_in_flight [of "nic\<lparr>nic_now_ns := t\<rparr>"] by (simp_all add: advance_time_def in_flight_def)
qed

lemma submit_fifo:
  assumes "nic_fifo nic" "submit_rx nic p = (Inr (), nic')"
  shows "nic_fifo nic'" "in_flight nic' = in_flight nic @ [p]"
proof -
  let ?r = "sat_add (nic_now_ns nic) (dma_latency_ns (nic_cfg nic))"
  let ?n = "nic\<lparr>pending := pending nic @ [\<lparr>ready_at_ns = ?r, pr_packet = p\<rparr>]\<rparr>"
  have n: "nic_fifo ?n" using assms(1) by (auto simp: nic_fifo_def sorted_append)
  have "nic' = poll_completions ?n"
    using assms(2) by (simp add: submit_rx_def submit_rx_ready_at_def split: if_splits)
  then show "nic_fifo nic'" "in_flight nic' = in_flight nic @ [p]"
    using poll_fifo [OF n] poll_in_flight [OF n] by (simp_all add: in_flight_def)
qed

lemma rx_fifo:
  assumes "nic_fifo nic"
  shows "nic_fifo (snd (Cx5Nic_rx_burst nic m))"
    "fst (Cx5Nic_rx_burst nic m) @ in_flight (snd (Cx5Nic_rx_burst nic m)) = in_flight nic"
proof -
  show "nic_fifo (snd (Cx5Nic_rx_burst nic m))"
    using poll_fifo [OF assms] by (simp add: Cx5Nic_rx_burst_def drain_front_def nic_fifo_def Let_def)
  have "fst (Cx5Nic_rx_burst nic m) @ in_flight (snd (Cx5Nic_rx_burst nic m)) = in_flight (poll_completions nic)"
    by (simp add: Cx5Nic_rx_burst_def drain_front_def in_flight_def Let_def flip: append_assoc)
  then show "fst (Cx5Nic_rx_burst nic m) @ in_flight (snd (Cx5Nic_rx_burst nic m)) = in_flight nic"
    by (simp add: poll_in_flight [OF assms])
qed

text \<open>The calls of a driver whose clock only moves forward, with what was accepted and delivered.\<close>

datatype nic_call = Advance u64 | Submit Packet | Burst usize

fun nic_run :: "Cx5Nic \<Rightarrow> nic_call list \<Rightarrow> Packet list \<times> Packet list \<times> Cx5Nic" where
  "nic_run nic [] = ([], [], nic)"
| "nic_run nic (Advance d # cs) = nic_run (advance_time nic (sat_add (nic_now_ns nic) d)) cs"
| "nic_run nic (Submit p # cs) =
     (case submit_rx nic p of
        (Inr _, nic') \<Rightarrow> (let (acc, del, n) = nic_run nic' cs in (p # acc, del, n))
      | (Inl _, nic') \<Rightarrow> nic_run nic' cs)"
| "nic_run nic (Burst m # cs) =
     (let (out, nic') = Cx5Nic_rx_burst nic m; (acc, del, n) = nic_run nic' cs in (acc, out @ del, n))"

lemma submit_error_same: "submit_rx nic p = (Inl e, nic') \<Longrightarrow> nic' = nic \<and> e = QueueFull"
  by (auto simp: submit_rx_def submit_rx_ready_at_def split: if_splits)

lemma nic_run_fifo:
  "nic_fifo nic \<Longrightarrow>
     (case nic_run nic cs of (acc, del, n) \<Rightarrow> in_flight nic @ acc = del @ in_flight n \<and> nic_fifo n)"
proof (induction nic cs rule: nic_run.induct)
  case (1 nic)
  then show ?case by simp
next
  case (2 nic d cs)
  then show ?case using advance_fifo [of nic "sat_add (nic_now_ns nic) d"] by simp
next
  case (3 nic p cs)
  show ?case
  proof (cases "submit_rx nic p")
    case (Pair r nic')
    show ?thesis
    proof (cases r)
      case (Inl e)
      with Pair have "nic' = nic" using submit_error_same by simp
      with 3 Pair Inl show ?thesis by simp
    next
      case (Inr u)
      then have s: "submit_rx nic p = (Inr (), nic')" using Pair by simp
      from submit_fifo [OF "3.prems" s] "3.IH" Pair Inr show ?thesis
        by (auto simp: split_beta Let_def)
    qed
  qed
next
  case (4 nic m cs)
  obtain out nic' where b: "Cx5Nic_rx_burst nic m = (out, nic')" by fastforce
  have "nic_fifo nic'" "out @ in_flight nic' = in_flight nic"
    using rx_fifo [OF "4.prems", of m] b by simp_all
  with "4.IH" b show ?case by (auto simp: split_beta Let_def) (metis append_assoc)
qed

text \<open>
  C9: the NIC refines a first-in first-out queue.  For a driver whose clock never goes back and that
  submits packets by \<^verbatim>\<open>submit_rx\<close>, the accepted packets are exactly the delivered ones followed by those still in flight, in order: the
  DMA delay neither loses, duplicates nor reorders a packet.
\<close>

theorem nic_refines_fifo:
  "(case nic_run (Cx5Nic_new cfg) cs of (accepted, delivered, nic) \<Rightarrow>
      accepted = delivered @ in_flight nic)"
proof -
  have "nic_fifo (Cx5Nic_new cfg)" "in_flight (Cx5Nic_new cfg) = []"
    by (simp_all add: nic_fifo_def in_flight_def Cx5Nic_new_def)
  with nic_run_fifo [of "Cx5Nic_new cfg" cs] show ?thesis by auto
qed

section \<open>Bursts\<close>

definition dpdk_inv :: "DpdkPacketIO \<Rightarrow> bool" where
  "dpdk_inv io \<longleftrightarrow> mbufs_in_use io = length (dp_rx io) \<and> length (dp_rx io) \<le> mbuf_pool_size (dp_cfg io)"

lemma take_min_length [simp]: "take (min m (length xs)) xs = take m xs"
  by (cases "m \<le> length xs") simp_all

lemma drop_min_length [simp]: "drop (min m (length xs)) xs = drop m xs"
  by (cases "m \<le> length xs") simp_all

interpretation sim_io: burst_queue SimPacketIO_rx_burst sio_rx "\<lambda>_ m. m" "\<lambda>_. True"
  by unfold_locales (simp_all add: SimPacketIO_rx_burst_def drain_front_def Let_def)

interpretation nic_io: burst_queue Cx5Nic_rx_burst rx_ready "\<lambda>_ m. m" nic_inv
proof unfold_locales
  fix s :: Cx5Nic and m :: nat
  assume "nic_inv s"
  then show "fst (Cx5Nic_rx_burst s m) = take m (rx_ready s)"
    "rx_ready (snd (Cx5Nic_rx_burst s m)) = drop m (rx_ready s)"
    "nic_inv (snd (Cx5Nic_rx_burst s m))"
    by (simp_all add: nic_inv_rx) (simp_all add: Cx5Nic_rx_burst_def poll_idle_inv drain_front_def Let_def)
qed simp_all

lemma dpdk_inv_rx: "dpdk_inv io \<Longrightarrow> dpdk_inv (snd (Dpdk_rx_burst io m))"
  by (auto simp: Dpdk_rx_burst_def drain_front_def Let_def dpdk_inv_def)

interpretation dpdk_io: burst_queue Dpdk_rx_burst dp_rx "\<lambda>io m. min m (burst_size (dp_cfg io))" dpdk_inv
proof unfold_locales
  fix s :: DpdkPacketIO and m :: nat
  assume "dpdk_inv s"
  then show "dpdk_inv (snd (Dpdk_rx_burst s m))" by (rule dpdk_inv_rx)
qed (simp_all add: Dpdk_rx_burst_def drain_front_def Let_def)

text \<open>
  The burst contract, for the three in-process back ends.  Any number \<open>k\<close> of bursts of at most
  \<open>m\<close> packets delivers, in order and without loss, a prefix of what the host can see, and no single
  burst exceeds its bound; the DPDK mock additionally never exceeds its configured burst size.
\<close>

theorem bursts_deliver_prefix:
  assumes "nic_inv nic" "dpdk_inv io"
  shows "fst (sim_io.bursts k m s) = take (k * m) (sio_rx s)
    \<and> fst (nic_io.bursts k m nic) = take (k * m) (rx_ready nic)
    \<and> fst (dpdk_io.bursts k m io) = take (k * min m (burst_size (dp_cfg io))) (dp_rx io)
    \<and> length (fst (Cx5Nic_rx_burst nic m)) \<le> m
    \<and> length (fst (Dpdk_rx_burst io m)) \<le> min m (burst_size (dp_cfg io))"
proof -
  have "length (fst (Dpdk_rx_burst io m)) \<le> min m (burst_size (dp_cfg io))"
    by (simp add: Dpdk_rx_burst_def drain_front_def Let_def min_le_iff_disj)
  then show ?thesis
    using sim_io.bursts_spec [where s = s and k = k and m = m] nic_io.bursts_spec [OF assms(1), of k m]
      dpdk_io.bursts_spec [OF assms(2), of k m] nic_io.burst_length [OF assms(1), of m] by simp
qed

section \<open>The DPDK mock\<close>

lemma open_config_cases:
  "open_config cfg = Inr io \<longleftrightarrow>
     dpdk_enabled cfg \<and> to_ascii_lowercase (backend cfg) \<in> {''mock'', ''simulation'', ''sim''}
     \<and> io = \<lparr>dp_cfg = cfg, dp_rx = [], dp_tx = [], mbufs_in_use = 0, poll_cycles = 0, last_poll_cost_ns = 0\<rparr>"
  by (auto simp: open_config_def Let_def)

lemma open_config_inv: "open_config cfg = Inr io \<Longrightarrow> dpdk_inv io \<and> dp_cfg io = cfg"
  by (auto simp: open_config_cases dpdk_inv_def)

text \<open>
  A document that leaves \<^verbatim>\<open>enabled\<close> out is refused, also with the default back end, and the message asks for
  the back end that was chosen.
\<close>

lemma dpdk_enabled_required:
  "dd_enabled d = None \<Longrightarrow> \<exists>msg. open_config (DpdkBackendConfig_of d) = Inl (BackendUnavailable msg)"
  by (simp add: open_config_def DpdkBackendConfig_of_def Let_def)

text \<open>
  Opening the DPDK back end.  It succeeds exactly for an enabled configuration that names one
  of the in-process back ends, in any letter case; a hardware name or a disabled configuration is
  reported as unavailable and any other name as a configuration error.  Nothing is open to real
  hardware, whichever way the configuration is read.
\<close>

theorem dpdk_open_verdict:
  "((\<exists>io. open_config cfg = Inr io) \<longleftrightarrow>
      dpdk_enabled cfg \<and> to_ascii_lowercase (backend cfg) \<in> {''mock'', ''simulation'', ''sim''})
   \<and> ((\<exists>s. open_config cfg = Inl (BackendUnavailable s)) \<longleftrightarrow>
      \<not> (dpdk_enabled cfg \<and> to_ascii_lowercase (backend cfg) \<notin> {''hardware'', ''libdpdk'', ''real''}))
   \<and> ((\<exists>s. open_config cfg = Inl (Cx5ConfigError s)) \<longleftrightarrow>
      dpdk_enabled cfg \<and> to_ascii_lowercase (backend cfg) \<notin>
        {''mock'', ''simulation'', ''sim'', ''hardware'', ''libdpdk'', ''real''})
   \<and> open_config (cfg\<lparr>backend := to_ascii_lowercase (backend cfg)\<rparr>) =
       map_sum id (\<lambda>io. io\<lparr>dp_cfg := cfg\<lparr>backend := to_ascii_lowercase (backend cfg)\<rparr>\<rparr>) (open_config cfg)"
proof (intro conjI)
  show "open_config (cfg\<lparr>backend := to_ascii_lowercase (backend cfg)\<rparr>) =
       map_sum id (\<lambda>io. io\<lparr>dp_cfg := cfg\<lparr>backend := to_ascii_lowercase (backend cfg)\<rparr>\<rparr>) (open_config cfg)"
    by (simp add: open_config_def Let_def)
qed (auto simp: open_config_def Let_def)

lemma inject_rx_spec:
  assumes "dpdk_inv io"
  defines "room \<equiv> mbuf_pool_size (dp_cfg io) - mbufs_in_use io"
  shows "inject_rx io ps =
    (if length ps \<le> room then Inr () else Inl MbufExhausted,
     io\<lparr>dp_rx := dp_rx io @ take room ps, mbufs_in_use := mbufs_in_use io + min room (length ps)\<rparr>)"
  using assms(1) unfolding room_def
proof (induction io ps rule: inject_rx.induct)
  case (1 io)
  then show ?case by simp
next
  case (2 io p ps)
  show ?case
  proof (cases "mbuf_pool_size (dp_cfg io) \<le> mbufs_in_use io")
    case False
    let ?io = "io\<lparr>dp_rx := dp_rx io @ [p], mbufs_in_use := mbufs_in_use io + 1\<rparr>"
    have "dpdk_inv ?io" using "2.prems" False by (simp add: dpdk_inv_def)
    moreover obtain r where "mbuf_pool_size (dp_cfg io) - mbufs_in_use io = Suc r"
      "mbuf_pool_size (dp_cfg io) - Suc (mbufs_in_use io) = r"
      using False by (metis Suc_diff_Suc not_le)
    ultimately show ?thesis using "2.IH" False by simp
  qed simp
qed

lemma dpdk_inv_inject: "dpdk_inv io \<Longrightarrow> dpdk_inv (snd (inject_rx io ps))"
  by (simp add: inject_rx_spec) (auto simp: dpdk_inv_def)

lemma dpdk_inv_tx: "dpdk_inv io \<Longrightarrow> dpdk_inv (snd (Dpdk_tx_burst io ps))"
  by (simp add: Dpdk_tx_burst_def dpdk_inv_def Let_def)

inductive dpdk_step :: "DpdkPacketIO \<Rightarrow> DpdkPacketIO \<Rightarrow> bool" where
  dpdk_inject: "dpdk_step io (snd (inject_rx io ps))"
| dpdk_rx: "dpdk_step io (snd (Dpdk_rx_burst io m))"
| dpdk_tx: "dpdk_step io (snd (Dpdk_tx_burst io ps))"

inductive dpdk_reachable :: "DpdkBackendConfig \<Rightarrow> DpdkPacketIO \<Rightarrow> bool" for cfg where
  dpdk_open: "open_config cfg = Inr io \<Longrightarrow> dpdk_reachable cfg io"
| dpdk_next: "dpdk_reachable cfg io \<Longrightarrow> dpdk_step io io' \<Longrightarrow> dpdk_reachable cfg io'"

lemma inject_rx_cfg: "dp_cfg (snd (inject_rx io ps)) = dp_cfg io"
  by (induction io ps rule: inject_rx.induct) simp_all

lemma dpdk_step_inv: "dpdk_step io io' \<Longrightarrow> dpdk_inv io \<Longrightarrow> dpdk_inv io' \<and> dp_cfg io' = dp_cfg io"
proof (induction rule: dpdk_step.induct)
  case (dpdk_inject io ps)
  then show ?case by (simp add: dpdk_inv_inject inject_rx_cfg)
next
  case (dpdk_rx io m)
  then show ?case using dpdk_inv_rx [of io m] by (simp, simp add: Dpdk_rx_burst_def drain_front_def Let_def)
next
  case (dpdk_tx io ps)
  then show ?case using dpdk_inv_tx [of io ps] by (simp, simp add: Dpdk_tx_burst_def Let_def)
qed

lemma dpdk_reachable_inv: "dpdk_reachable cfg io \<Longrightarrow> dpdk_inv io \<and> dp_cfg io = cfg"
  by (induction rule: dpdk_reachable.induct) (auto dest: open_config_inv dpdk_step_inv)

text \<open>
  C38: mbuf accounting.  In every reachable state of an opened back end the buffers in use are
  exactly the packets waiting for the host and never exceed the pool; injecting a batch stores the
  longest prefix that fits and reports exhaustion exactly when something is left over; a transmit
  takes as many packets as the free buffers and the burst size allow and returns its buffers.
\<close>

theorem mbuf_accounting:
  assumes "dpdk_reachable cfg io"
  shows "mbufs_in_use io = length (dp_rx io) \<and> mbufs_in_use io \<le> mbuf_pool_size cfg
    \<and> dp_rx (snd (inject_rx io ps)) = dp_rx io @ take (mbuf_pool_size cfg - mbufs_in_use io) ps
    \<and> (fst (inject_rx io ps) = Inl MbufExhausted \<longleftrightarrow> mbuf_pool_size cfg < mbufs_in_use io + length ps)
    \<and> dp_tx (snd (Dpdk_tx_burst io ps)) = dp_tx io @ take (fst (Dpdk_tx_burst io ps)) ps
    \<and> fst (Dpdk_tx_burst io ps) =
        min (min (mbuf_pool_size cfg - mbufs_in_use io) (burst_size cfg)) (length ps)
    \<and> mbufs_in_use (snd (Dpdk_tx_burst io ps)) = mbufs_in_use io"
proof -
  from dpdk_reachable_inv [OF assms] have inv: "dpdk_inv io" and cfg: "dp_cfg io = cfg" by simp_all
  have "mbufs_in_use io \<le> mbuf_pool_size cfg" using inv cfg by (simp add: dpdk_inv_def)
  then show ?thesis using inv cfg
    by (simp add: inject_rx_spec [OF inv] Dpdk_tx_burst_def Let_def min.commute min.left_commute)
      (auto simp: dpdk_inv_def)
qed

definition sample_dpdk_config :: DpdkBackendConfig where
  "sample_dpdk_config = \<lparr>dpdk_version = ''1.0.0'', dpdk_id = ''dpdk-mock'', backend = ''Mock'', dpdk_enabled = True,
     pci_address = [], rx_queues = 1, tx_queues = 1, mbuf_pool_size = 4, burst_size = 2, poll_cost_ns = 10,
     hugepage_mb = 0\<rparr>"

definition sample_dpdk :: DpdkPacketIO where
  "sample_dpdk = snd (inject_rx \<lparr>dp_cfg = sample_dpdk_config, dp_rx = [], dp_tx = [], mbufs_in_use = 0,
     poll_cycles = 0, last_poll_cost_ns = 0\<rparr> [Packet_new (StreamId 1) (Sequence 0) (Timestamp 0) [0]])"

lemma sample_backend_name: "to_ascii_lowercase ''Mock'' = ''mock''"
  by code_simp

lemma sample_dpdk_reachable: "dpdk_reachable sample_dpdk_config sample_dpdk"
  unfolding sample_dpdk_def
  by (intro dpdk_next [OF _ dpdk_inject] dpdk_open)
    (simp add: open_config_cases, simp add: sample_dpdk_config_def sample_backend_name)

theorem mbuf_accounting_witness:
  "mbufs_in_use sample_dpdk = length (dp_rx sample_dpdk)
    \<and> mbufs_in_use sample_dpdk \<le> mbuf_pool_size sample_dpdk_config
    \<and> dp_rx (snd (inject_rx sample_dpdk [])) =
        dp_rx sample_dpdk @ take (mbuf_pool_size sample_dpdk_config - mbufs_in_use sample_dpdk) []
    \<and> (fst (inject_rx sample_dpdk []) = Inl MbufExhausted \<longleftrightarrow>
         mbuf_pool_size sample_dpdk_config < mbufs_in_use sample_dpdk + length ([] :: Packet list))
    \<and> dp_tx (snd (Dpdk_tx_burst sample_dpdk [])) = dp_tx sample_dpdk @ take (fst (Dpdk_tx_burst sample_dpdk [])) []
    \<and> fst (Dpdk_tx_burst sample_dpdk []) =
        min (min (mbuf_pool_size sample_dpdk_config - mbufs_in_use sample_dpdk) (burst_size sample_dpdk_config))
          (length ([] :: Packet list))
    \<and> mbufs_in_use (snd (Dpdk_tx_burst sample_dpdk [])) = mbufs_in_use sample_dpdk"
  by (rule mbuf_accounting) (rule sample_dpdk_reachable)

theorem bursts_deliver_prefix_witness:
  "fst (sim_io.bursts 2 1 \<lparr>sio_rx = [], sio_tx = []\<rparr>) = take (2 * 1) (sio_rx \<lparr>sio_rx = [], sio_tx = []\<rparr>)
    \<and> fst (nic_io.bursts 2 1 sample_nic) = take (2 * 1) (rx_ready sample_nic)
    \<and> fst (dpdk_io.bursts 2 1 sample_dpdk) = take (2 * min 1 (burst_size (dp_cfg sample_dpdk))) (dp_rx sample_dpdk)
    \<and> length (fst (Cx5Nic_rx_burst sample_nic 1)) \<le> 1
    \<and> length (fst (Dpdk_rx_burst sample_dpdk 1)) \<le> min 1 (burst_size (dp_cfg sample_dpdk))"
  by (rule bursts_deliver_prefix)
    (simp_all add: nic_reachable_inv [OF sample_nic_reachable] dpdk_reachable_inv [OF sample_dpdk_reachable])

end
