(* ===== verification/Fpga.thy ===== *)
theory Fpga
  imports Aether_Types
begin

text \<open>
  The crate \<^verbatim>\<open>fpga-emulator\<close>: radio time, sequence numbers, IQ generation and packetization.
  The cosine and sine of \<^verbatim>\<open>f32\<close> belong to the platform's mathematics library and are the
  parameters \<open>cos32\<close> and \<open>sin32\<close> of the IQ sources.
\<close>

section \<open>Definitions\<close>

record RadioTimingConfig =
  rtc_version :: string
  rtc_id :: string
  slots_per_sfn :: u16
  symbols_per_slot :: u8
  symbol_duration_ns :: u64
  samples_per_symbol :: usize
  max_antennas :: u16
  max_carriers :: u16

datatype FpgaError = FpgaConfigError string

definition RadioTimingConfig_from_yaml_str ::
    "(string \<Rightarrow> string + RadioTimingConfig) \<Rightarrow> string \<Rightarrow> FpgaError + RadioTimingConfig" where
  "RadioTimingConfig_from_yaml_str yaml_parse s = map_err FpgaConfigError (yaml_parse s)"

record TimestampGenerator =
  tg_timing :: RadioTimingConfig
  tg_sfn :: u32
  tg_slot :: u16
  tg_symbol :: u8
  tg_ns :: u64

definition TimestampGenerator_new :: "RadioTimingConfig \<Rightarrow> TimestampGenerator" where
  "TimestampGenerator_new timing =
     \<lparr>tg_timing = timing, tg_sfn = 0, tg_slot = 0, tg_symbol = 0, tg_ns = 0\<rparr>"

definition tg_current :: "TimestampGenerator \<Rightarrow> RadioTimestamp" where
  "tg_current g = RadioTimestamp_new (tg_sfn g) (tg_slot g) (tg_symbol g) (tg_ns g)"

definition tick_symbol :: "TimestampGenerator \<Rightarrow> RadioTimestamp \<times> TimestampGenerator" where
  "tick_symbol g =
     (let ts = tg_current g;
          g = g\<lparr>tg_ns := sat_add (tg_ns g) (symbol_duration_ns (tg_timing g))\<rparr>;
          g = g\<lparr>tg_symbol := sat_add (tg_symbol g) 1\<rparr>
      in if symbols_per_slot (tg_timing g) \<le> tg_symbol g
         then let g = g\<lparr>tg_symbol := 0, tg_slot := sat_add (tg_slot g) 1\<rparr>
              in if slots_per_sfn (tg_timing g) \<le> tg_slot g
                 then (ts, g\<lparr>tg_slot := 0, tg_sfn := tg_sfn g + 1\<rparr>)
                 else (ts, g)
         else (ts, g))"

definition tg_reset :: "TimestampGenerator \<Rightarrow> TimestampGenerator" where
  "tg_reset g = g\<lparr>tg_sfn := 0, tg_slot := 0, tg_symbol := 0, tg_ns := 0\<rparr>"

record SequenceGenerator =
  sg_next :: u64

definition SequenceGenerator_new :: SequenceGenerator where
  "SequenceGenerator_new = \<lparr>sg_next = 0\<rparr>"

definition sg_next_sequence :: "SequenceGenerator \<Rightarrow> Sequence \<times> SequenceGenerator" where
  "sg_next_sequence g = (Sequence (sg_next g), g\<lparr>sg_next := sg_next g + 1\<rparr>)"

record SimpleSlotScheduler =
  timestamps :: TimestampGenerator

definition SimpleSlotScheduler_new :: "RadioTimingConfig \<Rightarrow> SimpleSlotScheduler" where
  "SimpleSlotScheduler_new timing = \<lparr>timestamps = TimestampGenerator_new timing\<rparr>"

definition next_symbol :: "SimpleSlotScheduler \<Rightarrow> RadioTimestamp \<times> SimpleSlotScheduler" where
  "next_symbol s = (let (ts, g) = tick_symbol (timestamps s) in (ts, s\<lparr>timestamps := g\<rparr>))"

definition scheduler_current :: "SimpleSlotScheduler \<Rightarrow> RadioTimestamp" where
  "scheduler_current s = tg_current (timestamps s)"

definition scheduler_reset :: "SimpleSlotScheduler \<Rightarrow> SimpleSlotScheduler" where
  "scheduler_reset s = s\<lparr>timestamps := tg_reset (timestamps s)\<rparr>"

subsection \<open>IQ sources\<close>

abbreviation f32_mul :: "f32 \<Rightarrow> f32 \<Rightarrow> f32" where
  "f32_mul \<equiv> f_mul f32_format"

abbreviation f32_add :: "f32 \<Rightarrow> f32 \<Rightarrow> f32" where
  "f32_add \<equiv> f_add f32_format"

abbreviation f32_of_nat :: "nat \<Rightarrow> f32" where
  "f32_of_nat \<equiv> f_of_nat f32_format"

definition MockIQ_phase :: "RadioTimestamp \<Rightarrow> nat \<Rightarrow> f32" where
  "MockIQ_phase ts i =
     f32_add (f32_mul (f32_of_nat (unat (rt_ns ts))) (f32_lit (1 / 1000000000)))
       (f32_mul (f32_of_nat i) (f32_lit (1 / 100)))"

definition MockIQ_generate :: "(f32 \<Rightarrow> f32) \<Rightarrow> (f32 \<Rightarrow> f32) \<Rightarrow> usize \<Rightarrow> RadioTimestamp \<Rightarrow> IQSample list" where
  "MockIQ_generate cos32 sin32 samples ts =
     map (\<lambda>i. let phase = MockIQ_phase ts i in IQSample_new (cos32 phase) (sin32 phase)) [0..<samples]"

record MultiCarrierIQSource =
  mc_samples_per_symbol :: usize
  mc_carriers :: u16
  mc_amplitude :: f32

definition MultiCarrierIQSource_new :: "usize \<Rightarrow> u16 \<Rightarrow> MultiCarrierIQSource" where
  "MultiCarrierIQSource_new samples carriers =
     \<lparr>mc_samples_per_symbol = samples, mc_carriers = max carriers 1,
      mc_amplitude = f_div f32_format (f32_lit 1) (f32_of_nat (unat (max carriers 1)))\<rparr>"

definition MultiCarrier_sample ::
    "(f32 \<Rightarrow> f32) \<Rightarrow> (f32 \<Rightarrow> f32) \<Rightarrow> MultiCarrierIQSource \<Rightarrow> RadioTimestamp \<Rightarrow> nat \<Rightarrow> IQSample" where
  "MultiCarrier_sample cos32 sin32 src ts i =
     (let (re, im) = fold
        (\<lambda>c (re, im).
           let phase = f32_add (MockIQ_phase ts i) (f32_mul (f32_of_nat c) (f32_lit (17 / 100)))
           in (f32_add re (f32_mul (mc_amplitude src) (cos32 phase)),
               f32_add im (f32_mul (mc_amplitude src) (sin32 phase))))
        [0..<unat (mc_carriers src)] (f32_lit 0, f32_lit 0)
      in IQSample_new re im)"

definition MultiCarrier_generate ::
    "(f32 \<Rightarrow> f32) \<Rightarrow> (f32 \<Rightarrow> f32) \<Rightarrow> MultiCarrierIQSource \<Rightarrow> RadioTimestamp \<Rightarrow> IQSample list" where
  "MultiCarrier_generate cos32 sin32 src ts =
     map (MultiCarrier_sample cos32 sin32 src ts) [0..<mc_samples_per_symbol src]"

subsection \<open>Packetizer and emulator\<close>

definition f32_to_le_bytes :: "f32 \<Rightarrow> u8 list" where
  "f32_to_le_bytes x = u32_to_le_bytes (f32_to_bits x)"

record SimplePacketizer =
  pktz_sequence :: SequenceGenerator

fun iq_payload :: "IQSample list \<Rightarrow> u8 list \<Rightarrow> u8 list" where
  "iq_payload [] acc = acc"
| "iq_payload (s # ss) acc =
     iq_payload ss ((acc @ f32_to_le_bytes (iq_i s)) @ f32_to_le_bytes (iq_q s))"

definition packetize ::
    "SimplePacketizer \<Rightarrow> StreamId \<Rightarrow> RadioTimestamp \<Rightarrow> IQSample list \<Rightarrow> Packet \<times> SimplePacketizer" where
  "packetize z i ts samples =
     (let bytes = iq_payload samples [];
          (s, g) = sg_next_sequence (pktz_sequence z)
      in (Packet_new i s (Timestamp (rt_ns ts)) bytes, z\<lparr>pktz_sequence := g\<rparr>))"

record FpgaEmulator =
  fe_scheduler :: SimpleSlotScheduler
  fe_samples_per_symbol :: usize
  fe_packetizer :: SimplePacketizer
  fe_stream_id :: StreamId

definition FpgaEmulator_new :: "RadioTimingConfig \<Rightarrow> StreamId \<Rightarrow> FpgaEmulator" where
  "FpgaEmulator_new timing i =
     \<lparr>fe_scheduler = SimpleSlotScheduler_new timing, fe_samples_per_symbol = samples_per_symbol timing,
      fe_packetizer = \<lparr>pktz_sequence = SequenceGenerator_new\<rparr>, fe_stream_id = i\<rparr>"

definition emit_symbol :: "(f32 \<Rightarrow> f32) \<Rightarrow> (f32 \<Rightarrow> f32) \<Rightarrow> FpgaEmulator \<Rightarrow> Packet \<times> FpgaEmulator" where
  "emit_symbol cos32 sin32 f =
     (let (ts, sched) = next_symbol (fe_scheduler f);
          samples = MockIQ_generate cos32 sin32 (fe_samples_per_symbol f) ts;
          (p, z) = packetize (fe_packetizer f) (fe_stream_id f) ts samples
      in (p, f\<lparr>fe_scheduler := sched, fe_packetizer := z\<rparr>))"

text \<open>A run of the emulator: the packets of \<open>n\<close> consecutive symbols.\<close>

fun emit_symbols :: "(f32 \<Rightarrow> f32) \<Rightarrow> (f32 \<Rightarrow> f32) \<Rightarrow> nat \<Rightarrow> FpgaEmulator \<Rightarrow> Packet list \<times> FpgaEmulator" where
  "emit_symbols cos32 sin32 0 f = ([], f)"
| "emit_symbols cos32 sin32 (Suc n) f =
     (let (p, f') = emit_symbol cos32 sin32 f; (ps, f'') = emit_symbols cos32 sin32 n f' in (p # ps, f''))"

section \<open>Radio time\<close>

text \<open>
  The state of the generator after \<open>n\<close> symbols, computed with plain arithmetic.  A configured count
  of zero acts like one.
\<close>

definition tg_spec :: "RadioTimingConfig \<Rightarrow> nat \<Rightarrow> TimestampGenerator" where
  "tg_spec timing n =
     (let S = max 1 (unat (symbols_per_slot timing)); L = max 1 (unat (slots_per_sfn timing)) in
      \<lparr>tg_timing = timing,
       tg_sfn = word_of_nat (n div (S * L)),
       tg_slot = word_of_nat (n div S mod L),
       tg_symbol = word_of_nat (n mod S),
       tg_ns = word_of_nat (min (n * unat (symbol_duration_ns timing)) (2 ^ 64 - 1))\<rparr>)"

lemma sat_add_of_nat:
  fixes d :: u64
  shows "sat_add (word_of_nat (min a (2 ^ 64 - 1))) d = word_of_nat (min (a + unat d) (2 ^ 64 - 1))"
proof -
  have "unat (word_of_nat (min a (2 ^ 64 - 1)) :: u64) = min a (2 ^ 64 - 1)"
    by (simp add: unat_of_nat)
  then have "unat (sat_add (word_of_nat (min a (2 ^ 64 - 1))) d) = min (a + unat d) (2 ^ 64 - 1)"
    by (simp add: unat_sat_add)
  moreover have "unat (word_of_nat (min (a + unat d) (2 ^ 64 - 1)) :: u64) = min (a + unat d) (2 ^ 64 - 1)"
    by (simp add: unat_of_nat)
  ultimately show ?thesis by (simp only: word_unat_eq_iff)
qed

text \<open>A bounded counter that is incremented with saturation and compared with its bound.\<close>

lemma sat_inc_bound:
  fixes b :: "'a::len word"
  assumes "k < max 1 (unat b)"
  shows "sat_add (word_of_nat k) 1 = (word_of_nat (Suc k) :: 'a word)"
    and "b \<le> sat_add (word_of_nat k) 1 \<longleftrightarrow> Suc k = max 1 (unat b)"
proof -
  have b: "unat b < 2 ^ LENGTH('a)" by (rule unsigned_less)
  have two: "(2::nat) \<le> 2 ^ LENGTH('a)" by (rule self_le_power) simp_all
  have k: "k < 2 ^ LENGTH('a) - 1"
  proof (cases "unat b \<le> 1")
    case True
    with assms two show ?thesis by linarith
  next
    case False
    with assms b show ?thesis by linarith
  qed
  have u: "unat (word_of_nat k :: 'a word) = k" using k by (simp add: unat_of_nat)
  have u1: "unat (sat_add (word_of_nat k) (1 :: 'a word)) = Suc k"
    using k by (simp add: unat_sat_add u)
  moreover have "unat (word_of_nat (Suc k) :: 'a word) = Suc k" using k by (simp add: unat_of_nat del: of_nat_Suc)
  ultimately show "sat_add (word_of_nat k) 1 = (word_of_nat (Suc k) :: 'a word)" by (simp only: word_unat_eq_iff)
  show "b \<le> sat_add (word_of_nat k) 1 \<longleftrightarrow> Suc k = max 1 (unat b)"
    unfolding word_le_nat_alt u1 using assms by auto
qed

lemma tick_symbol_spec: "tick_symbol (tg_spec timing n) = (tg_current (tg_spec timing n), tg_spec timing (Suc n))"
proof -
  define S where "S = max 1 (unat (symbols_per_slot timing))"
  define L where "L = max 1 (unat (slots_per_sfn timing))"
  have pos: "0 < S" "0 < L" by (simp_all add: S_def L_def)
  have sym: "n mod S < max 1 (unat (symbols_per_slot timing))"
    and slot: "n div S mod L < max 1 (unat (slots_per_sfn timing))"
    using pos unfolding S_def [symmetric] L_def [symmetric] by simp_all
  define N where "N k = (word_of_nat (min (k * unat (symbol_duration_ns timing)) (2 ^ 64 - 1)) :: u64)" for k
  have ns: "sat_add (N n) (symbol_duration_ns timing) = N (Suc n)"
    unfolding N_def sat_add_of_nat by (simp only: mult_Suc add.commute)
  have spec: "tg_spec timing m = \<lparr>tg_timing = timing, tg_sfn = word_of_nat (m div S div L),
      tg_slot = word_of_nat (m div S mod L), tg_symbol = word_of_nat (m mod S), tg_ns = N m\<rparr>" for m
    unfolding tg_spec_def Let_def S_def [symmetric] L_def [symmetric] N_def div_mult2_eq ..
  note sym_inc = sat_inc_bound [OF sym, folded S_def]
  note slot_inc = sat_inc_bound [OF slot, folded L_def]
  consider "Suc (n mod S) \<noteq> S" | "Suc (n mod S) = S" "Suc (n div S mod L) \<noteq> L"
    | "Suc (n mod S) = S" "Suc (n div S mod L) = L" by blast
  then show ?thesis
  proof cases
    case 1
    with sym_inc(2) show ?thesis
      by (simp add: spec tick_symbol_def Let_def ns div_Suc mod_Suc) (simp add: sym_inc(1))
  next
    case 2
    with sym_inc(2) slot_inc(2) show ?thesis
      by (simp add: spec tick_symbol_def Let_def ns div_Suc mod_Suc) (simp add: slot_inc(1))
  next
    case 3
    with sym_inc(2) slot_inc(2) show ?thesis
      by (simp add: spec tick_symbol_def Let_def ns div_Suc mod_Suc)
  qed
qed

lemma tg_spec_0: "tg_spec timing 0 = TimestampGenerator_new timing"
  by (simp add: tg_spec_def TimestampGenerator_new_def Let_def)

lemma ticks_spec: "((\<lambda>g. snd (tick_symbol g)) ^^ n) (TimestampGenerator_new timing) = tg_spec timing n"
  by (induction n) (simp_all add: tg_spec_0 tick_symbol_spec)

lemma tg_spec_values:
  defines "S timing \<equiv> max 1 (unat (symbols_per_slot timing))"
    and "L timing \<equiv> max 1 (unat (slots_per_sfn timing))"
  shows "unat (tg_symbol (tg_spec timing n)) = n mod S timing"
    "unat (tg_slot (tg_spec timing n)) = n div S timing mod L timing"
    "unat (tg_sfn (tg_spec timing n)) = n div (S timing * L timing) mod 2 ^ 32"
    "unat (tg_ns (tg_spec timing n)) = min (n * unat (symbol_duration_ns timing)) (2 ^ 64 - 1)"
proof -
  have pos: "0 < S timing" "0 < L timing" by (simp_all add: S_def L_def)
  have "S timing < 2 ^ 8" "L timing < 2 ^ 16"
    using unsigned_less [of "symbols_per_slot timing"] unsigned_less [of "slots_per_sfn timing"]
    by (simp_all add: S_def L_def)
  then have "n mod S timing < 2 ^ 8" "n div S timing mod L timing < 2 ^ 16"
    using pos mod_less_divisor order.strict_trans by blast+
  then show "unat (tg_symbol (tg_spec timing n)) = n mod S timing"
    "unat (tg_slot (tg_spec timing n)) = n div S timing mod L timing"
    by (simp_all add: tg_spec_def Let_def unat_of_nat S_def [symmetric] L_def [symmetric]
        del: One_nat_def)
  show "unat (tg_sfn (tg_spec timing n)) = n div (S timing * L timing) mod 2 ^ 32"
    "unat (tg_ns (tg_spec timing n)) = min (n * unat (symbol_duration_ns timing)) (2 ^ 64 - 1)"
    by (simp_all add: tg_spec_def Let_def unat_of_nat S_def L_def)
qed

text \<open>
  C35: radio time.  After any number of symbols, from a fresh generator, the symbol, slot and frame
  numbers are the digits of that count in the mixed radix of the configuration and the clock is the
  exact product with the symbol duration, capped at the largest 64-bit value.  The saturating
  increments of the code therefore never interfere with the roll-over, and a configured count of
  zero acts like one.
\<close>

theorem radio_time_closed_form:
  "(let g = ((\<lambda>g. snd (tick_symbol g)) ^^ n) (TimestampGenerator_new timing);
        S = max 1 (unat (symbols_per_slot timing));
        L = max 1 (unat (slots_per_sfn timing))
    in unat (tg_symbol g) = n mod S
     \<and> unat (tg_slot g) = n div S mod L
     \<and> unat (tg_sfn g) = n div (S * L) mod 2 ^ 32
     \<and> unat (tg_ns g) = min (n * unat (symbol_duration_ns timing)) (2 ^ 64 - 1)
     \<and> tg_reset g = TimestampGenerator_new timing)"
proof -
  have "tg_reset (tg_spec timing n) = TimestampGenerator_new timing"
    by (simp add: tg_reset_def tg_spec_def TimestampGenerator_new_def Let_def)
  then show ?thesis unfolding ticks_spec Let_def by (simp only: tg_spec_values)
qed

section \<open>The emitted stream\<close>

lemma iq_payload_concat:
  "iq_payload samples acc =
     acc @ concat (map (\<lambda>s. f32_to_le_bytes (iq_i s) @ f32_to_le_bytes (iq_q s)) samples)"
  by (induction samples arbitrary: acc) simp_all

lemma length_f32_to_le_bytes [simp]: "length (f32_to_le_bytes x) = 4"
  by (simp add: f32_to_le_bytes_def)

lemma length_iq_payload [simp]: "length (iq_payload samples acc) = length acc + 8 * length samples"
  by (induction samples arbitrary: acc) simp_all

lemma iq_payload_block:
  assumes "k < length samples"
  shows "iq_payload samples [] = iq_payload (take k samples) []
    @ f32_to_le_bytes (iq_i (samples ! k)) @ f32_to_le_bytes (iq_q (samples ! k))
    @ iq_payload (drop (Suc k) samples) []"
proof -
  have "samples = take k samples @ samples ! k # drop (Suc k) samples"
    using assms by (rule id_take_nth_drop)
  then have "iq_payload samples [] = iq_payload (take k samples @ samples ! k # drop (Suc k) samples) []"
    by (rule arg_cong)
  then show ?thesis by (simp only: iq_payload_concat map_append concat_append list.map concat.simps append.simps append_assoc)
qed

text \<open>
  The payload is the interleaved little-endian image of the samples.  It has eight bytes per
  sample, and reading back the two 32-bit fields at the position of any sample gives the bit
  patterns of its in-phase and quadrature parts.
\<close>

theorem iq_payload_layout:
  assumes "k < length samples"
  shows "length (iq_payload samples []) = 8 * length samples
    \<and> u32_from_le_bytes (subslice (iq_payload samples []) (8 * k) (8 * k + 4)) = f32_to_bits (iq_i (samples ! k))
    \<and> u32_from_le_bytes (subslice (iq_payload samples []) (8 * k + 4) (8 * k + 8)) = f32_to_bits (iq_q (samples ! k))"
proof (intro conjI)
  let ?pre = "iq_payload (take k samples) []"
  have len: "length ?pre = 8 * k" using assms by (simp only: length_iq_payload) simp
  show "u32_from_le_bytes (subslice (iq_payload samples []) (8 * k) (8 * k + 4)) = f32_to_bits (iq_i (samples ! k))"
    unfolding iq_payload_block [OF assms] f32_to_le_bytes_def
    by (rule u32_codec.field_at) (simp_all add: len del: length_iq_payload)
  show "u32_from_le_bytes (subslice (iq_payload samples []) (8 * k + 4) (8 * k + 8)) = f32_to_bits (iq_q (samples ! k))"
    unfolding iq_payload_block [OF assms] f32_to_le_bytes_def append_assoc [of ?pre, symmetric]
    by (rule u32_codec.field_at) (simp_all add: len del: length_iq_payload)
qed simp

theorem iq_payload_layout_witness:
  "length (iq_payload [IQSample_new (Fin 1) (Fin 0)] []) = 8 * length [IQSample_new (Fin 1) (Fin 0)]
    \<and> u32_from_le_bytes (subslice (iq_payload [IQSample_new (Fin 1) (Fin 0)] []) (8 * 0) (8 * 0 + 4))
        = f32_to_bits (iq_i ([IQSample_new (Fin 1) (Fin 0)] ! 0))
    \<and> u32_from_le_bytes (subslice (iq_payload [IQSample_new (Fin 1) (Fin 0)] []) (8 * 0 + 4) (8 * 0 + 8))
        = f32_to_bits (iq_q ([IQSample_new (Fin 1) (Fin 0)] ! 0))"
  by (rule iq_payload_layout) simp

text \<open>The packet of symbol \<open>k\<close> of an emulator that starts from scratch.\<close>

definition emitted :: "(f32 \<Rightarrow> f32) \<Rightarrow> (f32 \<Rightarrow> f32) \<Rightarrow> RadioTimingConfig \<Rightarrow> StreamId \<Rightarrow> nat \<Rightarrow> Packet" where
  "emitted cos32 sin32 timing i k =
     Packet_new i (Sequence (word_of_nat k)) (Timestamp (tg_ns (tg_spec timing k)))
       (iq_payload (MockIQ_generate cos32 sin32 (samples_per_symbol timing) (tg_current (tg_spec timing k))) [])"

definition fpga_after :: "RadioTimingConfig \<Rightarrow> StreamId \<Rightarrow> nat \<Rightarrow> FpgaEmulator" where
  "fpga_after timing i k =
     \<lparr>fe_scheduler = \<lparr>timestamps = tg_spec timing k\<rparr>, fe_samples_per_symbol = samples_per_symbol timing,
      fe_packetizer = \<lparr>pktz_sequence = \<lparr>sg_next = word_of_nat k\<rparr>\<rparr>, fe_stream_id = i\<rparr>"

lemma fpga_after_0: "fpga_after timing i 0 = FpgaEmulator_new timing i"
  by (simp add: fpga_after_def FpgaEmulator_new_def SimpleSlotScheduler_new_def SequenceGenerator_new_def tg_spec_0)

lemma emit_symbol_after:
  "emit_symbol cos32 sin32 (fpga_after timing i k) =
     (emitted cos32 sin32 timing i k, fpga_after timing i (Suc k))"
  by (simp add: emit_symbol_def fpga_after_def emitted_def next_symbol_def tick_symbol_spec packetize_def
      sg_next_sequence_def Let_def tg_current_def add.commute)

lemma emit_symbols_after:
  "emit_symbols cos32 sin32 n (fpga_after timing i k) =
     (map (emitted cos32 sin32 timing i) [k..<k + n], fpga_after timing i (k + n))"
  by (induction n arbitrary: k) (simp_all add: emit_symbol_after upt_conv_Cons del: upt_Suc)

lemma emit_symbols_new:
  "emit_symbols cos32 sin32 n (FpgaEmulator_new timing i) =
     (map (emitted cos32 sin32 timing i) [0..<n], fpga_after timing i n)"
  using emit_symbols_after [of cos32 sin32 n timing i 0] by (simp add: fpga_after_0)

lemma MockIQ_generate_length [simp]: "length (MockIQ_generate cos32 sin32 n ts) = n"
  by (simp add: MockIQ_generate_def)

lemma emitted_simps [simp]:
  "stream_id (emitted c s timing i k) = i" "sequence (emitted c s timing i k) = Sequence (word_of_nat k)"
  "timestamp (emitted c s timing i k) = Timestamp (tg_ns (tg_spec timing k))"
  "length (payload (emitted c s timing i k)) = 8 * samples_per_symbol timing"
  by (simp_all add: emitted_def)

text \<open>
  C32: the stream the emulator emits.  Whatever the cosine and sine of the platform, the packets of
  \<open>n\<close> symbols carry one stream identifier, the sequence numbers from zero without a gap, the exact
  multiples of the symbol duration, up to the largest 64-bit number, as time stamps, and eight bytes for every configured sample.
\<close>

theorem emitted_stream:
  "map (\<lambda>p. (stream_id p, seqno (sequence p), unat (tstamp (timestamp p)), length (payload p)))
     (fst (emit_symbols cos32 sin32 n (FpgaEmulator_new timing i))) =
   map (\<lambda>k. (i, word_of_nat k, min (k * unat (symbol_duration_ns timing)) (2 ^ 64 - 1),
             8 * samples_per_symbol timing)) [0..<n]"
  by (simp add: emit_symbols_new tg_spec_values(4) del: upt_Suc)

end
