(* ===== verification/Memory.thy ===== *)
theory Memory
  imports Aether_Types
begin

text \<open>
  The crate \<^verbatim>\<open>memory-manager\<close>: the simulated host and GPU memory and the capacity-limited pool
  on top of it.  The trait \<^verbatim>\<open>MemoryBackend\<close> is the locale \<open>memory_backend\<close>, stated over the
  contents of the live buffers, and both implementations interpret it.
\<close>

section \<open>Definitions\<close>

type_synonym BufferId = u64

datatype MemoryKind = Host | Gpu

datatype MemoryError =
    NotFound BufferId
  | OutOfBounds
  | PoolExhausted
  | MemoryConfigError string

record Buffer =
  buf_kind :: MemoryKind
  buf_data :: "u8 list"

record SimMemory =
  next_id :: BufferId
  buffers :: "Buffer option list"

definition SimMemory_new :: SimMemory where
  "SimMemory_new = \<lparr>next_id = 0, buffers = []\<rparr>"

text \<open>\<^verbatim>\<open>self.buffers.get(id as usize).and_then(|b| b.as_ref())\<close>\<close>

definition get_buffer :: "SimMemory \<Rightarrow> BufferId \<Rightarrow> Buffer option" where
  "get_buffer m i = (if unat i < length (buffers m) then buffers m ! unat i else None)"

definition kind_of :: "SimMemory \<Rightarrow> BufferId \<Rightarrow> MemoryError + MemoryKind" where
  "kind_of m i = (case get_buffer m i of None \<Rightarrow> Inl (NotFound i) | Some b \<Rightarrow> Inr (buf_kind b))"

definition sim_allocate :: "SimMemory \<Rightarrow> usize \<Rightarrow> MemoryKind \<Rightarrow> (MemoryError, BufferId, SimMemory) outcome" where
  "sim_allocate m sz kind =
     (let i = next_id m
      in (Inr i, m\<lparr>next_id := next_id m + 1,
                   buffers := buffers m @ [Some \<lparr>buf_kind = kind, buf_data = replicate sz 0\<rparr>]\<rparr>))"

definition sim_write :: "SimMemory \<Rightarrow> BufferId \<Rightarrow> usize \<Rightarrow> u8 list \<Rightarrow> (MemoryError, unit, SimMemory) outcome" where
  "sim_write m i off data =
     (case get_buffer m i of
        None \<Rightarrow> (Inl (NotFound i), m)
      | Some buf \<Rightarrow>
          (case checked_add off (length data) of
             None \<Rightarrow> (Inl OutOfBounds, m)
           | Some e \<Rightarrow>
               if length (buf_data buf) < e then (Inl OutOfBounds, m)
               else (Inr (), m\<lparr>buffers := (buffers m)
                       [unat i := Some (buf\<lparr>buf_data := blit (buf_data buf) off data\<rparr>)]\<rparr>)))"

definition sim_read :: "SimMemory \<Rightarrow> BufferId \<Rightarrow> usize \<Rightarrow> usize \<Rightarrow> MemoryError + u8 list" where
  "sim_read m i off len =
     (case get_buffer m i of
        None \<Rightarrow> Inl (NotFound i)
      | Some buf \<Rightarrow>
          (case checked_add off len of
             None \<Rightarrow> Inl OutOfBounds
           | Some e \<Rightarrow>
               if length (buf_data buf) < e then Inl OutOfBounds
               else Inr (subslice (buf_data buf) off e)))"

definition sim_free :: "SimMemory \<Rightarrow> BufferId \<Rightarrow> (MemoryError, unit, SimMemory) outcome" where
  "sim_free m i =
     (if unat i < length (buffers m)
      then (case buffers m ! unat i of
              None \<Rightarrow> (Inl (NotFound i), m)
            | Some _ \<Rightarrow> (Inr (), m\<lparr>buffers := (buffers m)[unat i := None]\<rparr>))
      else (Inl (NotFound i), m))"

record MemoryPoolConfig =
  pool_version :: string
  pool_id :: string
  host_pool_bytes :: usize
  gpu_pool_bytes :: usize
  max_buffers :: usize
  h2d_bandwidth_gbps :: f64
  d2h_bandwidth_gbps :: f64
  fixed_copy_latency_ns :: u64

definition MemoryPoolConfig_from_yaml_str ::
    "(string \<Rightarrow> string + MemoryPoolConfig) \<Rightarrow> string \<Rightarrow> MemoryError + MemoryPoolConfig" where
  "MemoryPoolConfig_from_yaml_str yaml_parse s = map_err MemoryConfigError (yaml_parse s)"

record PooledMemory =
  pool_cfg :: MemoryPoolConfig
  inner :: SimMemory
  host_used :: usize
  gpu_used :: usize
  buffer_count :: usize
  sizes :: "(MemoryKind \<times> usize) option list"
  last_copy_ns :: "u64 option"
  copy_ops :: u64

definition PooledMemory_new :: "MemoryPoolConfig \<Rightarrow> PooledMemory" where
  "PooledMemory_new cfg =
     \<lparr>pool_cfg = cfg, inner = SimMemory_new, host_used = 0, gpu_used = 0, buffer_count = 0,
      sizes = [], last_copy_ns = None, copy_ops = 0\<rparr>"

definition PooledMemory_from_yaml ::
    "(string \<Rightarrow> string + MemoryPoolConfig) \<Rightarrow> string \<Rightarrow> MemoryError + PooledMemory" where
  "PooledMemory_from_yaml yaml_parse yaml =
     (case MemoryPoolConfig_from_yaml_str yaml_parse yaml of
        Inl e \<Rightarrow> Inl e | Inr cfg \<Rightarrow> Inr (PooledMemory_new cfg))"

definition copy_latency_ns :: "PooledMemory \<Rightarrow> usize \<Rightarrow> bool \<Rightarrow> u64" where
  "copy_latency_ns m bytes h2d =
     (let gbps = (if h2d then h2d_bandwidth_gbps (pool_cfg m) else d2h_bandwidth_gbps (pool_cfg m));
          wire = (if f_le gbps (Fin 0) then 0
                  else f_to_u64 (f64_mul (f64_div (f64_mul (f64_of_nat bytes) (f64_lit 8))
                                            (f64_mul gbps (f64_lit 1000000000))) (f64_lit 1000000000)))
      in sat_add wire (fixed_copy_latency_ns (pool_cfg m)))"

text \<open>
  \<^verbatim>\<open>allocate\<close> of the pool.  The byte counters are \<^verbatim>\<open>usize\<close> and their \<^verbatim>\<open>+=\<close> wraps; the loop that
  extends \<^verbatim>\<open>sizes\<close> up to the new index is the appended list of \<open>None\<close>.
\<close>

definition pool_allocate ::
    "PooledMemory \<Rightarrow> usize \<Rightarrow> MemoryKind \<Rightarrow> (MemoryError, BufferId, PooledMemory) outcome" where
  "pool_allocate m sz kind =
     (if max_buffers (pool_cfg m) \<le> buffer_count m then (Inl PoolExhausted, m)
      else if (case kind of Host \<Rightarrow> host_pool_bytes (pool_cfg m) < usat_add (host_used m) sz
                          | Gpu \<Rightarrow> gpu_pool_bytes (pool_cfg m) < usat_add (gpu_used m) sz)
      then (Inl PoolExhausted, m)
      else case sim_allocate (inner m) sz kind of
        (Inl e, inr') \<Rightarrow> (Inl e, m\<lparr>inner := inr'\<rparr>)
      | (Inr i, inr') \<Rightarrow>
          let grown = sizes m @ replicate (Suc (unat i) - length (sizes m)) None;
              m = m\<lparr>inner := inr', sizes := grown[unat i := Some (kind, sz)],
                    buffer_count := buffer_count m + 1\<rparr>
          in (Inr i, (case kind of
                        Host \<Rightarrow> m\<lparr>host_used := (host_used m + sz) mod 2 ^ 64\<rparr>
                      | Gpu \<Rightarrow> m\<lparr>gpu_used := (gpu_used m + sz) mod 2 ^ 64\<rparr>)))"

definition pool_write :: "PooledMemory \<Rightarrow> BufferId \<Rightarrow> usize \<Rightarrow> u8 list \<Rightarrow> (MemoryError, unit, PooledMemory) outcome" where
  "pool_write m i off data =
     (let (r, inr') = sim_write (inner m) i off data in (r, m\<lparr>inner := inr'\<rparr>))"

definition pool_read :: "PooledMemory \<Rightarrow> BufferId \<Rightarrow> usize \<Rightarrow> usize \<Rightarrow> MemoryError + u8 list" where
  "pool_read m i off len = sim_read (inner m) i off len"

definition pool_free :: "PooledMemory \<Rightarrow> BufferId \<Rightarrow> (MemoryError, unit, PooledMemory) outcome" where
  "pool_free m i =
     (case (if unat i < length (sizes m) then sizes m ! unat i else None) of
        None \<Rightarrow> (Inl (NotFound i), m)
      | Some (kind, sz) \<Rightarrow>
          (case sim_free (inner m) i of
             (Inl e, inr') \<Rightarrow> (Inl e, m\<lparr>inner := inr'\<rparr>)
           | (Inr _, inr') \<Rightarrow>
               let m = m\<lparr>inner := inr', sizes := (sizes m)[unat i := None],
                         buffer_count := buffer_count m - 1\<rparr>
               in (Inr (), (case kind of
                              Host \<Rightarrow> m\<lparr>host_used := host_used m - sz\<rparr>
                            | Gpu \<Rightarrow> m\<lparr>gpu_used := gpu_used m - sz\<rparr>))))"

definition pool_copy ::
    "PooledMemory \<Rightarrow> BufferId \<Rightarrow> usize \<Rightarrow> usize \<Rightarrow> MemoryKind \<Rightarrow> (MemoryError, BufferId \<times> u64, PooledMemory) outcome" where
  "pool_copy m src off len dst_kind =
     (case kind_of (inner m) src of
        Inl e \<Rightarrow> (Inl e, m)
      | Inr src_kind \<Rightarrow>
          (case sim_read (inner m) src off len of
             Inl e \<Rightarrow> (Inl e, m)
           | Inr data \<Rightarrow>
               (case pool_allocate m len dst_kind of
                  (Inl e, m1) \<Rightarrow> (Inl e, m1)
                | (Inr dst, m1) \<Rightarrow>
                    (case pool_write m1 dst 0 data of
                       (Inl e, m2) \<Rightarrow> (Inl e, m2)
                     | (Inr _, m2) \<Rightarrow>
                         let h2d = (src_kind = Host \<and> dst_kind = Gpu);
                             d2h = (src_kind = Gpu \<and> dst_kind = Host);
                             ns = (if h2d then copy_latency_ns m2 len True
                                   else if d2h then copy_latency_ns m2 len False
                                   else fixed_copy_latency_ns (pool_cfg m2))
                         in (Inr (dst, ns), m2\<lparr>last_copy_ns := Some ns, copy_ops := copy_ops m2 + 1\<rparr>)))))"

section \<open>The contract of a memory back end\<close>

text \<open>
  \<open>contents\<close> maps a live buffer identifier to its bytes.  \<open>fits\<close> says that the next identifier is
  still representable; identifiers are never reused.
\<close>

locale memory_backend =
  fixes alloc :: "'s \<Rightarrow> usize \<Rightarrow> MemoryKind \<Rightarrow> (MemoryError, BufferId, 's) outcome"
    and wr :: "'s \<Rightarrow> BufferId \<Rightarrow> usize \<Rightarrow> u8 list \<Rightarrow> (MemoryError, unit, 's) outcome"
    and rd :: "'s \<Rightarrow> BufferId \<Rightarrow> usize \<Rightarrow> usize \<Rightarrow> MemoryError + u8 list"
    and free :: "'s \<Rightarrow> BufferId \<Rightarrow> (MemoryError, unit, 's) outcome"
    and contents :: "'s \<Rightarrow> BufferId \<rightharpoonup> u8 list"
    and inv :: "'s \<Rightarrow> bool"
    and fits :: "'s \<Rightarrow> bool"
  assumes alloc_ok: "inv s \<Longrightarrow> fits s \<Longrightarrow> n < 2 ^ 64 \<Longrightarrow> alloc s n k = (Inr i, s') \<Longrightarrow>
      inv s' \<and> contents s i = None \<and> contents s' = (contents s)(i \<mapsto> replicate n 0)"
    and alloc_err: "alloc s n k = (Inl e, s') \<Longrightarrow> s' = s"
    and write_ok: "inv s \<Longrightarrow> contents s i = Some bs \<Longrightarrow> off + length d \<le> length bs \<Longrightarrow>
      fst (wr s i off d) = Inr () \<and> inv (snd (wr s i off d))
      \<and> contents (snd (wr s i off d)) = (contents s)(i \<mapsto> blit bs off d)"
    and write_oob: "contents s i = Some bs \<Longrightarrow> length bs < off + length d \<Longrightarrow> wr s i off d = (Inl OutOfBounds, s)"
    and write_missing: "contents s i = None \<Longrightarrow> wr s i off d = (Inl (NotFound i), s)"
    and read_ok: "inv s \<Longrightarrow> contents s i = Some bs \<Longrightarrow> off + n \<le> length bs \<Longrightarrow>
      rd s i off n = Inr (subslice bs off (off + n))"
    and read_oob: "contents s i = Some bs \<Longrightarrow> length bs < off + n \<Longrightarrow> rd s i off n = Inl OutOfBounds"
    and read_missing: "contents s i = None \<Longrightarrow> rd s i off n = Inl (NotFound i)"
    and free_ok: "inv s \<Longrightarrow> contents s i \<noteq> None \<Longrightarrow>
      fst (free s i) = Inr () \<and> inv (snd (free s i)) \<and> contents (snd (free s i)) = (contents s)(i := None)"
    and free_missing: "inv s \<Longrightarrow> contents s i = None \<Longrightarrow> free s i = (Inl (NotFound i), s)"
begin

lemma write_Inr_iff:
  "inv s \<Longrightarrow> fst (wr s i off d) = Inr () \<longleftrightarrow> (\<exists>bs. contents s i = Some bs \<and> off + length d \<le> length bs)"
proof (cases "contents s i")
  case None
  then show ?thesis by (simp add: write_missing)
next
  case (Some bs)
  assume "inv s"
  with Some show ?thesis
    by (cases "off + length d \<le> length bs") (simp_all add: write_ok write_oob not_le)
qed

lemma write_read:
  assumes "inv s" "wr s i off d = (Inr (), s')"
  shows "rd s' i off (length d) = Inr d"
    and "j \<noteq> i \<Longrightarrow> rd s' j off' n = rd s j off' n"
    and "off' + n \<le> off \<or> off + length d \<le> off' \<Longrightarrow> rd s' i off' n = rd s i off' n"
proof -
  obtain bs where bs: "contents s i = Some bs" "off + length d \<le> length bs"
    using write_Inr_iff [OF assms(1), of i off d] assms(2) by auto
  with write_ok [OF assms(1) bs] assms(2)
  have s': "inv s'" "contents s' i = Some (blit bs off d)" "contents s' = (contents s)(i \<mapsto> blit bs off d)" by auto
  have len: "length (blit bs off d) = length bs" using bs(2) by (rule length_blit)
  show "rd s' i off (length d) = Inr d"
    using read_ok [OF s'(1,2), of off "length d"] bs(2) by (simp add: len subslice_blit)
  show "rd s' j off' n = rd s j off' n" if "j \<noteq> i"
  proof (cases "contents s j")
    case None
    then show ?thesis using s'(3) that by (simp add: read_missing)
  next
    case (Some cs)
    then have "contents s' j = Some cs" using s'(3) that by simp
    with Some show ?thesis
      by (cases "off' + n \<le> length cs") (simp_all add: read_ok [OF assms(1)] read_ok [OF s'(1)] read_oob not_le)
  qed
  show "rd s' i off' n = rd s i off' n" if "off' + n \<le> off \<or> off + length d \<le> off'"
  proof (cases "off' + n \<le> length bs")
    case True
    have "subslice (blit bs off d) off' (off' + n) = subslice bs off' (off' + n)"
      using that subslice_blit_below [OF bs(2)] subslice_blit_above [OF bs(2)] by blast
    with True show ?thesis using read_ok [OF assms(1) bs(1)] read_ok [OF s'(1,2)] by (simp add: len)
  next
    case False
    with bs(1) s'(2) show ?thesis by (simp add: read_oob len not_le)
  qed
qed

lemma alloc_then_read:
  assumes "inv s" "fits s" "n < 2 ^ 64" "alloc s n k = (Inr i, s')"
  shows "rd s' i 0 n = Inr (replicate n 0)"
proof -
  have "inv s'" "contents s' i = Some (replicate n 0)" using alloc_ok [OF assms] by simp_all
  then show ?thesis using read_ok [of s' i "replicate n 0" 0 n] by (simp add: subslice_def)
qed

lemma use_after_free:
  assumes "inv s" "free s i = (Inr (), s')"
  shows "rd s' i off n = Inl (NotFound i)" "wr s' i off d = (Inl (NotFound i), s')"
    "free s' i = (Inl (NotFound i), s')"
proof -
  have "contents s i \<noteq> None" using free_missing [OF assms(1), of i] assms(2) by auto
  from free_ok [OF assms(1) this] assms(2) have "inv s'" "contents s' i = None" by auto
  then show "rd s' i off n = Inl (NotFound i)" "wr s' i off d = (Inl (NotFound i), s')"
    "free s' i = (Inl (NotFound i), s')"
    by (simp_all add: read_missing write_missing free_missing)
qed

end

text \<open>
  What a memory promises its user in a state \<open>s\<close>.  A write that succeeds is read back, and every read of another buffer or
  of a disjoint range is as before; a write that fails changes nothing.  A free changes no other buffer, and after it,
  whatever steps follow, the memory refuses every use of the identifier.
\<close>

definition behaves_as_memory ::
    "('s \<Rightarrow> 's \<Rightarrow> bool) \<Rightarrow> ('s \<Rightarrow> BufferId \<Rightarrow> bool) \<Rightarrow> ('s \<Rightarrow> BufferId \<Rightarrow> usize \<Rightarrow> u8 list \<Rightarrow> (MemoryError, unit, 's) outcome)
     \<Rightarrow> ('s \<Rightarrow> BufferId \<Rightarrow> usize \<Rightarrow> usize \<Rightarrow> MemoryError + u8 list) \<Rightarrow> ('s \<Rightarrow> BufferId \<Rightarrow> (MemoryError, unit, 's) outcome) \<Rightarrow> 's \<Rightarrow> bool" where
  "behaves_as_memory step refuses wr rd free s \<longleftrightarrow>
     (\<forall>i off d s'. wr s i off d = (Inr (), s') \<longrightarrow>
        rd s' i off (length d) = Inr d
        \<and> (\<forall>j off' n. j \<noteq> i \<or> off' + n \<le> off \<or> off + length d \<le> off' \<longrightarrow> rd s' j off' n = rd s j off' n))
     \<and> (\<forall>i off d e s'. wr s i off d = (Inl e, s') \<longrightarrow> s' = s)
     \<and> (\<forall>i s'. free s i = (Inr (), s') \<longrightarrow>
          (\<forall>j off n. j \<noteq> i \<longrightarrow> rd s' j off n = rd s j off n) \<and> (\<forall>s''. step\<^sup>*\<^sup>* s' s'' \<longrightarrow> refuses s'' i))"

text \<open>
  A back end with the steps its users can take.  An identifier that is \<open>dead\<close> names no buffer and never will again.
\<close>

locale memory_history = memory_backend +
  fixes step :: "'a \<Rightarrow> 'a \<Rightarrow> bool" and dead :: "'a \<Rightarrow> BufferId \<Rightarrow> bool" and refuses :: "'a \<Rightarrow> BufferId \<Rightarrow> bool"
  assumes step_inv: "inv s \<Longrightarrow> step s s' \<Longrightarrow> inv s'"
    and dead_step: "dead s i \<Longrightarrow> step s s' \<Longrightarrow> dead s' i"
    and dead_free: "inv s \<Longrightarrow> free s i = (Inr (), s') \<Longrightarrow> dead s' i"
    and dead_refuses: "inv s \<Longrightarrow> dead s i \<Longrightarrow> refuses s i"
begin

lemma dead_for_ever:
  assumes "step\<^sup>*\<^sup>* s s'" "inv s" "dead s i"
  shows "inv s' \<and> dead s' i"
  using assms by (induction rule: rtranclp_induct) (auto intro: step_inv dead_step)

lemma free_keeps_others:
  assumes "inv s" "free s i = (Inr (), s')"
  shows "inv s'" "j \<noteq> i \<Longrightarrow> rd s' j off n = rd s j off n"
proof -
  have "contents s i \<noteq> None" using free_missing [OF assms(1), of i] assms(2) by auto
  from free_ok [OF assms(1) this] assms(2) have s': "inv s'" "contents s' = (contents s)(i := None)" by auto
  then show "inv s'" by simp
  show "rd s' j off n = rd s j off n" if "j \<noteq> i"
  proof (cases "contents s j")
    case None
    then show ?thesis using s'(2) that by (simp add: read_missing)
  next
    case (Some bs)
    then have "contents s' j = Some bs" using s'(2) that by simp
    with Some show ?thesis
      by (cases "off + n \<le> length bs") (simp_all add: read_ok [OF assms(1)] read_ok [OF s'(1)] read_oob not_le)
  qed
qed

lemma write_error_same: "inv s \<Longrightarrow> wr s i off d = (Inl e, s') \<Longrightarrow> s' = s"
  by (cases "contents s i") (auto simp: write_missing, metis write_ok write_oob fst_conv snd_conv not_le sum.distinct(1))

lemma behaves:
  assumes "inv s"
  shows "behaves_as_memory step refuses wr rd free s"
  unfolding behaves_as_memory_def
proof (intro conjI allI impI)
  fix i off d s'
  assume w: "wr s i off d = (Inr (), s')"
  show "rd s' i off (length d) = Inr d" using write_read(1) [OF assms w] .
  show "rd s' j off' n = rd s j off' n" if "j \<noteq> i \<or> off' + n \<le> off \<or> off + length d \<le> off'" for j off' n
    using that write_read(2,3) [OF assms w] by (cases "j = i") auto
next
  fix i off d e s'
  assume "wr s i off d = (Inl e, s')"
  then show "s' = s" by (rule write_error_same [OF assms])
next
  fix i s' j off n
  assume "free s i = (Inr (), s')" "j \<noteq> i"
  then show "rd s' j off n = rd s j off n" by (rule free_keeps_others(2) [OF assms])
next
  fix i s' s''
  assume f: "free s i = (Inr (), s')" and "step\<^sup>*\<^sup>* s' s''"
  then show "refuses s'' i"
    using dead_for_ever free_keeps_others(1) [OF assms f] dead_free [OF assms f] dead_refuses by blast
qed

end

section \<open>The simulated memory\<close>

definition sim_contents :: "SimMemory \<Rightarrow> BufferId \<rightharpoonup> u8 list" where
  "sim_contents m i = map_option buf_data (get_buffer m i)"

definition mem_inv :: "SimMemory \<Rightarrow> bool" where
  "mem_inv m \<longleftrightarrow>
     length (buffers m) < 2 ^ 64 \<and> next_id m = word_of_nat (length (buffers m))
     \<and> (\<forall>b. Some b \<in> set (buffers m) \<longrightarrow> length (buf_data b) < 2 ^ 64)"

definition mem_fits :: "SimMemory \<Rightarrow> bool" where
  "mem_fits m \<longleftrightarrow> Suc (length (buffers m)) < 2 ^ 64"

lemma mem_inv_next_id: "mem_inv m \<Longrightarrow> unat (next_id m) = length (buffers m)"
  by (simp add: mem_inv_def unat_of_nat)

lemma get_buffer_mem: "get_buffer m i = Some b \<Longrightarrow> unat i < length (buffers m) \<and> Some b \<in> set (buffers m)"
  by (auto simp: get_buffer_def split: if_splits) (metis nth_mem)

lemma get_buffer_update:
  "unat i < length (buffers m) \<Longrightarrow>
     get_buffer (m\<lparr>buffers := (buffers m)[unat i := b]\<rparr>) j = (if j = i then b else get_buffer m j)"
  by (auto simp: get_buffer_def nth_list_update word_unat_eq_iff)

lemma get_buffer_append:
  assumes "mem_inv m"
  shows "get_buffer (m\<lparr>next_id := x, buffers := buffers m @ [b]\<rparr>) j =
    (if j = next_id m then b else get_buffer m j)"
  using mem_inv_next_id [OF assms] by (auto simp: get_buffer_def nth_append word_unat_eq_iff)

lemma get_buffer_next: "mem_inv m \<Longrightarrow> get_buffer m (next_id m) = None"
  by (simp add: get_buffer_def mem_inv_next_id)

lemma mem_inv_allocate:
  assumes "mem_inv m" "mem_fits m" "n < 2 ^ 64"
  shows "mem_inv (snd (sim_allocate m n k))"
  using assms by (auto simp: mem_inv_def mem_fits_def sim_allocate_def Let_def add.commute)

lemma set_update_Some:
  "Some b \<in> set (xs[i := y]) \<Longrightarrow> Some b \<in> set xs \<or> y = Some b"
  using set_update_subset_insert [of xs i y] by auto

lemma mem_inv_update:
  assumes "mem_inv m" "\<And>b. y = Some b \<Longrightarrow> length (buf_data b) < 2 ^ 64"
  shows "mem_inv (m\<lparr>buffers := (buffers m)[i := y]\<rparr>)"
  using assms by (auto simp: mem_inv_def dest!: set_update_Some)

interpretation sim_mem: memory_backend sim_allocate sim_write sim_read sim_free sim_contents mem_inv mem_fits
proof unfold_locales
  fix s s' :: SimMemory and n k i
  assume a: "mem_inv s" "mem_fits s" "n < 2 ^ 64" "sim_allocate s n k = (Inr i, s')"
  have "mem_inv s'" using mem_inv_allocate [OF a(1-3), of k] a(4) by simp
  moreover have "i = next_id s" "s' = s\<lparr>next_id := next_id s + 1,
      buffers := buffers s @ [Some \<lparr>buf_kind = k, buf_data = replicate n 0\<rparr>]\<rparr>"
    using a(4) by (auto simp: sim_allocate_def Let_def)
  ultimately show "mem_inv s' \<and> sim_contents s i = None \<and> sim_contents s' = (sim_contents s)(i \<mapsto> replicate n 0)"
    using get_buffer_append [OF a(1)] get_buffer_next [OF a(1)] by (auto simp: sim_contents_def)
next
  fix s :: SimMemory and i bs off and d :: "u8 list"
  assume a: "mem_inv s" "sim_contents s i = Some bs" "off + length d \<le> length bs"
  then obtain b where b: "get_buffer s i = Some b" "bs = buf_data b" by (auto simp: sim_contents_def)
  have lt: "length bs < 2 ^ 64" using a(1) get_buffer_mem [OF b(1)] b(2) by (simp add: mem_inv_def)
  have len: "length (blit bs off d) = length bs" using a(3) by (rule length_blit)
  have w: "sim_write s i off d = (Inr (), s\<lparr>buffers := (buffers s)[unat i := Some (b\<lparr>buf_data := blit bs off d\<rparr>)]\<rparr>)"
    using b a(3) lt by (simp add: sim_write_def checked_add_def)
  moreover have "mem_inv (s\<lparr>buffers := (buffers s)[unat i := Some (b\<lparr>buf_data := blit bs off d\<rparr>)]\<rparr>)"
    using a(1) lt len by (auto intro!: mem_inv_update)
  ultimately show "fst (sim_write s i off d) = Inr () \<and> mem_inv (snd (sim_write s i off d))
      \<and> sim_contents (snd (sim_write s i off d)) = (sim_contents s)(i \<mapsto> blit bs off d)"
    using get_buffer_mem [OF b(1)] by (auto simp: sim_contents_def get_buffer_update)
next
  fix s :: SimMemory and i
  assume a: "mem_inv s" "sim_contents s i \<noteq> None"
  then obtain b where b: "get_buffer s i = Some b" by (auto simp: sim_contents_def)
  then have f: "sim_free s i = (Inr (), s\<lparr>buffers := (buffers s)[unat i := None]\<rparr>)"
    using get_buffer_mem [OF b] by (auto simp: sim_free_def get_buffer_def split: option.splits)
  moreover have "mem_inv (s\<lparr>buffers := (buffers s)[unat i := None]\<rparr>)" using a(1) by (rule mem_inv_update) simp
  ultimately show "fst (sim_free s i) = Inr () \<and> mem_inv (snd (sim_free s i))
      \<and> sim_contents (snd (sim_free s i)) = (sim_contents s)(i := None)"
    using get_buffer_mem [OF b] by (auto simp: sim_contents_def get_buffer_update)
next
  fix s :: SimMemory and i bs off n
  assume a: "mem_inv s" "sim_contents s i = Some bs" "off + n \<le> length bs"
  then obtain b where b: "get_buffer s i = Some b" "bs = buf_data b" by (auto simp: sim_contents_def)
  then have "length bs < 2 ^ 64" using a(1) get_buffer_mem [OF b(1)] by (simp add: mem_inv_def)
  with a(3) b show "sim_read s i off n = Inr (subslice bs off (off + n))"
    by (simp add: sim_read_def checked_add_def)
qed (auto simp: sim_contents_def sim_write_def sim_read_def sim_free_def sim_allocate_def get_buffer_def
    checked_add_def Let_def split: option.splits if_splits)

text \<open>The steps of a user of the simulated memory, and the identifiers it has given back.\<close>

inductive mem_step :: "SimMemory \<Rightarrow> SimMemory \<Rightarrow> bool" where
  mem_step_alloc: "mem_fits m \<Longrightarrow> n < 2 ^ 64 \<Longrightarrow> mem_step m (snd (sim_allocate m n k))"
| mem_step_write: "mem_step m (snd (sim_write m i off d))"
| mem_step_free: "mem_step m (snd (sim_free m i))"

definition dead_id :: "SimMemory \<Rightarrow> BufferId \<Rightarrow> bool" where
  "dead_id m i \<longleftrightarrow> unat i < length (buffers m) \<and> buffers m ! unat i = None"

definition mem_refuses :: "SimMemory \<Rightarrow> BufferId \<Rightarrow> bool" where
  "mem_refuses m i \<longleftrightarrow>
     (\<forall>off n. sim_read m i off n = Inl (NotFound i)) \<and> (\<forall>off d. sim_write m i off d = (Inl (NotFound i), m))
     \<and> sim_free m i = (Inl (NotFound i), m) \<and> kind_of m i = Inl (NotFound i)"

lemma dead_id_alloc: "dead_id m i \<Longrightarrow> dead_id (snd (sim_allocate m n k)) i"
  by (auto simp: dead_id_def sim_allocate_def nth_append Let_def)

lemma dead_id_write: "dead_id m i \<Longrightarrow> dead_id (snd (sim_write m j off d)) i"
  by (auto simp: dead_id_def sim_write_def get_buffer_def checked_add_def nth_list_update split: option.splits if_splits)

lemma dead_id_free: "dead_id m i \<Longrightarrow> dead_id (snd (sim_free m j)) i"
  by (auto simp: dead_id_def sim_free_def nth_list_update split: option.splits)

lemma sim_free_dead: "sim_free m i = (Inr (), m') \<Longrightarrow> dead_id m' i"
  by (auto simp: dead_id_def sim_free_def split: if_splits option.splits)

lemma dead_id_buffer: "dead_id m i \<Longrightarrow> get_buffer m i = None"
  by (simp add: dead_id_def get_buffer_def)

lemma mem_inv_write: "mem_inv m \<Longrightarrow> mem_inv (snd (sim_write m i off d))"
  using sim_mem.write_ok [of m i _ off d] sim_mem.write_oob [of m i _ off d] sim_mem.write_missing [of m i off d]
  by (cases "sim_contents m i") (simp, metis not_le snd_conv)

lemma mem_inv_free: "mem_inv m \<Longrightarrow> mem_inv (snd (sim_free m i))"
  using sim_mem.free_ok [of m i] sim_mem.free_missing [of m i] by (cases "sim_contents m i") auto

interpretation mem_history: memory_history sim_allocate sim_write sim_read sim_free sim_contents mem_inv mem_fits
  mem_step dead_id mem_refuses
proof unfold_locales
  fix s s' :: SimMemory
  assume "mem_step s s'" "mem_inv s"
  then show "mem_inv s'" by (cases rule: mem_step.cases) (auto simp: mem_inv_allocate mem_inv_write mem_inv_free)
next
  fix s s' :: SimMemory and i
  assume "mem_step s s'" "dead_id s i"
  then show "dead_id s' i" by (cases rule: mem_step.cases) (auto simp: dead_id_alloc dead_id_write dead_id_free)
next
  fix s :: SimMemory and i
  assume "mem_inv s" "dead_id s i"
  then show "mem_refuses s i" using dead_id_buffer [of s i]
    by (auto simp: mem_refuses_def sim_read_def sim_write_def kind_of_def sim_free_def dead_id_def)
qed (rule sim_free_dead)

inductive mem_reachable :: "SimMemory \<Rightarrow> bool" where
  mem_start: "mem_reachable SimMemory_new"
| mem_next: "mem_reachable m \<Longrightarrow> mem_step m m' \<Longrightarrow> mem_reachable m'"

lemma mem_reachable_inv: "mem_reachable m \<Longrightarrow> mem_inv m"
proof (induction rule: mem_reachable.induct)
  case mem_start
  then show ?case by (simp add: SimMemory_new_def mem_inv_def)
qed (rule mem_history.step_inv)

section \<open>The pool\<close>

definition kind_bytes :: "MemoryKind \<Rightarrow> (MemoryKind \<times> usize) option \<Rightarrow> nat" where
  "kind_bytes k s = (case s of Some (k', n) \<Rightarrow> if k' = k then n else 0 | None \<Rightarrow> 0)"

definition live_bytes :: "MemoryKind \<Rightarrow> (MemoryKind \<times> usize) option list \<Rightarrow> nat" where
  "live_bytes k xs = sum_list (map (kind_bytes k) xs)"

definition live_count :: "'a option list \<Rightarrow> nat" where
  "live_count xs = length (filter (\<lambda>x. x \<noteq> None) xs)"

text \<open>The size table mirrors the buffers, the counters are sums over it, and all are within bounds.\<close>

definition pool_table :: "SimMemory \<Rightarrow> (MemoryKind \<times> usize) option list" where
  "pool_table m = map (map_option (\<lambda>b. (buf_kind b, length (buf_data b)))) (buffers m)"

definition pool_inv :: "PooledMemory \<Rightarrow> bool" where
  "pool_inv m \<longleftrightarrow>
     mem_inv (inner m) \<and> sizes m = pool_table (inner m)
     \<and> host_used m = live_bytes Host (sizes m) \<and> gpu_used m = live_bytes Gpu (sizes m)
     \<and> buffer_count m = live_count (sizes m)
     \<and> host_used m \<le> host_pool_bytes (pool_cfg m) \<and> gpu_used m \<le> gpu_pool_bytes (pool_cfg m)
     \<and> buffer_count m \<le> max_buffers (pool_cfg m)
     \<and> host_pool_bytes (pool_cfg m) < 2 ^ 64 - 1 \<and> gpu_pool_bytes (pool_cfg m) < 2 ^ 64 - 1"

lemma live_bytes_append: "live_bytes k (xs @ [x]) = live_bytes k xs + kind_bytes k x"
  by (simp add: live_bytes_def)

lemma live_count_append: "live_count (xs @ [Some y]) = Suc (live_count xs)"
  by (simp add: live_count_def)

lemma live_bytes_clear:
  assumes "i < length xs"
  shows "live_bytes k (xs[i := None]) = live_bytes k xs - kind_bytes k (xs ! i)"
  using assms sum_list_update [of i "map (kind_bytes k) xs" 0]
  by (simp add: live_bytes_def map_update kind_bytes_def)

lemma live_count_clear:
  assumes "i < length xs" "xs ! i \<noteq> None"
  shows "live_count (xs[i := None]) = live_count xs - 1"
proof -
  have "live_count ys = sum_list (map (\<lambda>x. if x \<noteq> None then 1 else 0) ys)" for ys :: "'a option list"
    by (induction ys) (simp_all add: live_count_def)
  then show ?thesis
    using assms sum_list_update [of i "map (\<lambda>x. if x \<noteq> None then 1 else 0 :: nat) xs" 0]
    by (simp add: map_update)
qed

lemma pool_allocate_cases:
  assumes "pool_inv m"
  obtains (refused) "pool_allocate m n k = (Inl PoolExhausted, m)"
    "max_buffers (pool_cfg m) \<le> buffer_count m
     \<or> (k = Host \<and> host_pool_bytes (pool_cfg m) < host_used m + n)
     \<or> (k = Gpu \<and> gpu_pool_bytes (pool_cfg m) < gpu_used m + n)"
  | (granted) m' where "pool_allocate m n k = (Inr (next_id (inner m)), m')"
    "buffer_count m < max_buffers (pool_cfg m)"
    "m' = m\<lparr>inner := snd (sim_allocate (inner m) n k), sizes := sizes m @ [Some (k, n)],
            buffer_count := buffer_count m + 1,
            host_used := (if k = Host then host_used m + n else host_used m),
            gpu_used := (if k = Gpu then gpu_used m + n else gpu_used m)\<rparr>"
    "k = Host \<Longrightarrow> host_used m + n \<le> host_pool_bytes (pool_cfg m)"
    "k = Gpu \<Longrightarrow> gpu_used m + n \<le> gpu_pool_bytes (pool_cfg m)"
proof -
  have bnd: "host_pool_bytes (pool_cfg m) < 2 ^ 64 - 1" "gpu_pool_bytes (pool_cfg m) < 2 ^ 64 - 1"
    using assms by (simp_all add: pool_inv_def)
  have sat: "p < usat_add a n \<longleftrightarrow> p < a + n" if "p < 2 ^ 64 - 1" for p a
    using that by (auto simp: usat_add_def)
  have len: "unat (next_id (inner m)) = length (sizes m)"
    using assms mem_inv_next_id [of "inner m"] by (simp add: pool_inv_def pool_table_def)
  have upd: "(sizes m @ [None])[length (sizes m) := Some (k, n)] = sizes m @ [Some (k, n)]"
    by (simp add: list_update_append)
  consider "max_buffers (pool_cfg m) \<le> buffer_count m"
    | "k = Host" "host_pool_bytes (pool_cfg m) < host_used m + n"
    | "k = Gpu" "gpu_pool_bytes (pool_cfg m) < gpu_used m + n"
    | "\<not> max_buffers (pool_cfg m) \<le> buffer_count m" "k = Host" "\<not> host_pool_bytes (pool_cfg m) < host_used m + n"
    | "\<not> max_buffers (pool_cfg m) \<le> buffer_count m" "k = Gpu" "\<not> gpu_pool_bytes (pool_cfg m) < gpu_used m + n"
    by (cases k) auto
  then show ?thesis
  proof cases
    case 1
    then show ?thesis by (intro refused) (simp_all add: pool_allocate_def)
  next
    case 2
    then show ?thesis using sat [OF bnd(1)] by (intro refused) (simp_all add: pool_allocate_def)
  next
    case 3
    then show ?thesis using sat [OF bnd(2)] by (intro refused) (simp_all add: pool_allocate_def)
  next
    case 4
    then have "host_used m + n < 2 ^ 64" using bnd by linarith
    with 4 sat [OF bnd(1)] show ?thesis
      by (intro granted) (auto simp: pool_allocate_def sim_allocate_def Let_def len upd not_less)
  next
    case 5
    then have "gpu_used m + n < 2 ^ 64" using bnd by linarith
    with 5 sat [OF bnd(2)] show ?thesis
      by (intro granted) (auto simp: pool_allocate_def sim_allocate_def Let_def len upd not_less)
  qed
qed

lemma pool_table_allocate: "pool_table (snd (sim_allocate m n k)) = pool_table m @ [Some (k, n)]"
  by (simp add: pool_table_def sim_allocate_def Let_def)

lemma pool_inv_allocate:
  assumes "pool_inv m" "mem_fits (inner m)" "n < 2 ^ 64"
  shows "pool_inv (snd (pool_allocate m n k))"
  using assms(1)
proof (cases rule: pool_allocate_cases [of m n k])
  case refused
  with assms(1) show ?thesis by simp
next
  case (granted m')
  have "mem_inv (snd (sim_allocate (inner m) n k))"
    using assms by (intro mem_inv_allocate) (simp_all add: pool_inv_def)
  with granted assms(1) show ?thesis
    by (cases k) (auto simp: pool_inv_def pool_table_allocate live_bytes_append live_count_append kind_bytes_def)
qed

lemma pool_table_write:
  "pool_table (snd (sim_write m i off d)) = pool_table m"
proof (cases "get_buffer m i")
  case None
  then show ?thesis by (simp add: sim_write_def)
next
  case (Some b)
  have i: "unat i < length (buffers m)" "buffers m ! unat i = Some b"
    using Some by (auto simp: get_buffer_def split: if_splits)
  have "pool_table (m\<lparr>buffers := (buffers m)[unat i := Some (b\<lparr>buf_data := blit (buf_data b) off d\<rparr>)]\<rparr>) = pool_table m"
    if "off + length d \<le> length (buf_data b)"
    using i that by (simp add: pool_table_def map_update length_blit list_update_same_conv)
  with Some show ?thesis
    by (auto simp: sim_write_def checked_add_def not_less)
qed

lemma pool_inv_write: "pool_inv m \<Longrightarrow> pool_inv (snd (pool_write m i off d))"
  using pool_table_write [of "inner m" i off d] mem_inv_write [of "inner m" i off d]
  by (auto simp: pool_write_def pool_inv_def split_beta Let_def)

lemma pool_inv_lookup:
  assumes "pool_inv m"
  shows "(if unat i < length (sizes m) then sizes m ! unat i else None)
    = map_option (\<lambda>b. (buf_kind b, length (buf_data b))) (get_buffer (inner m) i)"
  using assms by (simp add: pool_inv_def pool_table_def get_buffer_def)

lemma pool_free_found:
  assumes "pool_inv m" "get_buffer (inner m) i = Some b"
  shows "pool_free m i = (Inr (), m\<lparr>inner := (inner m)\<lparr>buffers := (buffers (inner m))[unat i := None]\<rparr>,
      sizes := (sizes m)[unat i := None], buffer_count := buffer_count m - 1,
      host_used := host_used m - (if buf_kind b = Host then length (buf_data b) else 0),
      gpu_used := gpu_used m - (if buf_kind b = Gpu then length (buf_data b) else 0)\<rparr>)"
proof -
  have "sim_free (inner m) i = (Inr (), (inner m)\<lparr>buffers := (buffers (inner m))[unat i := None]\<rparr>)"
    using assms(2) by (auto simp: sim_free_def get_buffer_def split: if_splits option.splits)
  then show ?thesis using pool_inv_lookup [OF assms(1), of i] assms(2)
    by (cases "buf_kind b") (simp_all add: pool_free_def Let_def)
qed

lemma pool_free_absent:
  "pool_inv m \<Longrightarrow> get_buffer (inner m) i = None \<Longrightarrow> pool_free m i = (Inl (NotFound i), m)"
  using pool_inv_lookup [of m i] by (simp add: pool_free_def)

lemma pool_inv_free:
  assumes "pool_inv m"
  shows "pool_inv (snd (pool_free m i))"
proof (cases "get_buffer (inner m) i")
  case None
  with assms show ?thesis by (simp add: pool_free_absent)
next
  case (Some b)
  have i: "unat i < length (sizes m)" "sizes m ! unat i = Some (buf_kind b, length (buf_data b))"
    using assms Some by (auto simp: pool_inv_def pool_table_def get_buffer_def split: if_splits)
  have "mem_inv ((inner m)\<lparr>buffers := (buffers (inner m))[unat i := None]\<rparr>)"
    using assms by (intro mem_inv_update) (simp_all add: pool_inv_def)
  moreover have "pool_table ((inner m)\<lparr>buffers := (buffers (inner m))[unat i := None]\<rparr>) = (sizes m)[unat i := None]"
    using assms by (simp add: pool_inv_def pool_table_def map_update)
  ultimately show ?thesis using assms i
    by (simp add: pool_free_found [OF assms Some])
      (auto simp: pool_inv_def live_bytes_clear live_count_clear kind_bytes_def)
qed

interpretation pool: memory_backend pool_allocate pool_write pool_read pool_free
  "\<lambda>m. sim_contents (inner m)" pool_inv "\<lambda>m. mem_fits (inner m)"
proof unfold_locales
  fix s s' :: PooledMemory and n k i
  assume a: "pool_inv s" "mem_fits (inner s)" "n < 2 ^ 64" "pool_allocate s n k = (Inr i, s')"
  have inv: "pool_inv s'" using pool_inv_allocate [OF a(1-3), of k] a(4) by simp
  from a(1) have m: "mem_inv (inner s)" by (simp add: pool_inv_def)
  from a(1) have "i = next_id (inner s) \<and> inner s' = snd (sim_allocate (inner s) n k)"
    by (cases rule: pool_allocate_cases [of s n k]) (use a(4) in auto)
  then have "sim_allocate (inner s) n k = (Inr i, inner s')" by (simp add: sim_allocate_def Let_def)
  from sim_mem.alloc_ok [OF m a(2,3) this] inv
  show "pool_inv s' \<and> sim_contents (inner s) i = None
      \<and> sim_contents (inner s') = (sim_contents (inner s))(i \<mapsto> replicate n 0)" by simp
next
  fix s s' :: PooledMemory and n k e
  assume "pool_allocate s n k = (Inl e, s')"
  then show "s' = s" by (auto simp: pool_allocate_def sim_allocate_def Let_def split: if_splits MemoryKind.splits)
next
  fix s :: PooledMemory and i bs off and d :: "u8 list"
  assume a: "pool_inv s" "sim_contents (inner s) i = Some bs" "off + length d \<le> length bs"
  from a(1) have "mem_inv (inner s)" by (simp add: pool_inv_def)
  then show "fst (pool_write s i off d) = Inr () \<and> pool_inv (snd (pool_write s i off d))
      \<and> sim_contents (inner (snd (pool_write s i off d))) = (sim_contents (inner s))(i \<mapsto> blit bs off d)"
    using pool_inv_write [OF a(1), of i off d] sim_mem.write_ok [OF _ a(2,3)]
    by (simp add: pool_write_def split_beta Let_def)
next
  fix s :: PooledMemory and i
  assume a: "pool_inv s" "sim_contents (inner s) i \<noteq> None"
  then obtain b where b: "get_buffer (inner s) i = Some b" by (auto simp: sim_contents_def)
  then show "fst (pool_free s i) = Inr () \<and> pool_inv (snd (pool_free s i))
      \<and> sim_contents (inner (snd (pool_free s i))) = (sim_contents (inner s))(i := None)"
    using pool_inv_free [OF a(1), of i] get_buffer_mem [OF b] pool_free_found [OF a(1) b]
    by (auto simp: sim_contents_def get_buffer_update)
next
  fix s :: PooledMemory and i
  assume "pool_inv s" "sim_contents (inner s) i = None"
  then show "pool_free s i = (Inl (NotFound i), s)" by (simp add: pool_free_absent sim_contents_def)
qed (simp_all add: pool_write_def pool_read_def sim_mem.write_oob sim_mem.write_missing sim_mem.read_oob
    sim_mem.read_missing sim_mem.read_ok pool_inv_def)

section \<open>Copies\<close>

lemma read_Inr:
  assumes "mem_inv m" "sim_read m i off n = Inr data"
  obtains bs where "sim_contents m i = Some bs" "off + n \<le> length bs" "data = subslice bs off (off + n)" "n < 2 ^ 64"
proof -
  obtain b where b: "get_buffer m i = Some b" "off + n \<le> length (buf_data b)"
    "data = subslice (buf_data b) off (off + n)"
    using assms(2) by (auto simp: sim_read_def checked_add_def split: option.splits if_splits)
  have "length (buf_data b) < 2 ^ 64" using assms(1) get_buffer_mem [OF b(1)] by (simp add: mem_inv_def)
  with b that show ?thesis by (auto simp: sim_contents_def)
qed

lemma pool_copy_cases:
  assumes "pool_inv m" "mem_fits (inner m)"
  obtains (failed) e where "pool_copy m src off len k = (Inl e, m)"
  | (copied) dst ns m' bs where "pool_copy m src off len k = (Inr (dst, ns), m')"
      "pool_inv m'" "sim_contents (inner m) src = Some bs" "off + len \<le> length bs"
      "sim_contents (inner m) dst = None"
      "sim_contents (inner m') = (sim_contents (inner m))(dst \<mapsto> subslice bs off (off + len))"
      "last_copy_ns m' = Some ns" "fixed_copy_latency_ns (pool_cfg m) \<le> ns"
proof -
  have mi: "mem_inv (inner m)" using assms(1) by (simp add: pool_inv_def)
  show ?thesis
  proof (cases "kind_of (inner m) src")
    case (Inl e)
    then show ?thesis by (intro failed) (simp add: pool_copy_def)
  next
    case kind: (Inr sk)
    show ?thesis
    proof (cases "sim_read (inner m) src off len")
      case (Inl e)
      with kind show ?thesis by (intro failed) (simp add: pool_copy_def)
    next
      case (Inr data)
      with mi obtain bs where bs: "sim_contents (inner m) src = Some bs" "off + len \<le> length bs"
        "data = subslice bs off (off + len)" "len < 2 ^ 64" by (rule read_Inr)
      have dl: "length data = len" using bs by simp
      from assms(1) show ?thesis
      proof (cases rule: pool_allocate_cases [of m len k])
        case refused
        with kind Inr show ?thesis by (intro failed) (simp add: pool_copy_def)
      next
        case (granted m1)
        let ?dst = "next_id (inner m)"
        note al = pool.alloc_ok [OF assms bs(4) granted(1)]
        have wr: "fst (pool_write m1 ?dst 0 data) = Inr () \<and> pool_inv (snd (pool_write m1 ?dst 0 data))
          \<and> sim_contents (inner (snd (pool_write m1 ?dst 0 data)))
              = (sim_contents (inner m1))(?dst \<mapsto> blit (replicate len 0) 0 data)"
          using al dl by (intro pool.write_ok) simp_all
        have cfg: "pool_cfg (snd (pool_write m1 ?dst 0 data)) = pool_cfg m"
          using granted(3) by (simp add: pool_write_def split_beta Let_def)
        obtain m2 where m2: "pool_write m1 ?dst 0 data = (Inr (), m2)"
          using wr by (cases "pool_write m1 ?dst 0 data") auto
        define ns where "ns = (if sk = Host \<and> k = Gpu then copy_latency_ns m2 len True
          else if sk = Gpu \<and> k = Host then copy_latency_ns m2 len False
          else fixed_copy_latency_ns (pool_cfg m2))"
        have "blit (replicate len 0) 0 data = data" using dl by (simp add: blit_def)
        moreover have "fixed_copy_latency_ns (pool_cfg m) \<le> ns"
          using cfg m2 by (simp add: ns_def copy_latency_ns_def Let_def)
        moreover have "pool_copy m src off len k = (Inr (?dst, ns), m2\<lparr>last_copy_ns := Some ns, copy_ops := copy_ops m2 + 1\<rparr>)"
          using kind Inr granted(1) m2 by (simp add: pool_copy_def ns_def Let_def)
        ultimately show ?thesis using al wr m2 bs
          by (intro copied) (auto simp: pool_inv_def)
      qed
    qed
  qed
qed

inductive pool_step :: "PooledMemory \<Rightarrow> PooledMemory \<Rightarrow> bool" where
  pool_step_alloc: "mem_fits (inner m) \<Longrightarrow> n < 2 ^ 64 \<Longrightarrow> pool_step m (snd (pool_allocate m n k))"
| pool_step_write: "pool_step m (snd (pool_write m i off d))"
| pool_step_free: "pool_step m (snd (pool_free m i))"
| pool_step_copy: "mem_fits (inner m) \<Longrightarrow> pool_step m (snd (pool_copy m i off n k))"

inductive pool_reachable :: "MemoryPoolConfig \<Rightarrow> PooledMemory \<Rightarrow> bool" for cfg where
  pool_start: "pool_reachable cfg (PooledMemory_new cfg)"
| pool_next: "pool_reachable cfg m \<Longrightarrow> pool_step m m' \<Longrightarrow> pool_reachable cfg m'"

lemma pool_step_inv: "pool_step m m' \<Longrightarrow> pool_inv m \<Longrightarrow> pool_inv m'"
proof (induction rule: pool_step.induct)
  case (pool_step_copy m i off n k)
  from pool_step_copy(2,1) show ?case
    by (cases rule: pool_copy_cases [of m i off n k]) (use pool_step_copy in auto)
qed (simp_all add: pool_inv_allocate pool_inv_write pool_inv_free)

lemma pool_copy_cfg: "pool_cfg (snd (pool_copy m i off n k)) = pool_cfg m"
  by (auto simp: pool_copy_def pool_write_def pool_allocate_def sim_allocate_def Let_def split_beta
      split: sum.split MemoryKind.split prod.split)

lemma pool_step_cfg: "pool_step m m' \<Longrightarrow> pool_cfg m' = pool_cfg m"
proof (induction rule: pool_step.induct)
  case (pool_step_copy m i off n k)
  then show ?case by (simp add: pool_copy_cfg)
qed (auto simp: pool_allocate_def sim_allocate_def pool_write_def pool_free_def Let_def split_beta
    split: MemoryKind.splits option.splits sum.splits prod.splits)

lemma pool_reachable_inv:
  assumes "host_pool_bytes cfg < 2 ^ 64 - 1" "gpu_pool_bytes cfg < 2 ^ 64 - 1"
  shows "pool_reachable cfg m \<Longrightarrow> pool_inv m \<and> pool_cfg m = cfg"
proof (induction rule: pool_reachable.induct)
  case pool_start
  then show ?case using assms
    by (simp add: PooledMemory_new_def pool_inv_def mem_inv_def SimMemory_new_def pool_table_def
        live_bytes_def live_count_def)
next
  case (pool_next m m')
  then show ?case using pool_step_inv pool_step_cfg by auto
qed

text \<open>
  C23: pool accounting.  For a pool whose limits are below the largest \<^verbatim>\<open>usize\<close>, after any sequence
  of allocations, writes, copies and frees the byte counters are exactly the sizes of the live
  buffers of their kind, the buffer count is the number of live buffers, and none exceeds its limit;
  an allocation is refused exactly when it would exceed one, and then changes nothing.
\<close>

theorem pool_accounting:
  assumes "pool_reachable cfg m" "host_pool_bytes cfg < 2 ^ 64 - 1" "gpu_pool_bytes cfg < 2 ^ 64 - 1"
  shows "host_used m = live_bytes Host (pool_table (inner m)) \<and> host_used m \<le> host_pool_bytes cfg
    \<and> gpu_used m = live_bytes Gpu (pool_table (inner m)) \<and> gpu_used m \<le> gpu_pool_bytes cfg
    \<and> buffer_count m = live_count (buffers (inner m)) \<and> buffer_count m \<le> max_buffers cfg
    \<and> (pool_allocate m n Host = (Inl PoolExhausted, m) \<longleftrightarrow>
         max_buffers cfg \<le> buffer_count m \<or> host_pool_bytes cfg < host_used m + n)
    \<and> (pool_allocate m n Gpu = (Inl PoolExhausted, m) \<longleftrightarrow>
         max_buffers cfg \<le> buffer_count m \<or> gpu_pool_bytes cfg < gpu_used m + n)"
proof -
  from pool_reachable_inv [OF assms(2,3,1)] have inv: "pool_inv m" and cfg: "pool_cfg m = cfg" by simp_all
  have host: "pool_allocate m n Host = (Inl PoolExhausted, m) \<longleftrightarrow>
      max_buffers cfg \<le> buffer_count m \<or> host_pool_bytes cfg < host_used m + n"
    using inv by (cases rule: pool_allocate_cases [of m n Host]) (auto simp: cfg)
  have gpu: "pool_allocate m n Gpu = (Inl PoolExhausted, m) \<longleftrightarrow>
      max_buffers cfg \<le> buffer_count m \<or> gpu_pool_bytes cfg < gpu_used m + n"
    using inv by (cases rule: pool_allocate_cases [of m n Gpu]) (auto simp: cfg)
  have "live_count (pool_table (inner m)) = live_count (buffers (inner m))"
    by (simp add: pool_table_def live_count_def filter_map comp_def)
  with inv cfg host gpu show ?thesis unfolding pool_inv_def by (elim conjE) simp
qed

definition sample_pool_config :: MemoryPoolConfig where
  "sample_pool_config = \<lparr>pool_version = ''1.0.0'', pool_id = ''mem-test'', host_pool_bytes = 64, gpu_pool_bytes = 64,
     max_buffers = 8, h2d_bandwidth_gbps = Fin 16, d2h_bandwidth_gbps = Fin 16, fixed_copy_latency_ns = 200\<rparr>"

definition sample_pool :: PooledMemory where
  "sample_pool = snd (pool_allocate (PooledMemory_new sample_pool_config) 32 Host)"

lemmas sample_pool_simps = sample_pool_def sample_pool_config_def PooledMemory_new_def SimMemory_new_def
  pool_allocate_def sim_allocate_def usat_add_def Let_def

lemma sample_pool_limits:
  "host_pool_bytes sample_pool_config < 2 ^ 64 - 1" "gpu_pool_bytes sample_pool_config < 2 ^ 64 - 1"
  by (simp_all add: sample_pool_config_def)

lemma sample_pool_reachable: "pool_reachable sample_pool_config sample_pool"
  unfolding sample_pool_def
  by (intro pool_next [OF _ pool_step_alloc] pool_start)
    (simp_all add: PooledMemory_new_def SimMemory_new_def mem_fits_def)

lemma sample_pool_inv: "pool_inv sample_pool"
  using pool_reachable_inv [OF sample_pool_limits sample_pool_reachable] by simp

lemma sample_pool_contents: "sim_contents (inner sample_pool) 0 = Some (replicate 32 0)"
  by (simp add: sample_pool_simps sim_contents_def get_buffer_def)

lemma sample_pool_fits: "mem_fits (inner sample_pool)"
  by (simp add: sample_pool_simps mem_fits_def)

theorem pool_accounting_witness:
  "host_used sample_pool = live_bytes Host (pool_table (inner sample_pool))
    \<and> host_used sample_pool \<le> host_pool_bytes sample_pool_config
    \<and> gpu_used sample_pool = live_bytes Gpu (pool_table (inner sample_pool))
    \<and> gpu_used sample_pool \<le> gpu_pool_bytes sample_pool_config
    \<and> buffer_count sample_pool = live_count (buffers (inner sample_pool))
    \<and> buffer_count sample_pool \<le> max_buffers sample_pool_config
    \<and> (pool_allocate sample_pool 64 Host = (Inl PoolExhausted, sample_pool) \<longleftrightarrow>
         max_buffers sample_pool_config \<le> buffer_count sample_pool
         \<or> host_pool_bytes sample_pool_config < host_used sample_pool + 64)
    \<and> (pool_allocate sample_pool 64 Gpu = (Inl PoolExhausted, sample_pool) \<longleftrightarrow>
         max_buffers sample_pool_config \<le> buffer_count sample_pool
         \<or> gpu_pool_bytes sample_pool_config < gpu_used sample_pool + 64)"
  by (rule pool_accounting [OF sample_pool_reachable sample_pool_limits])

text \<open>The pool hands its calls to the memory under it, so an identifier it has given back stays dead there.\<close>

definition pool_refuses :: "PooledMemory \<Rightarrow> BufferId \<Rightarrow> bool" where
  "pool_refuses m i \<longleftrightarrow>
     (\<forall>off n. pool_read m i off n = Inl (NotFound i)) \<and> (\<forall>off d. pool_write m i off d = (Inl (NotFound i), m))
     \<and> pool_free m i = (Inl (NotFound i), m) \<and> (\<forall>off n k. pool_copy m i off n k = (Inl (NotFound i), m))"

lemma pool_inner_dead:
  assumes "dead_id (inner m) i"
  shows "dead_id (inner (snd (pool_allocate m n k))) i" "dead_id (inner (snd (pool_write m j off d))) i"
    "dead_id (inner (snd (pool_free m j))) i"
  using dead_id_alloc [OF assms, of n k] dead_id_write [OF assms, of j off d] dead_id_free [OF assms, of j] assms
  by (auto simp: pool_allocate_def pool_write_def pool_free_def Let_def split: MemoryKind.split option.split sum.split prod.split)

lemma pool_copy_dead: "dead_id (inner m) i \<Longrightarrow> dead_id (inner (snd (pool_copy m j off n k))) i"
  using pool_inner_dead(1) [of m i n k] pool_inner_dead(2) [of "snd (pool_allocate m n k)" i]
  by (auto simp: pool_copy_def Let_def split_beta split: sum.split)

interpretation pool_history: memory_history pool_allocate pool_write pool_read pool_free
  "\<lambda>m. sim_contents (inner m)" pool_inv "\<lambda>m. mem_fits (inner m)" pool_step "\<lambda>m. dead_id (inner m)" pool_refuses
proof unfold_locales
  fix s s' :: PooledMemory
  assume "pool_inv s" "pool_step s s'"
  then show "pool_inv s'" using pool_step_inv by blast
next
  fix s s' :: PooledMemory and i
  assume "pool_step s s'" "dead_id (inner s) i"
  then show "dead_id (inner s') i"
    by (cases rule: pool_step.cases) (auto simp: pool_inner_dead pool_copy_dead simp del: split_paired_All)
next
  fix s s' :: PooledMemory and i
  assume "pool_free s i = (Inr (), s')"
  then show "dead_id (inner s') i" using sim_free_dead [of "inner s" i]
    by (auto simp: pool_free_def Let_def split: option.splits sum.splits prod.splits MemoryKind.splits)
next
  fix s :: PooledMemory and i
  assume "pool_inv s" "dead_id (inner s) i"
  then show "pool_refuses s i" using dead_id_buffer [of "inner s" i]
    by (auto simp: pool_refuses_def pool_read_def sim_read_def pool_write_def sim_write_def pool_copy_def kind_of_def pool_free_absent)
qed

text \<open>
  C24: memory is memory, for the pool and for the simulated memory under it.  In every state that calls of the interface
  can reach (for the pool with limits below the largest \<^verbatim>\<open>usize\<close>, and with fewer than 2 to the 64 allocations): a
  successful write is read back exactly and changes neither another buffer nor a disjoint range of the same one; a failed
  write changes nothing; a free changes no other buffer; and once a buffer is freed, every later use of its identifier,
  whatever was called in between, is refused as not found and leaves the memory alone: read, write, a second free, and
  for the pool a copy, for the memory the question for its kind.
\<close>

theorem memory_write_read_free:
  assumes "pool_reachable cfg m" "host_pool_bytes cfg < 2 ^ 64 - 1" "gpu_pool_bytes cfg < 2 ^ 64 - 1" "mem_reachable sm"
  shows "behaves_as_memory pool_step pool_refuses pool_write pool_read pool_free m
    \<and> behaves_as_memory mem_step mem_refuses sim_write sim_read sim_free sm"
  using pool_history.behaves pool_reachable_inv [OF assms(2,3,1)] mem_history.behaves [OF mem_reachable_inv [OF assms(4)]] by blast

lemma sample_mem_reachable: "mem_reachable (snd (sim_allocate SimMemory_new 32 Host))"
  by (intro mem_next [OF _ mem_step_alloc] mem_start) (simp_all add: SimMemory_new_def mem_fits_def)

theorem memory_write_read_free_witness:
  "behaves_as_memory pool_step pool_refuses pool_write pool_read pool_free sample_pool
    \<and> behaves_as_memory mem_step mem_refuses sim_write sim_read sim_free (snd (sim_allocate SimMemory_new 32 Host))"
  by (rule memory_write_read_free [OF sample_pool_reachable sample_pool_limits sample_mem_reachable])

text \<open>
  A copy is all or nothing.  It either fails and leaves the pool as it was, counters included,
  or it creates a new buffer that holds exactly the requested range of the source, leaves every
  other buffer as it was and charges at least the fixed latency.
\<close>

theorem copy_all_or_nothing:
  assumes "pool_inv m" "mem_fits (inner m)"
  shows "(case pool_copy m src off len k of
      (Inl e, m') \<Rightarrow> m' = m
    | (Inr (dst, ns), m') \<Rightarrow>
        pool_read m' dst 0 len = pool_read m src off len
        \<and> sim_contents (inner m) dst = None
        \<and> (\<forall>j. j \<noteq> dst \<longrightarrow> sim_contents (inner m') j = sim_contents (inner m) j)
        \<and> last_copy_ns m' = Some ns \<and> fixed_copy_latency_ns (pool_cfg m) \<le> ns)"
  using assms
proof (cases rule: pool_copy_cases [of m src off len k])
  case (copied dst ns m' bs)
  have "sim_contents (inner m') dst = Some (subslice bs off (off + len))" using copied(6) by simp
  from pool.read_ok [OF copied(2) this, of 0 len] copied(4)
  have "pool_read m' dst 0 len = Inr (subslice bs off (off + len))"
    by (simp add: subslice_def)
  then show ?thesis using copied pool.read_ok [OF assms(1) copied(3,4)] by simp
qed simp

theorem copy_all_or_nothing_witness:
  "(case pool_copy sample_pool 0 0 32 Gpu of
      (Inl e, m') \<Rightarrow> m' = sample_pool
    | (Inr (dst, ns), m') \<Rightarrow>
        pool_read m' dst 0 32 = pool_read sample_pool 0 0 32
        \<and> sim_contents (inner sample_pool) dst = None
        \<and> sim_contents (inner m') (dst + 1) = sim_contents (inner sample_pool) (dst + 1)
        \<and> last_copy_ns m' = Some ns \<and> fixed_copy_latency_ns (pool_cfg sample_pool) \<le> ns)"
  using copy_all_or_nothing [OF sample_pool_inv sample_pool_fits, of 32 0 0 Gpu]
  by (auto split: sum.splits prod.splits) (metis add_cancel_left_right zero_neq_one)

end
