(* ===== verification/Gpu_Ring.thy ===== *)
theory Gpu_Ring
  imports Aether_Types Rust_Strings
begin

text \<open>
  The crate \<^verbatim>\<open>gpu-runtime\<close>: the slot state machine of the GPU ring (\<^verbatim>\<open>ring.rs\<close>) and the
  simulated GPU back end (\<^verbatim>\<open>lib.rs\<close>).  A \<^verbatim>\<open>Duration\<close> is its number of nanoseconds; sleeping for
  it has no effect on the state.
\<close>

section \<open>Definitions\<close>

type_synonym GpuBufferId = u64

datatype BufferState = Free | Receiving | Ready | Processing | Done

datatype GpuError =
    GpuNotFound GpuBufferId
  | RingFull
  | InvalidTransition BufferState BufferState
  | NoSlot BufferState
  | GpuConfigError string
  | PayloadTooLarge

fun show_BufferState :: "BufferState \<Rightarrow> string" where
  "show_BufferState Free = ''Free''"
| "show_BufferState Receiving = ''Receiving''"
| "show_BufferState Ready = ''Ready''"
| "show_BufferState Processing = ''Processing''"
| "show_BufferState Done = ''Done''"

fun show_GpuError :: "GpuError \<Rightarrow> string" where
  "show_GpuError (GpuNotFound i) = ''gpu buffer not found: '' @ show_nat (unat i)"
| "show_GpuError RingFull = ''ring full''"
| "show_GpuError (InvalidTransition a b) =
     ''invalid buffer state transition: '' @ show_BufferState a @ '' -> '' @ show_BufferState b"
| "show_GpuError (NoSlot s) = ''no slot in state '' @ show_BufferState s"
| "show_GpuError (GpuConfigError e) = show_config_error e"
| "show_GpuError PayloadTooLarge = ''payload exceeds slot capacity''"

subsection \<open>The simulated GPU\<close>

record SimGpu =
  gpu_next_id :: GpuBufferId
  gpu_buffers :: "usize list"
  last_delay :: "nat option"
  real_sleep :: bool

definition SimGpu_new :: SimGpu where
  "SimGpu_new = \<lparr>gpu_next_id = 0, gpu_buffers = [], last_delay = None, real_sleep = False\<rparr>"

definition allocate_buffer :: "SimGpu \<Rightarrow> usize \<Rightarrow> (GpuError, GpuBufferId, SimGpu) outcome" where
  "allocate_buffer g n =
     (Inr (gpu_next_id g), g\<lparr>gpu_next_id := gpu_next_id g + 1, gpu_buffers := gpu_buffers g @ [n]\<rparr>)"

definition launch_kernel :: "SimGpu \<Rightarrow> GpuBufferId \<Rightarrow> nat \<Rightarrow> (GpuError, unit, SimGpu) outcome" where
  "launch_kernel g b delay =
     (if \<not> unat b < length (gpu_buffers g) then (Inl (GpuNotFound b), g)
      else (Inr (), g\<lparr>last_delay := Some delay\<rparr>))"

definition gpu_sync :: "SimGpu \<Rightarrow> (GpuError, unit, SimGpu) outcome" where
  "gpu_sync g = (Inr (), g)"

subsection \<open>The ring\<close>

record GpuRingConfig =
  gr_version :: string
  gr_id :: string
  slot_count :: usize
  cfg_slot_bytes :: usize
  gr_kernel_delay_us :: f64

definition GpuRingConfig_from_yaml_str ::
    "(string \<Rightarrow> string + GpuRingConfig) \<Rightarrow> string \<Rightarrow> GpuError + GpuRingConfig" where
  "GpuRingConfig_from_yaml_str yaml_parse s = map_err GpuConfigError (yaml_parse s)"

definition cfg_kernel_delay_ns :: "GpuRingConfig \<Rightarrow> u64" where
  "cfg_kernel_delay_ns cfg = f_to_u64 (f64_mul (gr_kernel_delay_us cfg) (f64_lit 1000))"

record RingSlot =
  slot_state :: BufferState
  slot_payload :: "u8 list"
  arrive_ns :: u64
  done_ns :: u64

definition RingSlot_empty :: RingSlot where
  "RingSlot_empty = \<lparr>slot_state = Free, slot_payload = [], arrive_ns = 0, done_ns = 0\<rparr>"

record GpuRingBuffer =
  slots :: "RingSlot list"
  slot_bytes :: usize
  ring_kernel_delay_ns :: u64

definition GpuRingBuffer_new :: "GpuRingConfig \<Rightarrow> GpuRingBuffer" where
  "GpuRingBuffer_new cfg =
     \<lparr>slots = map (\<lambda>_. RingSlot_empty) [0..<slot_count cfg], slot_bytes = cfg_slot_bytes cfg,
      ring_kernel_delay_ns = cfg_kernel_delay_ns cfg\<rparr>"

definition GpuRingBuffer_from_yaml ::
    "(string \<Rightarrow> string + GpuRingConfig) \<Rightarrow> string \<Rightarrow> GpuError + GpuRingBuffer" where
  "GpuRingBuffer_from_yaml yaml_parse yaml =
     (case GpuRingConfig_from_yaml_str yaml_parse yaml of Inl e \<Rightarrow> Inl e | Inr cfg \<Rightarrow> Inr (GpuRingBuffer_new cfg))"

definition find_state :: "GpuRingBuffer \<Rightarrow> BufferState \<Rightarrow> usize option" where
  "find_state r st = position (\<lambda>s. slot_state s = st) (slots r)"

fun legal :: "BufferState \<Rightarrow> BufferState \<Rightarrow> bool" where
  "legal Free Receiving = True"
| "legal Receiving Ready = True"
| "legal Ready Processing = True"
| "legal Processing Done = True"
| "legal Done Free = True"
| "legal _ _ = False"

definition transition :: "RingSlot \<Rightarrow> BufferState \<Rightarrow> (GpuError, unit, RingSlot) outcome" where
  "transition s to_state =
     (if \<not> legal (slot_state s) to_state then (Inl (InvalidTransition (slot_state s) to_state), s)
      else (Inr (), s\<lparr>slot_state := to_state\<rparr>))"

abbreviation set_slot :: "GpuRingBuffer \<Rightarrow> nat \<Rightarrow> RingSlot \<Rightarrow> GpuRingBuffer" where
  "set_slot r i s \<equiv> r\<lparr>slots := (slots r)[i := s]\<rparr>"

definition begin_receive :: "GpuRingBuffer \<Rightarrow> u64 \<Rightarrow> (GpuError, usize, GpuRingBuffer) outcome" where
  "begin_receive r arrive =
     (case find_state r Free of
        None \<Rightarrow> (Inl RingFull, r)
      | Some i \<Rightarrow>
          (case transition (slots r ! i) Receiving of
             (Inl e, s) \<Rightarrow> (Inl e, set_slot r i s)
           | (Inr _, s) \<Rightarrow> (Inr i, set_slot r i (s\<lparr>arrive_ns := arrive, done_ns := 0, slot_payload := []\<rparr>))))"

definition complete_receive :: "GpuRingBuffer \<Rightarrow> usize \<Rightarrow> u8 list \<Rightarrow> (GpuError, unit, GpuRingBuffer) outcome" where
  "complete_receive r i data =
     (if \<not> i < length (slots r) then (Inl (NoSlot Receiving), r)
      else
        let s = slots r ! i in
        if slot_state s \<noteq> Receiving then (Inl (InvalidTransition (slot_state s) Ready), r)
        else if slot_bytes r < length data then (Inl PayloadTooLarge, r)
        else (case transition (s\<lparr>slot_payload := data\<rparr>) Ready of (res, s) \<Rightarrow> (res, set_slot r i s)))"

definition begin_process :: "GpuRingBuffer \<Rightarrow> u64 \<Rightarrow> (GpuError, usize \<times> u64, GpuRingBuffer) outcome" where
  "begin_process r now =
     (case find_state r Ready of
        None \<Rightarrow> (Inl (NoSlot Ready), r)
      | Some i \<Rightarrow>
          (case transition (slots r ! i) Processing of
             (Inl e, s) \<Rightarrow> (Inl e, set_slot r i s)
           | (Inr _, s) \<Rightarrow> (Inr (i, sat_add now (ring_kernel_delay_ns r)), set_slot r i s)))"

definition complete_process :: "GpuRingBuffer \<Rightarrow> usize \<Rightarrow> u64 \<Rightarrow> (GpuError, u64, GpuRingBuffer) outcome" where
  "complete_process r i done_at =
     (if \<not> i < length (slots r) then (Inl (NoSlot Processing), r)
      else
        let s = slots r ! i in
        if slot_state s \<noteq> Processing then (Inl (InvalidTransition (slot_state s) Done), r)
        else
          let s = s\<lparr>done_ns := done_at\<rparr>;
              latency = sat_sub done_at (arrive_ns s)
          in (case transition s Done of
                (Inl e, s) \<Rightarrow> (Inl e, set_slot r i s)
              | (Inr _, s) \<Rightarrow> (Inr latency, set_slot r i s)))"

definition release :: "GpuRingBuffer \<Rightarrow> usize \<Rightarrow> (GpuError, unit, GpuRingBuffer) outcome" where
  "release r i =
     (if \<not> i < length (slots r) then (Inl (NoSlot Done), r)
      else
        let s = slots r ! i in
        if slot_state s \<noteq> Done then (Inl (InvalidTransition (slot_state s) Free), r)
        else (case transition (s\<lparr>slot_payload := []\<rparr>) Free of (res, s) \<Rightarrow> (res, set_slot r i s)))"

definition process_packet :: "GpuRingBuffer \<Rightarrow> u8 list \<Rightarrow> u64 \<Rightarrow> (GpuError, u64, GpuRingBuffer) outcome" where
  "process_packet r data arrive =
     (case begin_receive r arrive of
        (Inl e, r) \<Rightarrow> (Inl e, r)
      | (Inr i, r) \<Rightarrow>
          (case complete_receive r i data of
             (Inl e, r) \<Rightarrow> (Inl e, r)
           | (Inr _, r) \<Rightarrow>
               (case begin_process r arrive of
                  (Inl e, r) \<Rightarrow> (Inl e, r)
                | (Inr (i, done_at), r) \<Rightarrow>
                    (case complete_process r i done_at of
                       (Inl e, r) \<Rightarrow> (Inl e, r)
                     | (Inr latency, r) \<Rightarrow>
                         (case release r i of
                            (Inl e, r) \<Rightarrow> (Inl e, r)
                          | (Inr _, r) \<Rightarrow> (Inr latency, r))))))"

definition count_state :: "GpuRingBuffer \<Rightarrow> BufferState \<Rightarrow> usize" where
  "count_state r st = length (filter (\<lambda>s. slot_state s = st) (slots r))"

definition occupied :: "GpuRingBuffer \<Rightarrow> usize" where
  "occupied r = length (filter (\<lambda>s. slot_state s \<noteq> Free) (slots r))"

section \<open>One step of a slot\<close>

lemma find_state_SomeD:
  assumes "find_state r st = Some i"
  shows "i < length (slots r)" "slot_state (slots r ! i) = st" "\<And>j. j < i \<Longrightarrow> slot_state (slots r ! j) \<noteq> st"
  using assms by (simp_all add: find_state_def position_Some_iff)

lemma find_state_None: "find_state r st = None \<longleftrightarrow> count_state r st = 0"
  by (simp add: find_state_def position_None_iff count_state_def filter_empty_conv)

text \<open>
  What any of the five operations does to the ring: nothing, or one slot moves one step along its
  cycle and keeps a payload that fits.
\<close>

definition slot_step :: "GpuRingBuffer \<Rightarrow> GpuRingBuffer \<Rightarrow> bool" where
  "slot_step r r' \<longleftrightarrow>
     r' = r \<or>
     (\<exists>i s. i < length (slots r) \<and> r' = set_slot r i s \<and> legal (slot_state (slots r ! i)) (slot_state s)
        \<and> (length (slot_payload s) \<le> slot_bytes r \<or> slot_payload s = slot_payload (slots r ! i))
        \<and> (slot_state s = Free \<longrightarrow> slot_payload s = []))"

lemma slot_stepI:
  "i < length (slots r) \<Longrightarrow> legal (slot_state (slots r ! i)) (slot_state s) \<Longrightarrow>
     length (slot_payload s) \<le> slot_bytes r \<or> slot_payload s = slot_payload (slots r ! i) \<Longrightarrow>
     (slot_state s = Free \<Longrightarrow> slot_payload s = []) \<Longrightarrow> slot_step r (set_slot r i s)"
  unfolding slot_step_def by blast

lemma begin_receive_step: "slot_step r (snd (begin_receive r t))"
proof (cases "find_state r Free")
  case None
  then show ?thesis by (simp add: begin_receive_def slot_step_def)
next
  case (Some i)
  with find_state_SomeD [OF this] show ?thesis
    by (auto simp: begin_receive_def transition_def intro!: slot_stepI)
qed

lemma complete_receive_step: "slot_step r (snd (complete_receive r i d))"
  by (auto simp: complete_receive_def transition_def Let_def slot_step_def intro!: exI [of _ i])

lemma begin_process_step: "slot_step r (snd (begin_process r t))"
proof (cases "find_state r Ready")
  case None
  then show ?thesis by (simp add: begin_process_def slot_step_def)
next
  case (Some i)
  with find_state_SomeD [OF this] show ?thesis
    by (auto simp: begin_process_def transition_def intro!: slot_stepI)
qed

lemma complete_process_step: "slot_step r (snd (complete_process r i t))"
  by (auto simp: complete_process_def transition_def Let_def slot_step_def intro!: exI [of _ i])

lemma release_step: "slot_step r (snd (release r i))"
  by (auto simp: release_def transition_def Let_def slot_step_def intro!: exI [of _ i])

lemmas ring_op_steps = begin_receive_step complete_receive_step begin_process_step complete_process_step release_step

section \<open>Reachable rings\<close>

inductive ring_reachable :: "GpuRingConfig \<Rightarrow> GpuRingBuffer \<Rightarrow> bool" for cfg where
  ring_new: "ring_reachable cfg (GpuRingBuffer_new cfg)"
| ring_begin_receive: "ring_reachable cfg r \<Longrightarrow> ring_reachable cfg (snd (begin_receive r t))"
| ring_complete_receive: "ring_reachable cfg r \<Longrightarrow> ring_reachable cfg (snd (complete_receive r i d))"
| ring_begin_process: "ring_reachable cfg r \<Longrightarrow> ring_reachable cfg (snd (begin_process r t))"
| ring_complete_process: "ring_reachable cfg r \<Longrightarrow> ring_reachable cfg (snd (complete_process r i t))"
| ring_release: "ring_reachable cfg r \<Longrightarrow> ring_reachable cfg (snd (release r i))"
| ring_process: "ring_reachable cfg r \<Longrightarrow> ring_reachable cfg (snd (process_packet r d t))"

definition ring_inv :: "GpuRingConfig \<Rightarrow> GpuRingBuffer \<Rightarrow> bool" where
  "ring_inv cfg r \<longleftrightarrow>
     length (slots r) = slot_count cfg \<and> slot_bytes r = cfg_slot_bytes cfg
     \<and> ring_kernel_delay_ns r = cfg_kernel_delay_ns cfg
     \<and> (\<forall>s\<in>set (slots r). length (slot_payload s) \<le> slot_bytes r \<and> (slot_state s = Free \<longrightarrow> slot_payload s = []))"

lemma ring_inv_step:
  assumes "slot_step r r'" "ring_inv cfg r"
  shows "ring_inv cfg r'"
proof (cases "r' = r")
  case False
  then obtain i s where i: "i < length (slots r)" "r' = set_slot r i s"
      "length (slot_payload s) \<le> slot_bytes r \<or> slot_payload s = slot_payload (slots r ! i)"
      "slot_state s = Free \<Longrightarrow> slot_payload s = []"
    using assms(1) unfolding slot_step_def by blast
  have "slots r ! i \<in> set (slots r)" using i(1) by simp
  then have "length (slot_payload s) \<le> slot_bytes r" using i(3) assms(2) by (auto simp: ring_inv_def)
  then show ?thesis using assms(2) i(2,4)
    by (auto simp: ring_inv_def dest!: set_update_subset_insert [THEN subsetD])
qed (use assms(2) in simp)

lemma process_packet_inv:
  assumes "ring_inv cfg r"
  shows "ring_inv cfg (snd (process_packet r d t))"
proof -
  note st = ring_op_steps [THEN ring_inv_step]
  obtain a1 r1 where 1: "begin_receive r t = (a1, r1)" by fastforce
  then have i1: "ring_inv cfg r1" using st(1) [OF assms, of t] by simp
  show ?thesis
  proof (cases a1)
    case (Inl e)
    with 1 i1 show ?thesis by (simp add: process_packet_def)
  next
    case n1: (Inr i)
    obtain a2 r2 where 2: "complete_receive r1 i d = (a2, r2)" by fastforce
    then have i2: "ring_inv cfg r2" using st(2) [OF i1, of i d] by simp
    obtain a3 r3 where 3: "begin_process r2 t = (a3, r3)" by fastforce
    then have i3: "ring_inv cfg r3" using st(3) [OF i2, of t] by simp
    have i4: "ring_inv cfg (snd (complete_process r3 j x))" for j x using st(4) [OF i3] .
    have i5: "ring_inv cfg (snd (release r' j))" if "ring_inv cfg r'" for r' j using st(5) [OF that] .
    show ?thesis using 1 n1 2 3 i2 i3 i4 i5
      by (auto simp: process_packet_def split: sum.split prod.split) (metis snd_conv)+
  qed
qed

lemma ring_inv_new: "ring_inv cfg (GpuRingBuffer_new cfg)"
  by (auto simp: ring_inv_def GpuRingBuffer_new_def RingSlot_empty_def)

lemma ring_reachable_inv: "ring_reachable cfg r \<Longrightarrow> ring_inv cfg r"
  by (induction rule: ring_reachable.induct)
    (auto intro: ring_inv_new process_packet_inv ring_inv_step ring_op_steps)

text \<open>
  C22: the ring's invariant.  Whatever operations are called, in whatever order and with whatever
  slot numbers, the number of slots is the configured one, every stored payload fits its slot, a
  free slot is empty, and the occupancy the metrics read is the number of slots that are not free.
\<close>

theorem ring_invariant:
  assumes "ring_reachable cfg r"
  shows "length (slots r) = slot_count cfg
    \<and> (\<forall>s\<in>set (slots r). length (slot_payload s) \<le> cfg_slot_bytes cfg)
    \<and> (\<forall>s\<in>set (slots r). slot_state s = Free \<longrightarrow> slot_payload s = [])
    \<and> occupied r + count_state r Free = slot_count cfg"
  using ring_reachable_inv [OF assms] sum_length_filter_compl [of "\<lambda>s. slot_state s = Free" "slots r"]
  by (auto simp: ring_inv_def occupied_def count_state_def)

definition sample_ring_config :: GpuRingConfig where
  "sample_ring_config = \<lparr>gr_version = ''1.0.0'', gr_id = ''gpu-ring-default'', slot_count = 4, cfg_slot_bytes = 256,
     gr_kernel_delay_us = Fin 2\<rparr>"

definition sample_ring :: GpuRingBuffer where
  "sample_ring = snd (begin_receive (GpuRingBuffer_new sample_ring_config) 0)"

lemma sample_ring_reachable: "ring_reachable sample_ring_config sample_ring"
  unfolding sample_ring_def by (intro ring_begin_receive ring_new)

theorem ring_invariant_witness:
  "length (slots sample_ring) = slot_count sample_ring_config
    \<and> list_all (\<lambda>s. length (slot_payload s) \<le> cfg_slot_bytes sample_ring_config) (slots sample_ring)
    \<and> list_all (\<lambda>s. slot_payload s = []) (filter (\<lambda>s. slot_state s = Free) (slots sample_ring))
    \<and> occupied sample_ring + count_state sample_ring Free = slot_count sample_ring_config"
  using ring_invariant [OF sample_ring_reachable] by (simp add: list_all_iff)

section \<open>Processing a packet\<close>

lemma find_state_update:
  assumes "i < length (slots r)" "slot_state s = st" "count_state r st = 0"
  shows "find_state (set_slot r i s) st = Some i"
proof -
  have "slot_state (slots r ! j) \<noteq> st" if "j < i" for j
    using assms(1,3) that by (auto simp: count_state_def filter_empty_conv)
  with assms(1,2) show ?thesis by (simp add: find_state_def position_Some_iff)
qed

lemma begin_receive_ok:
  assumes "find_state r Free = Some i"
  shows "begin_receive r t = (Inr i, set_slot r i
    ((slots r ! i)\<lparr>slot_state := Receiving, arrive_ns := t, done_ns := 0, slot_payload := []\<rparr>))"
  using find_state_SomeD [OF assms] assms by (simp add: begin_receive_def transition_def)

text \<open>The opened slot takes a payload that fits and is the one that is processed next.\<close>

lemma opened_slot:
  fixes r i t d
  defines "s1 \<equiv> (slots r ! i)\<lparr>slot_state := Receiving, arrive_ns := t, done_ns := 0, slot_payload := []\<rparr>"
  defines "s2 \<equiv> (slots r ! i)\<lparr>arrive_ns := t, done_ns := 0, slot_payload := d, slot_state := Ready\<rparr>"
  assumes "find_state r Free = Some i" "count_state r Ready = 0" "length d \<le> slot_bytes r"
  shows "begin_receive r t = (Inr i, set_slot r i s1)"
    "complete_receive (set_slot r i s1) i d = (Inr (), set_slot r i s2)"
    "begin_process (set_slot r i s2) t' = (Inr (i, sat_add t' (ring_kernel_delay_ns r)), set_slot r i (s2\<lparr>slot_state := Processing\<rparr>))"
proof -
  note i = find_state_SomeD(1) [OF assms(3)]
  show "begin_receive r t = (Inr i, set_slot r i s1)"
    using begin_receive_ok [OF assms(3)] by (simp add: s1_def)
  show "complete_receive (set_slot r i s1) i d = (Inr (), set_slot r i s2)"
    using i assms(5) by (simp add: complete_receive_def transition_def s1_def s2_def)
  show "begin_process (set_slot r i s2) t' = (Inr (i, sat_add t' (ring_kernel_delay_ns r)), set_slot r i (s2\<lparr>slot_state := Processing\<rparr>))"
    using i find_state_update [OF i _ assms(4), of s2] by (simp add: begin_process_def transition_def s2_def)
qed

lemma process_packet_ok:
  assumes "find_state r Free = Some i" "count_state r Ready = 0" "length d \<le> slot_bytes r"
  shows "process_packet r d t = (Inr (sat_sub (sat_add t (ring_kernel_delay_ns r)) t), set_slot r i
    ((slots r ! i)\<lparr>arrive_ns := t, done_ns := sat_add t (ring_kernel_delay_ns r), slot_payload := [], slot_state := Free\<rparr>))"
  using find_state_SomeD(1) [OF assms(1)]
  by (simp add: process_packet_def opened_slot [OF assms] complete_process_def release_def transition_def Let_def)

lemma process_packet_oversized:
  assumes "find_state r Free = Some i" "slot_bytes r < length d"
  shows "process_packet r d t = (Inl PayloadTooLarge, set_slot r i
    ((slots r ! i)\<lparr>slot_state := Receiving, arrive_ns := t, done_ns := 0, slot_payload := []\<rparr>))"
  using find_state_SomeD [OF assms(1)] assms(2)
  by (simp add: process_packet_def begin_receive_ok [OF assms(1)] complete_receive_def)

lemma process_packet_full: "count_state r Free = 0 \<Longrightarrow> process_packet r d t = (Inl RingFull, r)"
  by (simp add: process_packet_def begin_receive_def find_state_None [symmetric])

lemma count_update:
  assumes "i < length (slots r)" "slot_state (slots r ! i) = a" "slot_state s = b" "a \<noteq> b"
  shows "count_state (set_slot r i s) a = count_state r a - 1"
    "c \<noteq> a \<Longrightarrow> c \<noteq> b \<Longrightarrow> count_state (set_slot r i s) c = count_state r c"
proof -
  have split: "slots r = take i (slots r) @ slots r ! i # drop (Suc i) (slots r)"
    using assms(1) by (rule id_take_nth_drop)
  have upd: "slots (set_slot r i s) = take i (slots r) @ s # drop (Suc i) (slots r)"
    using assms(1) by (simp add: upd_conv_take_nth_drop)
  have "length (filter P (slots (set_slot r i s))) + (if P (slots r ! i) then 1 else 0)
      = length (filter P (slots r)) + (if P s then 1 else 0)" for P
    unfolding upd by (subst (2) split) simp
  from this [of "\<lambda>s. slot_state s = a"] this [of "\<lambda>s. slot_state s = c"]
  show "count_state (set_slot r i s) a = count_state r a - 1"
    "c \<noteq> a \<Longrightarrow> c \<noteq> b \<Longrightarrow> count_state (set_slot r i s) c = count_state r c"
    using assms by (simp_all add: count_state_def)
qed

lemma open_slot_counts:
  assumes "find_state r Free = Some i" "slot_state s = Receiving"
  shows "count_state (set_slot r i s) Free = count_state r Free - 1"
    "count_state (set_slot r i s) Ready = count_state r Ready"
  using find_state_SomeD [OF assms(1)] assms(2) count_update [of i r Free s Receiving] by simp_all

lemma unat_latency: "unat (sat_sub (sat_add t k) t) = min (unat k) (2 ^ 64 - 1 - unat (t :: u64))"
  by (simp add: unat_sat_sub unat_sat_add)

text \<open>
  C21: processing one packet, on every branch.  With no slot left in the ready state by another
  caller, a packet that fits runs through the whole cycle of one slot: the latency is the kernel
  delay (unless the clock saturates) and every slot is back in the state it had.  A full ring is
  reported and left alone.  A packet that does not fit is reported too, but the slot that was opened
  for it is neither free nor ready afterwards, so one free slot is lost.
\<close>

theorem process_packet_verdict:
  assumes "count_state r Ready = 0"
  shows "(case process_packet r d t of
      (Inr latency, r') \<Rightarrow>
        0 < count_state r Free \<and> length d \<le> slot_bytes r
        \<and> unat latency = min (unat (ring_kernel_delay_ns r)) (2 ^ 64 - 1 - unat t)
        \<and> map slot_state (slots r') = map slot_state (slots r)
    | (Inl RingFull, r') \<Rightarrow> count_state r Free = 0 \<and> r' = r
    | (Inl PayloadTooLarge, r') \<Rightarrow>
        slot_bytes r < length d \<and> count_state r' Free + 1 = count_state r Free
        \<and> count_state r' Ready = 0
    | (Inl _, _) \<Rightarrow> False)"
proof (cases "find_state r Free")
  case None
  then have "count_state r Free = 0" by (simp add: find_state_None)
  then show ?thesis by (simp add: process_packet_full)
next
  case (Some i)
  note i = find_state_SomeD [OF Some]
  have free: "0 < count_state r Free" using Some find_state_None [of r Free] by auto
  show ?thesis
  proof (cases "length d \<le> slot_bytes r")
    case True
    have "map slot_state ((slots r)[i := s]) = map slot_state (slots r)" if "slot_state s = Free" for s
      using i(1,2) that by (simp add: map_update list_update_same_conv)
    then show ?thesis using True free by (simp add: process_packet_ok [OF Some assms True] unat_latency)
  next
    case False
    then have lt: "slot_bytes r < length d" by simp
    show ?thesis using lt free assms
      by (simp add: process_packet_oversized [OF Some lt] open_slot_counts [OF Some])
  qed
qed

theorem process_packet_verdict_witness:
  "(case process_packet (GpuRingBuffer_new sample_ring_config) [1, 2, 3] 100 of
      (Inr latency, r') \<Rightarrow>
        0 < count_state (GpuRingBuffer_new sample_ring_config) Free
        \<and> length [1 :: u8, 2, 3] \<le> slot_bytes (GpuRingBuffer_new sample_ring_config)
        \<and> unat latency = min (unat (ring_kernel_delay_ns (GpuRingBuffer_new sample_ring_config))) (2 ^ 64 - 1 - unat (100 :: u64))
        \<and> map slot_state (slots r') = map slot_state (slots (GpuRingBuffer_new sample_ring_config))
    | (Inl RingFull, r') \<Rightarrow> count_state (GpuRingBuffer_new sample_ring_config) Free = 0
        \<and> r' = GpuRingBuffer_new sample_ring_config
    | (Inl PayloadTooLarge, r') \<Rightarrow>
        slot_bytes (GpuRingBuffer_new sample_ring_config) < length [1 :: u8, 2, 3]
        \<and> count_state r' Free + 1 = count_state (GpuRingBuffer_new sample_ring_config) Free
        \<and> count_state r' Ready = 0
    | (Inl _, _) \<Rightarrow> False)"
  by (rule process_packet_verdict) (simp add: count_state_def GpuRingBuffer_new_def RingSlot_empty_def)

lemma process_oversized_count:
  assumes "slot_bytes r < length d" "count_state r Ready = 0"
  shows "count_state (snd (process_packet r d t)) Free = count_state r Free - 1"
    "count_state (snd (process_packet r d t)) Ready = 0"
    "slot_bytes (snd (process_packet r d t)) = slot_bytes r"
proof -
  show "count_state (snd (process_packet r d t)) Free = count_state r Free - 1"
    using assms process_packet_full [of r d t] find_state_None [of r Free]
    by (cases "find_state r Free") (simp_all add: process_packet_oversized open_slot_counts)
  show "count_state (snd (process_packet r d t)) Ready = 0"
    using assms process_packet_full [of r d t] find_state_None [of r Free]
    by (cases "find_state r Free") (simp_all add: process_packet_oversized open_slot_counts)
  show "slot_bytes (snd (process_packet r d t)) = slot_bytes r"
    using assms process_packet_full [of r d t] find_state_None [of r Free]
    by (cases "find_state r Free") (simp_all add: process_packet_oversized)
qed

text \<open>
  C40: oversized packets use up the ring.  After as many packets that do not fit as the ring has
  free slots, every later packet is refused as if the ring were full, even one that would fit.
\<close>

theorem oversized_packets_exhaust_ring:
  assumes "count_state r Ready = 0" "\<forall>d\<in>set ds. slot_bytes r < length d" "count_state r Free \<le> length ds"
  shows "fst (process_packet (foldl (\<lambda>r d. snd (process_packet r d t)) r ds) d' t') = Inl RingFull"
  using assms
proof (induction ds arbitrary: r)
  case Nil
  then show ?case by (simp add: process_packet_full)
next
  case (Cons d ds)
  then have "slot_bytes r < length d" by simp
  note step = process_oversized_count [OF this Cons.prems(1), of t]
  show ?case unfolding foldl_Cons
    by (rule Cons.IH) (use Cons.prems step in auto)
qed

theorem oversized_packets_exhaust_ring_witness:
  "fst (process_packet (foldl (\<lambda>r d. snd (process_packet r d 0)) (GpuRingBuffer_new (sample_ring_config\<lparr>slot_count := 1\<rparr>))
      [replicate 257 0]) [1] 7) = Inl RingFull"
  by (rule oversized_packets_exhaust_ring)
    (simp_all add: count_state_def GpuRingBuffer_new_def RingSlot_empty_def sample_ring_config_def)

section \<open>The simulated GPU back end\<close>

lemma launch_kernel_found:
  assumes "length (gpu_buffers g) < 2 ^ 64" "gpu_next_id g = word_of_nat (length (gpu_buffers g))"
  shows "fst (launch_kernel (snd (allocate_buffer g n)) (gpu_next_id g) delay) = Inr ()"
  using assms by (simp add: launch_kernel_def allocate_buffer_def unat_of_nat)

end
