(* ===== verification/Shm_Ring.thy ===== *)
theory Shm_Ring
  imports Protocol Rust_Strings
begin

text \<open>
  The crate \<^verbatim>\<open>shm-io\<close>: a single-producer single-consumer ring of framed packets in a shared
  memory map.  The map is the list of its bytes; an atomic load or store is the little-endian read
  or write of four or eight bytes at the source's offset.  Offsets are natural numbers, which is
  exact as long as the map fits the address space.  The file system calls of \<^verbatim>\<open>open\<close> are the
  parameter \<open>fs\<close>.  A slice index out of range, which panics in the source, is the outcome
  \<open>ShmPanic\<close>.
\<close>

section \<open>Definitions\<close>

definition SHM_MAGIC :: u32 where
  "SHM_MAGIC = 0x314D4853"

definition HEADER_BYTES :: usize where
  "HEADER_BYTES = 64"

definition SLOT_STATE_EMPTY :: u32 where
  "SLOT_STATE_EMPTY = 0"

definition SLOT_STATE_FULL :: u32 where
  "SLOT_STATE_FULL = 1"

record ShmLinkConfig =
  shm_version :: string
  shm_id :: string
  shm_path :: string
  shm_cfg_slot_count :: usize
  shm_cfg_slot_bytes :: usize
  shm_create :: bool

datatype ShmIoError =
    ShmConfigError string
  | ShmIo string
  | ShmProtocol ProtocolError
  | ShmRingFull
  | BadHeader
  | FrameTooLarge
  | ShmPanic

definition ShmLinkConfig_from_yaml_str ::
    "(string \<Rightarrow> string + ShmLinkConfig) \<Rightarrow> string \<Rightarrow> ShmIoError + ShmLinkConfig" where
  "ShmLinkConfig_from_yaml_str yaml_parse s = map_err ShmConfigError (yaml_parse s)"

type_synonym shm_map = "u8 list"

record ShmPacketRing =
  shm_map :: shm_map
  shm_slot_count :: usize
  shm_slot_bytes :: usize
  pushed :: u64
  popped :: u64

subsection \<open>Access to the map\<close>

definition load_u32 :: "shm_map \<Rightarrow> usize \<Rightarrow> u32" where
  "load_u32 m off = u32_from_le_bytes (subslice m off (off + 4))"

definition store_u32 :: "shm_map \<Rightarrow> usize \<Rightarrow> u32 \<Rightarrow> shm_map" where
  "store_u32 m off v = blit m off (u32_to_le_bytes v)"

definition load_u64 :: "shm_map \<Rightarrow> usize \<Rightarrow> u64" where
  "load_u64 m off = u64_from_le_bytes (subslice m off (off + 8))"

definition store_u64 :: "shm_map \<Rightarrow> usize \<Rightarrow> u64 \<Rightarrow> shm_map" where
  "store_u64 m off v = blit m off (u64_to_le_bytes v)"

definition slot_stride :: "usize \<Rightarrow> usize" where
  "slot_stride sb = 8 + sb"

definition write_pos :: "shm_map \<Rightarrow> u64" where
  "write_pos m = load_u64 m 16"

definition read_pos :: "shm_map \<Rightarrow> u64" where
  "read_pos m = load_u64 m 24"

definition slot_base :: "usize \<Rightarrow> usize \<Rightarrow> usize" where
  "slot_base sb i = HEADER_BYTES + i * slot_stride sb"

definition shm_slot_state :: "usize \<Rightarrow> shm_map \<Rightarrow> usize \<Rightarrow> u32" where
  "shm_slot_state sb m i = load_u32 m (slot_base sb i)"

definition shm_slot_len :: "usize \<Rightarrow> shm_map \<Rightarrow> usize \<Rightarrow> u32" where
  "shm_slot_len sb m i = load_u32 m (slot_base sb i + 4)"

definition shm_slot_data :: "usize \<Rightarrow> shm_map \<Rightarrow> usize \<Rightarrow> u8 list" where
  "shm_slot_data sb m i = subslice m (slot_base sb i + 8) (slot_base sb i + 8 + sb)"

subsection \<open>Push and pop\<close>

definition try_push :: "ShmPacketRing \<Rightarrow> Packet \<Rightarrow> (ShmIoError, unit, ShmPacketRing) outcome" where
  "try_push ring packet =
     (let frame = encode_frame packet; sb = shm_slot_bytes ring in
      if sb < length frame then (Inl FrameTooLarge, ring)
      else
        let m = shm_map ring; w = write_pos m; r = read_pos m in
        if word_of_nat (shm_slot_count ring) \<le> w - r then (Inl ShmRingFull, ring)
        else
          let i = unat w mod shm_slot_count ring in
          if shm_slot_state sb m i \<noteq> SLOT_STATE_EMPTY then (Inl ShmRingFull, ring)
          else
            let m = blit m (slot_base sb i + 8) frame;
                m = store_u32 m (slot_base sb i + 4) (word_of_nat (length frame));
                m = store_u32 m (slot_base sb i) SLOT_STATE_FULL;
                m = store_u64 m 16 (w + 1)
            in (Inr (), ring\<lparr>shm_map := m, pushed := pushed ring + 1\<rparr>))"

definition try_pop :: "ShmPacketRing \<Rightarrow> (ShmIoError, Packet option, ShmPacketRing) outcome" where
  "try_pop ring =
     (let m = shm_map ring; sb = shm_slot_bytes ring; r = read_pos m; w = write_pos m in
      if r = w then (Inr None, ring)
      else
        let i = unat r mod shm_slot_count ring in
        if shm_slot_state sb m i \<noteq> SLOT_STATE_FULL then (Inr None, ring)
        else
          let n = unat (shm_slot_len sb m i) in
          if length (shm_slot_data sb m i) < n then (Inl ShmPanic, ring)
          else
            (case decode_frame (take n (shm_slot_data sb m i)) of
               Inl e \<Rightarrow> (Inl (ShmProtocol e), ring)
             | Inr pkt \<Rightarrow>
                 let m = store_u32 m (slot_base sb i) SLOT_STATE_EMPTY;
                     m = store_u64 m 24 (r + 1)
                 in (Inr (Some pkt), ring\<lparr>shm_map := m, popped := popped ring + 1\<rparr>)))"

subsection \<open>Opening a ring\<close>

fun clear_slots :: "usize \<Rightarrow> usize list \<Rightarrow> shm_map \<Rightarrow> shm_map" where
  "clear_slots sb [] m = m"
| "clear_slots sb (i # is) m = clear_slots sb is (store_u32 m (slot_base sb i) SLOT_STATE_EMPTY)"

definition init_ring :: "shm_map \<Rightarrow> usize \<Rightarrow> usize \<Rightarrow> shm_map" where
  "init_ring m sc sb =
     (let m = map (\<lambda>_. 0) m;
          m = blit m 0 (u32_to_le_bytes SHM_MAGIC);
          m = blit m 4 (u32_to_le_bytes 1);
          m = blit m 8 (u32_to_le_bytes (word_of_nat sc));
          m = blit m 12 (u32_to_le_bytes (word_of_nat sb))
      in clear_slots sb [0..<sc] m)"

definition validate_header :: "shm_map \<Rightarrow> u32 \<Rightarrow> u32 \<Rightarrow> ShmIoError + unit" where
  "validate_header m sc sb =
     (let magic = load_u32 m 0; version = load_u32 m 4; hsc = load_u32 m 8; hsb = load_u32 m 12 in
      if magic \<noteq> SHM_MAGIC \<or> version \<noteq> 1 then Inl BadHeader
      else if hsc \<noteq> sc \<or> hsb \<noteq> sb then Inl (ShmConfigError ''shm geometry mismatch vs config'')
      else Inr ())"

text \<open>
  What \<^verbatim>\<open>open\<close> asks of the file system: create the parent directory, open the file (truncating it
  or not) and hand back its bytes, change its length, and map it.
\<close>

record fs =
  fs_create_parent :: "string \<Rightarrow> string + unit"
  fs_open :: "string \<Rightarrow> bool \<Rightarrow> string + u8 list"
  fs_set_len :: "string \<Rightarrow> usize \<Rightarrow> string + unit"
  fs_map :: "string \<Rightarrow> usize \<Rightarrow> string + unit"

definition resize :: "usize \<Rightarrow> u8 list \<Rightarrow> u8 list" where
  "resize n bs = take n bs @ replicate (n - length bs) 0"

definition ShmPacketRing_open :: "fs \<Rightarrow> ShmLinkConfig \<Rightarrow> ShmIoError + ShmPacketRing" where
  "ShmPacketRing_open fs cfg =
     (let sc = shm_cfg_slot_count cfg; sb = shm_cfg_slot_bytes cfg; path = shm_path cfg in
      if sc = 0 \<or> sb < 64 then Inl (ShmConfigError ''slot_count > 0 and slot_bytes >= 64 required'')
      else
        (case fs_create_parent fs path of
           Inl e \<Rightarrow> Inl (ShmIo e)
         | Inr _ \<Rightarrow>
             let total = HEADER_BYTES + sc * slot_stride sb in
             (case fs_open fs path (shm_create cfg) of
                Inl e \<Rightarrow> Inl (ShmIo e)
              | Inr contents \<Rightarrow>
                  if shm_create cfg then
                    (case fs_set_len fs path total of
                       Inl e \<Rightarrow> Inl (ShmIo e)
                     | Inr _ \<Rightarrow>
                         (case fs_map fs path total of
                            Inl e \<Rightarrow> Inl (ShmIo e)
                          | Inr _ \<Rightarrow>
                              Inr \<lparr>shm_map = init_ring (resize total contents) sc sb, shm_slot_count = sc,
                                   shm_slot_bytes = sb, pushed = 0, popped = 0\<rparr>))
                  else if length contents < total then
                    Inl (ShmConfigError (''shm file too small: '' @ show_nat (length contents) @ '' < '' @ show_nat total))
                  else
                    (case fs_map fs path total of
                       Inl e \<Rightarrow> Inl (ShmIo e)
                     | Inr _ \<Rightarrow>
                         (case validate_header (take total contents) (word_of_nat sc) (word_of_nat sb) of
                            Inl e \<Rightarrow> Inl e
                          | Inr _ \<Rightarrow>
                              Inr \<lparr>shm_map = take total contents, shm_slot_count = sc,
                                   shm_slot_bytes = sb, pushed = 0, popped = 0\<rparr>)))))"

subsection \<open>Sink and PacketIO\<close>

text \<open>
  The sink spins at most 10,000 times.  \<open>other k\<close> is what the consumer's process does to the map
  between attempts \<open>k\<close> and \<open>k + 1\<close>, seen through the shared mapping.
\<close>

fun send_loop :: "(nat \<Rightarrow> shm_map \<Rightarrow> shm_map) \<Rightarrow> nat \<Rightarrow> nat \<Rightarrow> ShmPacketRing \<Rightarrow> Packet
    \<Rightarrow> (ShmIoError, unit, ShmPacketRing) outcome" where
  "send_loop other k 0 ring packet = (Inl ShmRingFull, ring)"
| "send_loop other k (Suc n) ring packet =
     (case try_push ring packet of
        (Inr _, ring') \<Rightarrow> (Inr (), ring')
      | (Inl ShmRingFull, ring') \<Rightarrow>
          send_loop other (Suc k) n (ring'\<lparr>shm_map := other k (shm_map ring')\<rparr>) packet
      | (Inl e, ring') \<Rightarrow> (Inl e, ring'))"

definition send_packet :: "(nat \<Rightarrow> shm_map \<Rightarrow> shm_map) \<Rightarrow> ShmPacketRing \<Rightarrow> Packet
    \<Rightarrow> (ShmIoError, unit, ShmPacketRing) outcome" where
  "send_packet other ring packet = send_loop other 0 10000 ring packet"

record ShmPacketIO =
  shm_ring :: ShmPacketRing
  shm_rx :: "Packet list"

definition ShmPacketIO_open :: "fs \<Rightarrow> ShmLinkConfig \<Rightarrow> ShmIoError + ShmPacketIO" where
  "ShmPacketIO_open fs cfg =
     (case ShmPacketRing_open fs (cfg\<lparr>shm_create := False\<rparr>) of
        Inl e \<Rightarrow> Inl e | Inr ring \<Rightarrow> Inr \<lparr>shm_ring = ring, shm_rx = []\<rparr>)"

text \<open>The loop of \<^verbatim>\<open>poll_rx\<close>: at most \<open>fuel\<close> more packets, \<open>n\<close> taken so far.\<close>

fun poll_rx_loop :: "nat \<Rightarrow> nat \<Rightarrow> ShmPacketIO \<Rightarrow> (ShmIoError, usize, ShmPacketIO) outcome" where
  "poll_rx_loop n 0 io = (Inr n, io)"
| "poll_rx_loop n (Suc fuel) io =
     (case try_pop (shm_ring io) of
        (Inl e, ring) \<Rightarrow> (Inl e, io\<lparr>shm_ring := ring\<rparr>)
      | (Inr (Some pkt), ring) \<Rightarrow> poll_rx_loop (Suc n) fuel (io\<lparr>shm_ring := ring, shm_rx := shm_rx io @ [pkt]\<rparr>)
      | (Inr None, ring) \<Rightarrow> (Inr n, io\<lparr>shm_ring := ring\<rparr>))"

definition shm_poll_rx :: "ShmPacketIO \<Rightarrow> usize \<Rightarrow> (ShmIoError, usize, ShmPacketIO) outcome" where
  "shm_poll_rx io m = poll_rx_loop 0 m io"

definition shm_rx_burst :: "ShmPacketIO \<Rightarrow> usize \<Rightarrow> Packet list \<times> ShmPacketIO" where
  "shm_rx_burst io m =
     (let io = snd (shm_poll_rx io m);
          n = min m (length (shm_rx io));
          (out, rest) = drain_front n (shm_rx io)
      in (out, io\<lparr>shm_rx := rest\<rparr>))"

definition shm_tx_burst :: "ShmPacketIO \<Rightarrow> Packet list \<Rightarrow> usize \<times> ShmPacketIO" where
  "shm_tx_burst io packets = (0, io)"

section \<open>Loads and stores of the map\<close>

lemma subslice_blit_disjoint:
  assumes "off + length ys \<le> length xs" "b \<le> off \<or> off + length ys \<le> a"
  shows "subslice (blit xs off ys) a b = subslice xs a b"
  using assms subslice_blit_below subslice_blit_above by blast

lemma load_u32_blit:
  "off + length ys \<le> length m \<Longrightarrow> a + 4 \<le> off \<or> off + length ys \<le> a \<Longrightarrow> load_u32 (blit m off ys) a = load_u32 m a"
  by (simp add: load_u32_def subslice_blit_disjoint)

lemma load_u64_blit:
  "off + length ys \<le> length m \<Longrightarrow> a + 8 \<le> off \<or> off + length ys \<le> a \<Longrightarrow> load_u64 (blit m off ys) a = load_u64 m a"
  by (simp add: load_u64_def subslice_blit_disjoint)

lemma load_store_u32: "off + 4 \<le> length m \<Longrightarrow> load_u32 (store_u32 m off v) off = v"
  using subslice_blit [of off "u32_to_le_bytes v" m]
  by (simp add: load_u32_def store_u32_def u32_codec.dec_enc)

lemma load_store_u64: "off + 8 \<le> length m \<Longrightarrow> load_u64 (store_u64 m off v) off = v"
  using subslice_blit [of off "u64_to_le_bytes v" m]
  by (simp add: load_u64_def store_u64_def u64_codec.dec_enc)

lemma length_store [simp]:
  "off + 4 \<le> length m \<Longrightarrow> length (store_u32 m off v) = length m"
  "off + 8 \<le> length m \<Longrightarrow> length (store_u64 m off w) = length m"
  by (simp_all add: store_u32_def store_u64_def length_blit)

section \<open>Geometry\<close>

definition shm_geometry :: "usize \<Rightarrow> usize \<Rightarrow> shm_map \<Rightarrow> bool" where
  "shm_geometry sc sb m \<longleftrightarrow> length m = HEADER_BYTES + sc * slot_stride sb"

lemma slot_base_ge: "64 \<le> slot_base sb i"
  by (simp add: slot_base_def HEADER_BYTES_def)

lemma slot_in_map:
  assumes "shm_geometry sc sb m" "i < sc"
  shows "slot_base sb i + 8 + sb \<le> length m"
proof -
  have "Suc i * slot_stride sb \<le> sc * slot_stride sb" using assms(2) by (intro mult_le_mono1) simp
  then show ?thesis using assms(1) by (simp add: shm_geometry_def slot_base_def slot_stride_def)
qed

lemma slots_apart:
  assumes "i \<noteq> j"
  shows "slot_base sb i + 8 + sb \<le> slot_base sb j \<or> slot_base sb j + 8 + sb \<le> slot_base sb i"
proof -
  have "slot_base sb i + 8 + sb \<le> slot_base sb j" if "i < j" for i j
  proof -
    have "Suc i * slot_stride sb \<le> j * slot_stride sb" using that by (intro mult_le_mono1) simp
    then show ?thesis by (simp add: slot_base_def slot_stride_def)
  qed
  with assms show ?thesis by (metis linorder_neqE_nat)
qed

text \<open>The content of one slot, and the effect of a push and of a pop on all of them.\<close>

definition slot_view :: "usize \<Rightarrow> shm_map \<Rightarrow> usize \<Rightarrow> u32 \<times> u32 \<times> u8 list" where
  "slot_view sb m i = (shm_slot_state sb m i, shm_slot_len sb m i, shm_slot_data sb m i)"

lemma slot_view_blit:
  assumes "off + length ys \<le> length m"
    and "slot_base sb i + 8 + sb \<le> off \<or> off + length ys \<le> slot_base sb i"
  shows "slot_view sb (blit m off ys) i = slot_view sb m i"
  using assms by (auto simp: slot_view_def shm_slot_state_def shm_slot_len_def shm_slot_data_def
      load_u32_blit subslice_blit_disjoint)

lemma slot_view_inside:
  assumes "shm_geometry sc sb m" "i < sc" "j \<noteq> i" "slot_base sb i \<le> off" "off + length ys \<le> slot_base sb i + 8 + sb"
  shows "slot_view sb (blit m off ys) j = slot_view sb m j"
  using slots_apart [OF assms(3), of sb] slot_in_map [OF assms(1,2)] assms(4,5)
  by (intro slot_view_blit) linarith+

definition push_map :: "usize \<Rightarrow> usize \<Rightarrow> u8 list \<Rightarrow> u64 \<Rightarrow> shm_map \<Rightarrow> shm_map" where
  "push_map sb i frame w m =
     store_u64 (store_u32 (store_u32 (blit m (slot_base sb i + 8) frame) (slot_base sb i + 4)
       (word_of_nat (length frame))) (slot_base sb i) SLOT_STATE_FULL) 16 (w + 1)"

definition pop_map :: "usize \<Rightarrow> usize \<Rightarrow> u64 \<Rightarrow> shm_map \<Rightarrow> shm_map" where
  "pop_map sb i r m = store_u64 (store_u32 m (slot_base sb i) SLOT_STATE_EMPTY) 24 (r + 1)"

lemma push_map_effect:
  fixes w :: u64
  assumes "shm_geometry sc sb m" "i < sc" "length frame \<le> sb"
  defines "m' \<equiv> push_map sb i frame w m"
  shows "shm_geometry sc sb m'" "write_pos m' = w + 1" "read_pos m' = read_pos m"
    "shm_slot_state sb m' i = SLOT_STATE_FULL" "shm_slot_len sb m' i = word_of_nat (length frame)"
    "take (length frame) (shm_slot_data sb m' i) = frame"
    "j \<noteq> i \<Longrightarrow> slot_view sb m' j = slot_view sb m j"
proof -
  let ?b = "slot_base sb i"
  define m1 where "m1 = blit m (?b + 8) frame"
  define m2 where "m2 = blit m1 (?b + 4) (u32_to_le_bytes (word_of_nat (length frame)))"
  define m3 where "m3 = blit m2 ?b (u32_to_le_bytes SLOT_STATE_FULL)"
  have m': "m' = blit m3 16 (u64_to_le_bytes (w + 1))"
    by (simp add: m'_def push_map_def m1_def m2_def m3_def store_u32_def store_u64_def)
  note b = slot_base_ge [of sb i] and i = slot_in_map [OF assms(1,2)]
  have l1: "length m1 = length m" using i assms(3) by (simp add: m1_def length_blit)
  have l2: "length m2 = length m" using i by (simp add: m2_def length_blit l1)
  have l3: "length m3 = length m" using i by (simp add: m3_def length_blit l2)
  have l: "length m' = length m" using b i by (simp add: m' length_blit l3)
  show "shm_geometry sc sb m'" using assms(1) l by (simp add: shm_geometry_def)
  show "write_pos m' = w + 1"
    using load_store_u64 [of 16 m3 "w + 1"] b i l3 by (simp add: write_pos_def m' store_u64_def)
  show "read_pos m' = read_pos m"
    using b i assms(3) by (simp add: read_pos_def m' m3_def m2_def m1_def load_u64_blit l1 l2 l3 length_blit)
  have "load_u32 m3 ?b = SLOT_STATE_FULL"
    using load_store_u32 [of ?b m2] i l2 by (simp add: m3_def store_u32_def)
  then show "shm_slot_state sb m' i = SLOT_STATE_FULL"
    using b i by (simp add: shm_slot_state_def m' load_u32_blit l3)
  have "load_u32 m2 (?b + 4) = word_of_nat (length frame)"
    using load_store_u32 [of "?b + 4" m1] i l1 by (simp add: m2_def store_u32_def)
  then show "shm_slot_len sb m' i = word_of_nat (length frame)"
    using b i by (simp add: shm_slot_len_def m' m3_def load_u32_blit l2 length_blit)
  have "subslice m1 (?b + 8) (?b + 8 + length frame) = frame"
    unfolding m1_def using i assms(3) by (intro subslice_blit) simp
  then have "subslice m' (?b + 8) (?b + 8 + length frame) = frame"
    using b i by (simp add: m' m3_def m2_def subslice_blit_disjoint l1 l2 length_blit)
  then show "take (length frame) (shm_slot_data sb m' i) = frame"
    using assms(3) by (simp add: shm_slot_data_def subslice_def)
  show "slot_view sb m' j = slot_view sb m j" if "j \<noteq> i"
  proof -
    have g: "shm_geometry sc sb x" if "length x = length m" for x
      using assms(1) that by (simp add: shm_geometry_def)
    have "slot_view sb m' j = slot_view sb m3 j"
      unfolding m' using slot_base_ge [of sb j] b i l3 by (intro slot_view_blit) simp_all
    also have "\<dots> = slot_view sb m2 j"
      unfolding m3_def by (rule slot_view_inside [OF g [OF l2] assms(2) that]) simp_all
    also have "\<dots> = slot_view sb m1 j"
      unfolding m2_def by (rule slot_view_inside [OF g [OF l1] assms(2) that]) simp_all
    also have "\<dots> = slot_view sb m j"
      unfolding m1_def using assms(3) by (intro slot_view_inside [OF assms(1,2) that]) simp_all
    finally show ?thesis .
  qed
qed

lemma pop_map_effect:
  fixes r :: u64
  assumes "shm_geometry sc sb m" "i < sc"
  defines "m' \<equiv> pop_map sb i r m"
  shows "shm_geometry sc sb m'" "read_pos m' = r + 1" "write_pos m' = write_pos m"
    "shm_slot_state sb m' i = SLOT_STATE_EMPTY"
    "j \<noteq> i \<Longrightarrow> slot_view sb m' j = slot_view sb m j"
proof -
  let ?b = "slot_base sb i"
  define m1 where "m1 = blit m ?b (u32_to_le_bytes SLOT_STATE_EMPTY)"
  have m': "m' = blit m1 24 (u64_to_le_bytes (r + 1))"
    by (simp add: m'_def pop_map_def m1_def store_u32_def store_u64_def)
  note b = slot_base_ge [of sb i] and i = slot_in_map [OF assms(1,2)]
  have l1: "length m1 = length m" using i by (simp add: m1_def length_blit)
  have l: "length m' = length m" using b i by (simp add: m' length_blit l1)
  show "shm_geometry sc sb m'" using assms(1) l by (simp add: shm_geometry_def)
  show "read_pos m' = r + 1"
    using load_store_u64 [of 24 m1 "r + 1"] b i l1 by (simp add: read_pos_def m' store_u64_def)
  show "write_pos m' = write_pos m"
    using b i by (simp add: write_pos_def m' m1_def load_u64_blit length_blit)
  have "load_u32 m1 ?b = SLOT_STATE_EMPTY"
    using load_store_u32 [of ?b m] i by (simp add: m1_def store_u32_def)
  then show "shm_slot_state sb m' i = SLOT_STATE_EMPTY"
    using b i by (simp add: shm_slot_state_def m' load_u32_blit l1)
  show "slot_view sb m' j = slot_view sb m j" if "j \<noteq> i"
  proof -
    have "slot_view sb m' j = slot_view sb m1 j"
      unfolding m' using slot_base_ge [of sb j] b i l1 by (intro slot_view_blit) simp_all
    also have "\<dots> = slot_view sb m j"
      unfolding m1_def by (rule slot_view_inside [OF assms(1,2) that]) simp_all
    finally show ?thesis .
  qed
qed

section \<open>The ring represents a queue of packets\<close>

definition holds_frame :: "usize \<Rightarrow> u32 \<times> u32 \<times> u8 list \<Rightarrow> Packet \<Rightarrow> bool" where
  "holds_frame sb v p \<longleftrightarrow>
     (case v of (st, n, d) \<Rightarrow>
        st = SLOT_STATE_FULL \<and> n = word_of_nat (length (encode_frame p)) \<and> length (encode_frame p) \<le> sb
        \<and> take (length (encode_frame p)) d = encode_frame p)"

definition shm_rep :: "ShmPacketRing \<Rightarrow> Packet list \<Rightarrow> bool" where
  "shm_rep ring q \<longleftrightarrow>
     (let m = shm_map ring; sc = shm_slot_count ring; sb = shm_slot_bytes ring;
          r = unat (read_pos m); w = unat (write_pos m) in
      shm_geometry sc sb m \<and> 0 < sc \<and> sc < 2 ^ 64 \<and> sb < 2 ^ 32
      \<and> w = r + length q \<and> length q \<le> sc
      \<and> (\<forall>k<length q. holds_frame sb (slot_view sb m ((r + k) mod sc)) (q ! k))
      \<and> (\<forall>i < sc. (\<forall>k<length q. i \<noteq> (r + k) mod sc) \<longrightarrow> shm_slot_state sb m i = SLOT_STATE_EMPTY))"

lemma ring_index_inject:
  assumes "k < n" "n \<le> sc" "j < n" "(r + k) mod sc = (r + j) mod (sc::nat)"
  shows "k = j"
proof (rule ccontr)
  assume "k \<noteq> j"
  then consider "k < j" | "j < k" by linarith
  then show False
  proof cases
    case 1
    then have "sc dvd (r + j) - (r + k)" using assms(4) mod_eq_dvd_iff_nat [of "r + k" "r + j" sc] by simp
    with 1 assms(2,3) show False by (auto dest!: dvd_imp_le)
  next
    case 2
    then have "sc dvd (r + k) - (r + j)" using assms(4) mod_eq_dvd_iff_nat [of "r + j" "r + k" sc] by simp
    with 2 assms(1,2) show False by (auto dest!: dvd_imp_le)
  qed
qed

lemma unat_pos_diff: "unat w = unat r + n \<Longrightarrow> unat (w - r :: u64) = n"
  by (simp add: unat_sub word_le_nat_alt)

lemma try_push_fits:
  assumes "shm_rep ring q" "length (encode_frame p) \<le> shm_slot_bytes ring" "length q < shm_slot_count ring"
  defines "i \<equiv> unat (write_pos (shm_map ring)) mod shm_slot_count ring"
  shows "try_push ring p = (Inr (), ring\<lparr>shm_map :=
    push_map (shm_slot_bytes ring) i (encode_frame p) (write_pos (shm_map ring)) (shm_map ring), pushed := pushed ring + 1\<rparr>)"
    and "i < shm_slot_count ring" "\<And>k. k < length q \<Longrightarrow> i \<noteq> (unat (read_pos (shm_map ring)) + k) mod shm_slot_count ring"
proof -
  let ?m = "shm_map ring" and ?sc = "shm_slot_count ring"
  have w: "unat (write_pos ?m) = unat (read_pos ?m) + length q" and sc: "0 < ?sc" "?sc < 2 ^ 64"
    using assms(1) by (auto simp: shm_rep_def Let_def)
  show i: "i < ?sc" using sc by (simp add: i_def)
  show fresh: "i \<noteq> (unat (read_pos ?m) + k) mod ?sc" if "k < length q" for k
    using ring_index_inject [of k "Suc (length q)" ?sc "length q" "unat (read_pos ?m)"] assms(3) that
    by (auto simp: i_def w)
  have "shm_slot_state (shm_slot_bytes ring) ?m i = SLOT_STATE_EMPTY"
    using assms(1) i fresh by (auto simp: shm_rep_def Let_def)
  moreover have "\<not> word_of_nat ?sc \<le> write_pos ?m - read_pos ?m"
    using assms(3) sc unat_pos_diff [OF w] by (simp add: word_le_nat_alt unat_of_nat)
  ultimately show "try_push ring p = (Inr (), ring\<lparr>shm_map :=
    push_map (shm_slot_bytes ring) i (encode_frame p) (write_pos (shm_map ring)) (shm_map ring), pushed := pushed ring + 1\<rparr>)"
    using assms(2) by (simp add: try_push_def push_map_def i_def Let_def)
qed

lemma holds_frame_new:
  assumes "shm_geometry sc sb m" "i < sc" "length (encode_frame p) \<le> sb"
  shows "holds_frame sb (slot_view sb (push_map sb i (encode_frame p) w m) i) p"
  using push_map_effect [OF assms, where w = w] assms(3) by (simp add: holds_frame_def slot_view_def)

lemma push_rep:
  assumes "shm_rep ring q" "length (encode_frame p) \<le> shm_slot_bytes ring" "length q < shm_slot_count ring"
    and "unat (write_pos (shm_map ring)) < 2 ^ 64 - 1"
  shows "shm_rep (snd (try_push ring p)) (q @ [p])"
proof -
  let ?m = "shm_map ring" and ?sc = "shm_slot_count ring" and ?sb = "shm_slot_bytes ring"
  define i where "i = unat (write_pos ?m) mod ?sc"
  note fits = try_push_fits [OF assms(1-3), folded i_def]
  define m' where "m' = push_map ?sb i (encode_frame p) (write_pos ?m) ?m"
  have rep: "shm_geometry ?sc ?sb ?m" "unat (write_pos ?m) = unat (read_pos ?m) + length q" "?sb < 2 ^ 32" "0 < ?sc" "?sc < 2 ^ 64"
    and held: "\<And>k. k < length q \<Longrightarrow> holds_frame ?sb (slot_view ?sb ?m ((unat (read_pos ?m) + k) mod ?sc)) (q ! k)"
    and empty: "\<And>j. j < ?sc \<Longrightarrow> \<forall>k<length q. j \<noteq> (unat (read_pos ?m) + k) mod ?sc \<Longrightarrow> shm_slot_state ?sb ?m j = SLOT_STATE_EMPTY"
    using assms(1) by (auto simp: shm_rep_def Let_def)
  note eff = push_map_effect [OF rep(1) fits(2) assms(2), where w = "write_pos ?m", folded m'_def]
  have w': "unat (write_pos m') = Suc (unat (write_pos ?m))"
    unfolding eff(2) using assms(4) by (simp add: unat_inc)
  have held': "holds_frame ?sb (slot_view ?sb m' ((unat (read_pos m') + k) mod ?sc)) ((q @ [p]) ! k)"
    if "k < Suc (length q)" for k
  proof (cases "k < length q")
    case True
    then show ?thesis using held [OF True] eff(7) fits(3) [OF True] by (simp add: eff(3) nth_append)
  next
    case False
    then have "k = length q" using that by simp
    then show ?thesis
      using holds_frame_new [OF rep(1) fits(2) assms(2), of "write_pos ?m", folded m'_def] rep(2)
      by (simp add: eff(3) i_def)
  qed
  have empty': "shm_slot_state ?sb m' j = SLOT_STATE_EMPTY"
    if "j < ?sc" "\<forall>k<Suc (length q). j \<noteq> (unat (read_pos m') + k) mod ?sc" for j
  proof -
    have "j \<noteq> i" using that(2) rep(2) by (auto simp: eff(3) i_def)
    then have "shm_slot_state ?sb m' j = shm_slot_state ?sb ?m j" using eff(7) by (simp add: slot_view_def)
    then show ?thesis using empty that by (simp add: eff(3))
  qed
  show ?thesis
    using held' empty' w' assms(3) rep eff(1,3)
    by (simp add: fits(1) shm_rep_def Let_def flip: m'_def)
qed

lemma holds_frame_decode:
  assumes "holds_frame sb (st, n, d) p" "sb < 2 ^ 32" "length d = sb"
  shows "unat n = length (encode_frame p)" "decode_frame (take (unat n) d) = Inr p" "unat n \<le> length d"
proof -
  have len: "length (encode_frame p) \<le> sb" using assms(1) by (simp add: holds_frame_def)
  then have lt: "length (encode_frame p) < 2 ^ 32" using assms(2) by linarith
  show n: "unat n = length (encode_frame p)" using assms(1) lt
    by (simp add: holds_frame_def unat_of_nat del: length_encode_frame)
  show "unat n \<le> length d" using n len assms(3) by simp
  have "take (unat n) d = encode_frame p" using assms(1) n by (simp add: holds_frame_def)
  moreover have "length (payload p) < 2 ^ 32" using lt by simp
  ultimately show "decode_frame (take (unat n) d) = Inr p" by (simp add: decode_frame_encode_frame)
qed

lemma length_slot_data: "shm_geometry sc sb m \<Longrightarrow> i < sc \<Longrightarrow> length (shm_slot_data sb m i) = sb"
  using slot_in_map [of sc sb m i] by (simp add: shm_slot_data_def)

lemma try_pop_empty: "shm_rep ring [] \<Longrightarrow> try_pop ring = (Inr None, ring)"
  by (simp add: shm_rep_def try_pop_def Let_def) (metis word_unat_eq_iff)

lemma try_pop_some:
  assumes "shm_rep ring (p # q)"
  defines "i \<equiv> unat (read_pos (shm_map ring)) mod shm_slot_count ring"
  shows "try_pop ring = (Inr (Some p), ring\<lparr>shm_map :=
    pop_map (shm_slot_bytes ring) i (read_pos (shm_map ring)) (shm_map ring), popped := popped ring + 1\<rparr>)"
    and "i < shm_slot_count ring"
proof -
  let ?m = "shm_map ring" and ?sc = "shm_slot_count ring" and ?sb = "shm_slot_bytes ring"
  have rep: "shm_geometry ?sc ?sb ?m" "unat (write_pos ?m) = unat (read_pos ?m) + Suc (length q)" "?sb < 2 ^ 32" "0 < ?sc"
    and held: "\<forall>k<Suc (length q). holds_frame ?sb (slot_view ?sb ?m ((unat (read_pos ?m) + k) mod ?sc)) ((p # q) ! k)"
    using assms(1) by (simp_all add: shm_rep_def Let_def)
  show i: "i < ?sc" using rep(4) by (simp add: i_def)
  have "holds_frame ?sb (slot_view ?sb ?m i) p" using held [rule_format, of 0] by (simp add: i_def)
  then have h: "holds_frame ?sb (shm_slot_state ?sb ?m i, shm_slot_len ?sb ?m i, shm_slot_data ?sb ?m i) p"
    by (simp add: slot_view_def)
  note dec = holds_frame_decode [OF h rep(3) length_slot_data [OF rep(1) i]]
  have "read_pos ?m \<noteq> write_pos ?m" using rep(2) by auto
  moreover have "shm_slot_state ?sb ?m i = SLOT_STATE_FULL" using h by (simp add: holds_frame_def)
  ultimately show "try_pop ring = (Inr (Some p), ring\<lparr>shm_map :=
      pop_map ?sb i (read_pos ?m) ?m, popped := popped ring + 1\<rparr>)"
    using dec by (simp add: try_pop_def pop_map_def i_def Let_def)
qed

lemma pop_rep:
  assumes "shm_rep ring (p # q)"
  shows "shm_rep (snd (try_pop ring)) q"
proof -
  let ?m = "shm_map ring" and ?sc = "shm_slot_count ring" and ?sb = "shm_slot_bytes ring"
  define i where "i = unat (read_pos ?m) mod ?sc"
  note pop = try_pop_some [OF assms, folded i_def]
  define m' where "m' = pop_map ?sb i (read_pos ?m) ?m"
  have rep: "shm_geometry ?sc ?sb ?m" "unat (write_pos ?m) = unat (read_pos ?m) + Suc (length q)"
      "Suc (length q) \<le> ?sc" "?sb < 2 ^ 32" "0 < ?sc" "?sc < 2 ^ 64"
    and held: "\<And>k. k < Suc (length q) \<Longrightarrow> holds_frame ?sb (slot_view ?sb ?m ((unat (read_pos ?m) + k) mod ?sc)) ((p # q) ! k)"
    and empty: "\<And>j. j < ?sc \<Longrightarrow> \<forall>k<Suc (length q). j \<noteq> (unat (read_pos ?m) + k) mod ?sc \<Longrightarrow> shm_slot_state ?sb ?m j = SLOT_STATE_EMPTY"
    using assms(1) by (simp_all add: shm_rep_def Let_def)
  note eff = pop_map_effect [OF rep(1) pop(2), where r = "read_pos ?m", folded m'_def]
  have "unat (write_pos ?m) < 2 ^ 64" using unsigned_less [of "write_pos ?m"] by simp
  then have "unat (read_pos ?m) \<noteq> 2 ^ 64 - 1" using rep(2) by linarith
  then have r': "unat (read_pos m') = Suc (unat (read_pos ?m))" unfolding eff(2) by (simp add: unat_inc)
  have fresh: "(unat (read_pos ?m) + Suc k) mod ?sc \<noteq> i" if "k < length q" for k
    using ring_index_inject [of "Suc k" "Suc (length q)" ?sc 0 "unat (read_pos ?m)"] rep(3) that
    by (auto simp: i_def)
  have held': "holds_frame ?sb (slot_view ?sb m' ((unat (read_pos m') + k) mod ?sc)) (q ! k)" if "k < length q" for k
    using held [of "Suc k"] fresh [OF that] eff(5) that by (simp add: r')
  have empty': "shm_slot_state ?sb m' j = SLOT_STATE_EMPTY"
    if j: "j < ?sc" "\<forall>k<length q. j \<noteq> (unat (read_pos m') + k) mod ?sc" for j
  proof (cases "j = i")
    case True
    then show ?thesis by (simp add: eff(4))
  next
    case False
    have "j \<noteq> (unat (read_pos ?m) + k) mod ?sc" if "k < Suc (length q)" for k
      using j(2) False that by (cases k) (auto simp: r' i_def)
    then have "shm_slot_state ?sb ?m j = SLOT_STATE_EMPTY" using empty j(1) by blast
    then show ?thesis using eff(5) [OF False] by (simp add: slot_view_def)
  qed
  show ?thesis
    using held' empty' r' rep eff(1,3)
    by (simp add: pop(1) shm_rep_def Let_def flip: m'_def)
qed

text \<open>The packets in the ring, read off the map, and the invariant in terms of them.\<close>

definition shm_queue :: "ShmPacketRing \<Rightarrow> Packet list" where
  "shm_queue ring =
     (let m = shm_map ring; sb = shm_slot_bytes ring; r = read_pos m in
      map (\<lambda>k. let i = (unat r + k) mod shm_slot_count ring in
                projr (decode_frame (take (unat (shm_slot_len sb m i)) (shm_slot_data sb m i))))
        [0..<unat (write_pos m - r)])"

definition shm_inv :: "ShmPacketRing \<Rightarrow> bool" where
  "shm_inv ring \<longleftrightarrow> shm_rep ring (shm_queue ring)"

lemma shm_rep_queue:
  assumes "shm_rep ring q"
  shows "shm_queue ring = q"
proof -
  let ?m = "shm_map ring" and ?sc = "shm_slot_count ring" and ?sb = "shm_slot_bytes ring"
  have rep: "shm_geometry ?sc ?sb ?m" "unat (write_pos ?m) = unat (read_pos ?m) + length q" "?sb < 2 ^ 32" "0 < ?sc"
    and held: "\<forall>k<length q. holds_frame ?sb (slot_view ?sb ?m ((unat (read_pos ?m) + k) mod ?sc)) (q ! k)"
    using assms by (simp_all add: shm_rep_def Let_def)
  have "decode_frame (take (unat (shm_slot_len ?sb ?m i)) (shm_slot_data ?sb ?m i)) = Inr (q ! k)"
    if "k < length q" "i = (unat (read_pos ?m) + k) mod ?sc" for k i
  proof -
    have "holds_frame ?sb (shm_slot_state ?sb ?m i, shm_slot_len ?sb ?m i, shm_slot_data ?sb ?m i) (q ! k)"
      using held that by (simp add: slot_view_def)
    then show ?thesis
      by (rule holds_frame_decode(2)) (use rep that in \<open>simp_all add: length_slot_data\<close>)
  qed
  then show ?thesis using unat_pos_diff [OF rep(2)]
    by (intro nth_equalityI) (simp_all add: shm_queue_def Let_def)
qed

lemma shm_repI: "shm_rep ring q \<Longrightarrow> shm_inv ring \<and> shm_queue ring = q"
  by (simp add: shm_inv_def shm_rep_queue)

lemma try_push_full:
  assumes "shm_rep ring q" "length q = shm_slot_count ring" "length (encode_frame p) \<le> shm_slot_bytes ring"
  shows "try_push ring p = (Inl ShmRingFull, ring)"
proof -
  have w: "unat (write_pos (shm_map ring)) = unat (read_pos (shm_map ring)) + length q"
    and sc: "shm_slot_count ring < 2 ^ 64"
    using assms(1) by (simp_all add: shm_rep_def Let_def)
  have "word_of_nat (shm_slot_count ring) \<le> write_pos (shm_map ring) - read_pos (shm_map ring)"
    using unat_pos_diff [OF w] sc assms(2) by (simp add: word_le_nat_alt unat_of_nat)
  then show ?thesis using assms(3) by (simp add: try_push_def Let_def)
qed

lemma try_push_too_large:
  "shm_slot_bytes ring < length (encode_frame p) \<Longrightarrow> try_push ring p = (Inl FrameTooLarge, ring)"
  by (simp add: try_push_def Let_def)

lemma shm_rep_bound: "shm_rep ring q \<Longrightarrow> length q \<le> shm_slot_count ring"
  by (simp add: shm_rep_def Let_def)

lemma try_push_cases:
  assumes "shm_inv ring" "unat (write_pos (shm_map ring)) < 2 ^ 64 - 1"
  obtains (large) "shm_slot_bytes ring < 32 + length (payload p)" "try_push ring p = (Inl FrameTooLarge, ring)"
  | (full) "32 + length (payload p) \<le> shm_slot_bytes ring" "length (shm_queue ring) = shm_slot_count ring"
      "try_push ring p = (Inl ShmRingFull, ring)"
  | (stored) ring' where "32 + length (payload p) \<le> shm_slot_bytes ring" "length (shm_queue ring) < shm_slot_count ring"
      "try_push ring p = (Inr (), ring')" "shm_inv ring'" "shm_queue ring' = shm_queue ring @ [p]"
      "write_pos (shm_map ring') = write_pos (shm_map ring) + 1"
      "shm_slot_bytes ring' = shm_slot_bytes ring" "shm_slot_count ring' = shm_slot_count ring"
proof (cases "length (encode_frame p) \<le> shm_slot_bytes ring")
  case False
  then show ?thesis by (intro large) (simp_all add: try_push_too_large)
next
  case fits: True
  have rep: "shm_rep ring (shm_queue ring)" using assms(1) by (simp add: shm_inv_def)
  show ?thesis
  proof (cases "length (shm_queue ring) = shm_slot_count ring")
    case True
    with fits show ?thesis by (intro full) (simp_all add: try_push_full [OF rep])
  next
    case False
    then have lt: "length (shm_queue ring) < shm_slot_count ring" using shm_rep_bound [OF rep] by simp
    note t = try_push_fits [OF rep fits lt]
    have geo: "shm_geometry (shm_slot_count ring) (shm_slot_bytes ring) (shm_map ring)"
      using rep by (simp add: shm_rep_def Let_def)
    have "write_pos (shm_map (snd (try_push ring p))) = write_pos (shm_map ring) + 1"
      unfolding t(1) using push_map_effect(2) [OF geo t(2) fits] by simp
    then show ?thesis
      using shm_repI [OF push_rep [OF rep fits lt assms(2)]] fits lt t(1)
      by (intro stored [of "snd (try_push ring p)"]) simp_all
  qed
qed

lemma try_pop_cases:
  assumes "shm_inv ring"
  obtains (empty) "shm_queue ring = []" "try_pop ring = (Inr None, ring)"
  | (taken) p q ring' where "shm_queue ring = p # q" "try_pop ring = (Inr (Some p), ring')"
      "shm_inv ring'" "shm_queue ring' = q" "write_pos (shm_map ring') = write_pos (shm_map ring)"
      "shm_slot_bytes ring' = shm_slot_bytes ring" "shm_slot_count ring' = shm_slot_count ring"
proof (cases "shm_queue ring")
  case Nil
  with assms show ?thesis by (intro empty) (simp_all add: shm_inv_def try_pop_empty)
next
  case (Cons p q)
  then have rep: "shm_rep ring (p # q)" using assms by (simp add: shm_inv_def)
  note t = try_pop_some [OF rep]
  have geo: "shm_geometry (shm_slot_count ring) (shm_slot_bytes ring) (shm_map ring)"
    using rep by (simp add: shm_rep_def Let_def)
  have "write_pos (shm_map (snd (try_pop ring))) = write_pos (shm_map ring)"
    unfolding t(1) using pop_map_effect(3) [OF geo t(2)] by simp
  then show ?thesis
    using shm_repI [OF pop_rep [OF rep]] Cons t(1) by (intro taken [of p q "snd (try_pop ring)"]) simp_all
qed

section \<open>Creating a ring\<close>

lemma load_u64_zeros: "a + 8 \<le> n \<Longrightarrow> load_u64 (replicate n 0) a = 0"
  by (simp add: load_u64_def subslice_def u64_from_le_bytes_def numeral_eq_Suc)

lemma load_u32_zeros: "a + 4 \<le> n \<Longrightarrow> load_u32 (replicate n 0) a = 0"
  by (simp add: load_u32_def subslice_def u32_from_le_bytes_def numeral_eq_Suc)

definition fresh_header :: "usize \<Rightarrow> usize \<Rightarrow> shm_map \<Rightarrow> shm_map" where
  "fresh_header sc sb m =
     blit (blit (blit (blit m 0 (u32_to_le_bytes SHM_MAGIC)) 4 (u32_to_le_bytes 1)) 8
       (u32_to_le_bytes (word_of_nat sc))) 12 (u32_to_le_bytes (word_of_nat sb))"

lemma fresh_header_effect:
  assumes "64 \<le> length m"
  shows "length (fresh_header sc sb m) = length m"
    "16 \<le> a \<Longrightarrow> load_u64 (fresh_header sc sb m) a = load_u64 m a"
    "16 \<le> a \<Longrightarrow> load_u32 (fresh_header sc sb m) a = load_u32 m a"
    "load_u32 (fresh_header sc sb m) 0 = SHM_MAGIC" "load_u32 (fresh_header sc sb m) 4 = 1"
    "load_u32 (fresh_header sc sb m) 8 = word_of_nat sc" "load_u32 (fresh_header sc sb m) 12 = word_of_nat sb"
  using assms load_store_u32 [of 12 _ "word_of_nat sb"] load_store_u32 [of 8 _ "word_of_nat sc"]
    load_store_u32 [of 4 _ 1] load_store_u32 [of 0 _ SHM_MAGIC]
  by (simp_all add: fresh_header_def length_blit load_u64_blit load_u32_blit store_u32_def)

lemma clear_slots_effect:
  assumes "shm_geometry sc sb m" "set is \<subseteq> {..<sc}"
  shows "shm_geometry sc sb (clear_slots sb is m) \<and> (\<forall>a. a + 8 \<le> 64 \<longrightarrow> load_u64 (clear_slots sb is m) a = load_u64 m a)
    \<and> (\<forall>a. a + 4 \<le> 64 \<longrightarrow> load_u32 (clear_slots sb is m) a = load_u32 m a)
    \<and> (\<forall>i < sc. shm_slot_state sb m i = SLOT_STATE_EMPTY \<longrightarrow> shm_slot_state sb (clear_slots sb is m) i = SLOT_STATE_EMPTY)"
  using assms
proof (induction "is" arbitrary: m)
  case Nil
  then show ?case by simp
next
  case (Cons i "is")
  let ?m = "store_u32 m (slot_base sb i) SLOT_STATE_EMPTY"
  have i: "i < sc" using Cons.prems(2) by simp
  note b = slot_base_ge [of sb i] and l = slot_in_map [OF Cons.prems(1) i]
  have "shm_geometry sc sb ?m" using Cons.prems(1) l by (simp add: shm_geometry_def)
  note IH = Cons.IH [OF this]
  have "load_u64 ?m a = load_u64 m a" if "a + 8 \<le> 64" for a
    using b l that by (simp add: store_u32_def load_u64_blit)
  moreover have "load_u32 ?m a = load_u32 m a" if "a + 4 \<le> 64" for a
    using b l that by (simp add: store_u32_def load_u32_blit)
  moreover have "shm_slot_state sb ?m j = SLOT_STATE_EMPTY" if "j < sc" "shm_slot_state sb m j = SLOT_STATE_EMPTY" for j
  proof (cases "j = i")
    case True
    then show ?thesis using l by (simp add: shm_slot_state_def load_store_u32)
  next
    case False
    then show ?thesis using slots_apart [OF False, of sb] l that(2)
      by (auto simp: shm_slot_state_def store_u32_def load_u32_blit)
  qed
  ultimately show ?case using IH Cons.prems(2) by auto
qed

lemma init_ring_rep:
  assumes "length m = HEADER_BYTES + sc * slot_stride sb" "0 < sc" "sc < 2 ^ 64" "sb < 2 ^ 32"
  shows "shm_rep \<lparr>shm_map = init_ring m sc sb, shm_slot_count = sc, shm_slot_bytes = sb, pushed = 0, popped = 0\<rparr> []"
    and "validate_header (init_ring m sc sb) (word_of_nat sc) (word_of_nat sb) = Inr ()"
    and "write_pos (init_ring m sc sb) = 0"
proof -
  let ?z = "replicate (length m) (0 :: u8)" and ?m = "init_ring m sc sb"
  have len: "64 \<le> length m" using assms(1) by (simp add: HEADER_BYTES_def)
  have init: "?m = clear_slots sb [0..<sc] (fresh_header sc sb ?z)"
    by (simp add: init_ring_def fresh_header_def Let_def map_replicate_const)
  note hdr = fresh_header_effect [of ?z, simplified, OF len]
  have geo: "shm_geometry sc sb (fresh_header sc sb ?z)"
    using assms(1) hdr(1) by (simp add: shm_geometry_def)
  have state: "shm_slot_state sb (fresh_header sc sb ?z) i = SLOT_STATE_EMPTY" if "i < sc" for i
    using slot_base_ge [of sb i] slot_in_map [OF geo that] hdr(1,3)
    by (simp add: shm_slot_state_def load_u32_zeros SLOT_STATE_EMPTY_def)
  have sub: "set [0..<sc] \<subseteq> {..<sc}" by auto
  note clr = clear_slots_effect [OF geo sub, folded init]
  show w: "write_pos ?m = 0" using clr hdr(2) len by (simp add: write_pos_def load_u64_zeros)
  have "shm_geometry sc sb ?m" "read_pos ?m = 0"
    "\<forall>i < sc. shm_slot_state sb ?m i = SLOT_STATE_EMPTY"
    using clr state hdr(2) len by (auto simp: read_pos_def load_u64_zeros)
  with w assms show "shm_rep \<lparr>shm_map = ?m, shm_slot_count = sc, shm_slot_bytes = sb, pushed = 0, popped = 0\<rparr> []"
    by (simp add: shm_rep_def Let_def)
  show "validate_header ?m (word_of_nat sc) (word_of_nat sb) = Inr ()"
    using clr hdr by (simp add: validate_header_def Let_def)
qed

section \<open>Runs of producer and consumer\<close>

datatype shm_call = Push Packet | Pop

fun shm_run :: "ShmPacketRing \<Rightarrow> shm_call list \<Rightarrow> Packet list \<times> Packet list \<times> ShmPacketRing" where
  "shm_run ring [] = ([], [], ring)"
| "shm_run ring (Push p # cs) =
     (case try_push ring p of
        (Inr _, ring') \<Rightarrow> (let (acc, del, end_ring) = shm_run ring' cs in (p # acc, del, end_ring))
      | (Inl _, ring') \<Rightarrow> shm_run ring' cs)"
| "shm_run ring (Pop # cs) =
     (case try_pop ring of
        (Inr (Some p), ring') \<Rightarrow> (let (acc, del, end_ring) = shm_run ring' cs in (acc, p # del, end_ring))
      | (_, ring') \<Rightarrow> shm_run ring' cs)"

lemma shm_run_fifo:
  assumes "shm_inv ring" "unat (write_pos (shm_map ring)) + length cs < 2 ^ 64"
  shows "case shm_run ring cs of (acc, del, end_ring) \<Rightarrow>
    shm_queue ring @ acc = del @ shm_queue end_ring \<and> shm_inv end_ring
    \<and> length (shm_queue end_ring) \<le> shm_slot_count ring"
  using assms
proof (induction cs arbitrary: ring)
  case Nil
  then show ?case using shm_rep_bound by (auto simp: shm_inv_def)
next
  case (Cons c cs)
  have w: "unat (write_pos (shm_map ring)) < 2 ^ 64 - 1" using Cons.prems(2) by simp
  have same: "case shm_run ring cs of (acc, del, end_ring) \<Rightarrow>
      shm_queue ring @ acc = del @ shm_queue end_ring \<and> shm_inv end_ring
      \<and> length (shm_queue end_ring) \<le> shm_slot_count ring"
    using Cons.IH [OF Cons.prems(1)] Cons.prems(2) by simp
  show ?case
  proof (cases c)
    case (Push p)
    from Cons.prems(1) w show ?thesis
    proof (cases rule: try_push_cases [of ring p])
      case (stored ring')
      have "unat (write_pos (shm_map ring')) = Suc (unat (write_pos (shm_map ring)))"
        unfolding stored(6) using w by (simp add: unat_inc)
      with Cons.IH [OF stored(4)] Cons.prems(2) stored Push show ?thesis by (auto simp: split_beta Let_def)
    qed (use same Push in simp_all)
  next
    case Pop
    from Cons.prems(1) show ?thesis
    proof (cases rule: try_pop_cases)
      case (taken p q ring')
      with Cons.IH [OF taken(3)] Cons.prems(2) Pop show ?thesis by (auto simp: split_beta Let_def)
    qed (use same Pop in simp_all)
  qed
qed

lemma open_created:
  assumes "ShmPacketRing_open fs cfg = Inr ring" "shm_create cfg"
    and "shm_cfg_slot_count cfg < 2 ^ 64" "shm_cfg_slot_bytes cfg < 2 ^ 32"
  shows "shm_rep ring []" "validate_header (shm_map ring) (word_of_nat (shm_slot_count ring)) (word_of_nat (shm_slot_bytes ring)) = Inr ()"
    "shm_slot_count ring = shm_cfg_slot_count cfg" "shm_slot_bytes ring = shm_cfg_slot_bytes cfg"
    "write_pos (shm_map ring) = 0"
proof -
  let ?sc = "shm_cfg_slot_count cfg" and ?sb = "shm_cfg_slot_bytes cfg"
  obtain contents where ring: "ring = \<lparr>shm_map = init_ring (resize (HEADER_BYTES + ?sc * slot_stride ?sb) contents) ?sc ?sb,
      shm_slot_count = ?sc, shm_slot_bytes = ?sb, pushed = 0, popped = 0\<rparr>" and sc: "0 < ?sc"
    using assms(1,2) by (auto simp: ShmPacketRing_open_def Let_def split: if_splits sum.splits)
  have len: "length (resize n bs) = n" for n bs by (simp add: resize_def)
  from init_ring_rep [OF len sc assms(3,4)] ring
  show "shm_rep ring []" "validate_header (shm_map ring) (word_of_nat (shm_slot_count ring)) (word_of_nat (shm_slot_bytes ring)) = Inr ()"
    "shm_slot_count ring = ?sc" "shm_slot_bytes ring = ?sb" "write_pos (shm_map ring) = 0" by simp_all
qed

text \<open>
  C5: the shared memory ring refines a bounded first-in first-out queue.  From a newly created ring
  with fewer than 2 to the 64 slots of less than 2 to the 32 bytes each, and for any interleaving of pushes and pops short of a wrap of the 64-bit positions, the packets
  that were accepted are exactly those that were delivered followed by those still in the ring, in
  order and byte for byte, and the ring never holds more packets than it has slots.
\<close>

theorem shm_refines_fifo:
  assumes "ShmPacketRing_open fs cfg = Inr ring" "shm_create cfg"
    and "shm_cfg_slot_count cfg < 2 ^ 64" "shm_cfg_slot_bytes cfg < 2 ^ 32" "length cs < 2 ^ 64"
  shows "case shm_run ring cs of (accepted, delivered, end_ring) \<Rightarrow>
    accepted = delivered @ shm_queue end_ring \<and> length (shm_queue end_ring) \<le> shm_cfg_slot_count cfg"
proof -
  note created = open_created [OF assms(1-4)]
  have "shm_inv ring" "shm_queue ring = []" using shm_repI [OF created(1)] by simp_all
  moreover have "unat (write_pos (shm_map ring)) = 0"
    using created(5) by simp
  ultimately show ?thesis
    using shm_run_fifo [of ring cs] assms(5) created(3) by (auto simp: split_beta)
qed

definition sample_fs :: "u8 list \<Rightarrow> fs" where
  "sample_fs bytes = \<lparr>fs_create_parent = (\<lambda>_. Inr ()), fs_open = (\<lambda>_ trunc. Inr (if trunc then [] else bytes)),
     fs_set_len = (\<lambda>_ _. Inr ()), fs_map = (\<lambda>_ _. Inr ())\<rparr>"

definition sample_shm_config :: ShmLinkConfig where
  "sample_shm_config = \<lparr>shm_version = ''1.0.0'', shm_id = ''shm-test'', shm_path = ''/dev/shm/aether'',
     shm_cfg_slot_count = 2, shm_cfg_slot_bytes = 64, shm_create = True\<rparr>"

definition sample_shm_ring :: ShmPacketRing where
  "sample_shm_ring = \<lparr>shm_map = init_ring (resize 208 []) 2 64, shm_slot_count = 2, shm_slot_bytes = 64,
     pushed = 0, popped = 0\<rparr>"

lemma sample_shm_open: "ShmPacketRing_open (sample_fs []) sample_shm_config = Inr sample_shm_ring"
  by (simp add: ShmPacketRing_open_def sample_shm_config_def sample_fs_def sample_shm_ring_def
      HEADER_BYTES_def slot_stride_def)

lemma sample_shm_limits:
  "shm_create sample_shm_config" "shm_cfg_slot_count sample_shm_config < 2 ^ 64"
  "shm_cfg_slot_bytes sample_shm_config < 2 ^ 32"
  by (simp_all add: sample_shm_config_def)

abbreviation sample_shm_packet :: Packet where
  "sample_shm_packet \<equiv> Packet_new (StreamId 3) (Sequence 11) (Timestamp 22) [1, 2, 3, 4]"

theorem shm_refines_fifo_witness:
  "case shm_run sample_shm_ring [Push sample_shm_packet, Pop, Pop] of (accepted, delivered, end_ring) \<Rightarrow>
    accepted = delivered @ shm_queue end_ring
    \<and> length (shm_queue end_ring) \<le> shm_cfg_slot_count sample_shm_config"
  by (rule shm_refines_fifo [OF sample_shm_open sample_shm_limits]) simp

lemma sample_shm_inv: "shm_inv sample_shm_ring" "write_pos (shm_map sample_shm_ring) = 0"
  using open_created [OF sample_shm_open sample_shm_limits] shm_repI by blast+

text \<open>
  C25: one push and one pop, on every branch.  On a ring that only push and pop have touched since it was created, and
  into which fewer than 2 to the 64 minus 1 packets were pushed: a frame that does not fit a slot is refused as such
  whatever the fill level; a frame that fits is refused exactly when the ring is full; both refusals leave the ring alone.
  Otherwise the packet joins the queue at its end.  A pop of an empty ring returns nothing and leaves it alone, and of
  any other ring it returns the oldest packet and removes it; it never fails to decode a frame.
\<close>

theorem shm_push_pop_verdict:
  assumes "shm_inv ring" "unat (write_pos (shm_map ring)) < 2 ^ 64 - 1"
  shows "(if shm_slot_bytes ring < 32 + length (payload p) then try_push ring p = (Inl FrameTooLarge, ring)
     else if length (shm_queue ring) = shm_slot_count ring then try_push ring p = (Inl ShmRingFull, ring)
     else \<exists>ring'. try_push ring p = (Inr (), ring') \<and> shm_inv ring' \<and> shm_queue ring' = shm_queue ring @ [p]
       \<and> shm_slot_count ring' = shm_slot_count ring \<and> shm_slot_bytes ring' = shm_slot_bytes ring)
    \<and> (if shm_queue ring = [] then try_pop ring = (Inr None, ring)
     else \<exists>ring'. try_pop ring = (Inr (Some (hd (shm_queue ring))), ring') \<and> shm_inv ring'
       \<and> shm_queue ring' = tl (shm_queue ring))"
proof
  from assms show "(if shm_slot_bytes ring < 32 + length (payload p) then try_push ring p = (Inl FrameTooLarge, ring)
     else if length (shm_queue ring) = shm_slot_count ring then try_push ring p = (Inl ShmRingFull, ring)
     else \<exists>ring'. try_push ring p = (Inr (), ring') \<and> shm_inv ring' \<and> shm_queue ring' = shm_queue ring @ [p]
       \<and> shm_slot_count ring' = shm_slot_count ring \<and> shm_slot_bytes ring' = shm_slot_bytes ring)"
  proof (cases rule: try_push_cases [of ring p])
    case (stored ring')
    then show ?thesis by (auto simp: not_less)
  qed auto
  from assms(1) show "(if shm_queue ring = [] then try_pop ring = (Inr None, ring)
     else \<exists>ring'. try_pop ring = (Inr (Some (hd (shm_queue ring))), ring') \<and> shm_inv ring'
       \<and> shm_queue ring' = tl (shm_queue ring))"
    by (cases rule: try_pop_cases) auto
qed

theorem shm_push_pop_verdict_witness:
  "(if shm_slot_bytes sample_shm_ring < 32 + length (payload sample_shm_packet) then try_push sample_shm_ring sample_shm_packet = (Inl FrameTooLarge, sample_shm_ring)
     else if length (shm_queue sample_shm_ring) = shm_slot_count sample_shm_ring then try_push sample_shm_ring sample_shm_packet = (Inl ShmRingFull, sample_shm_ring)
     else \<exists>ring'. try_push sample_shm_ring sample_shm_packet = (Inr (), ring') \<and> shm_inv ring' \<and> shm_queue ring' = shm_queue sample_shm_ring @ [sample_shm_packet]
       \<and> shm_slot_count ring' = shm_slot_count sample_shm_ring \<and> shm_slot_bytes ring' = shm_slot_bytes sample_shm_ring)
    \<and> (if shm_queue sample_shm_ring = [] then try_pop sample_shm_ring = (Inr None, sample_shm_ring)
     else \<exists>ring'. try_pop sample_shm_ring = (Inr (Some (hd (shm_queue sample_shm_ring))), ring') \<and> shm_inv ring'
       \<and> shm_queue ring' = tl (shm_queue sample_shm_ring))"
  by (rule shm_push_pop_verdict) (simp_all add: sample_shm_inv)

section \<open>The receiving side\<close>

lemma poll_rx_loop_spec:
  assumes "shm_inv (shm_ring io)"
  shows "fst (poll_rx_loop n fuel io) = Inr (n + min fuel (length (shm_queue (shm_ring io))))
    \<and> shm_rx (snd (poll_rx_loop n fuel io)) = shm_rx io @ take fuel (shm_queue (shm_ring io))
    \<and> shm_inv (shm_ring (snd (poll_rx_loop n fuel io)))
    \<and> shm_queue (shm_ring (snd (poll_rx_loop n fuel io))) = drop fuel (shm_queue (shm_ring io))"
  using assms
proof (induction fuel arbitrary: n io)
  case 0
  then show ?case by simp
next
  case (Suc fuel)
  from Suc.prems show ?case
  proof (cases rule: try_pop_cases)
    case empty
    with Suc.prems show ?thesis by simp
  next
    case (taken p q ring')
    with Suc.IH [of "io\<lparr>shm_ring := ring', shm_rx := shm_rx io @ [p]\<rparr>" "Suc n"] show ?thesis by simp
  qed
qed

interpretation shm_io: burst_queue shm_rx_burst "\<lambda>io. shm_rx io @ shm_queue (shm_ring io)" "\<lambda>_ m. m"
  "\<lambda>io. shm_inv (shm_ring io)"
proof unfold_locales
  fix io :: ShmPacketIO and m :: nat
  assume inv: "shm_inv (shm_ring io)"
  note poll = poll_rx_loop_spec [OF inv, of 0 m]
  have tk: "take (min m (length xs)) xs = take m xs" "drop (min m (length xs)) xs = drop m xs" for xs :: "Packet list"
    by (cases "m \<le> length xs"; simp)+
  have "take m (xs @ take m ys) = take m (xs @ ys)" "drop m (xs @ take m ys) @ drop m ys = drop m (xs @ ys)"
    for xs ys :: "Packet list"
  proof -
    show "take m (xs @ take m ys) = take m (xs @ ys)" by simp
    have "drop m (xs @ take m ys) @ drop m ys = drop m xs @ (drop (m - length xs) (take m ys) @ drop m ys)" by simp
    also have "drop (m - length xs) (take m ys) @ drop m ys = drop (m - length xs) ys"
      using append_take_drop_id [of m ys] by (metis diff_le_self drop_append drop_drop drop_take length_take le_add_diff_inverse2 min.absorb1 take_add append_take_drop_id)
    finally show "drop m (xs @ take m ys) @ drop m ys = drop m (xs @ ys)" by simp
  qed
  then show "fst (shm_rx_burst io m) = take m (shm_rx io @ shm_queue (shm_ring io))"
    "shm_rx (snd (shm_rx_burst io m)) @ shm_queue (shm_ring (snd (shm_rx_burst io m)))
       = drop m (shm_rx io @ shm_queue (shm_ring io))"
    "shm_inv (shm_ring (snd (shm_rx_burst io m)))"
    using poll by (simp_all add: shm_rx_burst_def shm_poll_rx_def drain_front_def Let_def tk)
qed simp_all

section \<open>Attaching a consumer\<close>

lemma push_pop_header:
  assumes "shm_geometry sc sb m" "i < sc" "a + 4 \<le> 16"
  shows "length frame \<le> sb \<Longrightarrow> load_u32 (push_map sb i frame w m) a = load_u32 m a"
    "load_u32 (pop_map sb i r m) a = load_u32 m a"
  using slot_base_ge [of sb i] slot_in_map [OF assms(1,2)] assms(3)
  by (simp_all add: push_map_def pop_map_def store_u32_def store_u64_def load_u32_blit length_blit)

definition shm_header_ok :: "ShmPacketRing \<Rightarrow> bool" where
  "shm_header_ok ring \<longleftrightarrow>
     validate_header (shm_map ring) (word_of_nat (shm_slot_count ring)) (word_of_nat (shm_slot_bytes ring)) = Inr ()"

lemma validate_header_cong:
  assumes "\<And>a. a + 4 \<le> 16 \<Longrightarrow> load_u32 m' a = load_u32 m a"
  shows "validate_header m' sc sb = validate_header m sc sb"
  using assms [of 0] assms [of 4] assms [of 8] assms [of 12] by (simp add: validate_header_def)

lemma header_push:
  assumes "shm_inv ring" "shm_header_ok ring" "try_push ring p = (Inr u, ring')"
  shows "shm_header_ok ring'"
proof -
  let ?i = "unat (write_pos (shm_map ring)) mod shm_slot_count ring"
  have geo: "shm_geometry (shm_slot_count ring) (shm_slot_bytes ring) (shm_map ring)" and "0 < shm_slot_count ring"
    using assms(1) by (simp_all add: shm_inv_def shm_rep_def Let_def)
  then have i: "?i < shm_slot_count ring" by simp
  have r': "ring' = ring\<lparr>shm_map := push_map (shm_slot_bytes ring) ?i (encode_frame p) (write_pos (shm_map ring)) (shm_map ring),
      pushed := pushed ring + 1\<rparr>" and len: "length (encode_frame p) \<le> shm_slot_bytes ring"
    using assms(3) by (auto simp: try_push_def push_map_def Let_def split: if_splits)
  have "validate_header (shm_map ring') sc sb = validate_header (shm_map ring) sc sb" for sc sb
    unfolding r' using push_pop_header(1) [OF geo i _ len] by (intro validate_header_cong) simp
  then show ?thesis using assms(2) r' by (simp add: shm_header_ok_def)
qed

lemma header_pop:
  assumes "shm_inv ring" "shm_header_ok ring" "try_pop ring = (Inr (Some p), ring')"
  shows "shm_header_ok ring'"
proof -
  let ?i = "unat (read_pos (shm_map ring)) mod shm_slot_count ring"
  have geo: "shm_geometry (shm_slot_count ring) (shm_slot_bytes ring) (shm_map ring)" and "0 < shm_slot_count ring"
    using assms(1) by (simp_all add: shm_inv_def shm_rep_def Let_def)
  then have i: "?i < shm_slot_count ring" by simp
  have r': "ring' = ring\<lparr>shm_map := pop_map (shm_slot_bytes ring) ?i (read_pos (shm_map ring)) (shm_map ring),
      popped := popped ring + 1\<rparr>"
    using assms(3) by (auto simp: try_pop_def pop_map_def Let_def split: if_splits sum.splits)
  have "validate_header (shm_map ring') sc sb = validate_header (shm_map ring) sc sb" for sc sb
    unfolding r' using push_pop_header(2) [OF geo i] by (intro validate_header_cong) simp
  then show ?thesis using assms(2) r' by (simp add: shm_header_ok_def)
qed

lemma shm_run_static:
  assumes "shm_inv ring" "shm_header_ok ring" "unat (write_pos (shm_map ring)) + length cs < 2 ^ 64"
  shows "shm_header_ok (snd (snd (shm_run ring cs))) \<and> shm_slot_count (snd (snd (shm_run ring cs))) = shm_slot_count ring
    \<and> shm_slot_bytes (snd (snd (shm_run ring cs))) = shm_slot_bytes ring"
  using assms
proof (induction cs arbitrary: ring)
  case Nil
  then show ?case by simp
next
  case (Cons c cs)
  have w: "unat (write_pos (shm_map ring)) < 2 ^ 64 - 1" using Cons.prems(3) by simp
  note same = Cons.IH [OF Cons.prems(1,2)]
  show ?case
  proof (cases c)
    case (Push p)
    from Cons.prems(1) w show ?thesis
    proof (cases rule: try_push_cases [of ring p])
      case (stored ring')
      have "unat (write_pos (shm_map ring')) = Suc (unat (write_pos (shm_map ring)))"
        unfolding stored(6) using w by (simp add: unat_inc)
      with Cons.IH [OF stored(4) header_push [OF Cons.prems(1,2) stored(3)]] Cons.prems(3) stored Push
      show ?thesis by (simp add: split_beta Let_def)
    qed (use same Push Cons.prems(3) in simp_all)
  next
    case Pop
    from Cons.prems(1) show ?thesis
    proof (cases rule: try_pop_cases)
      case (taken p q ring')
      with Cons.IH [OF taken(3) header_pop [OF Cons.prems(1,2) taken(2)]] Cons.prems(3) Pop
      show ?thesis by (simp add: split_beta Let_def)
    qed (use same Pop Cons.prems(3) in simp_all)
  qed
qed

lemma shm_queue_map:
  "shm_map a = shm_map b \<Longrightarrow> shm_slot_count a = shm_slot_count b \<Longrightarrow> shm_slot_bytes a = shm_slot_bytes b \<Longrightarrow>
     shm_queue a = shm_queue b"
  by (simp add: shm_queue_def)

text \<open>
  A consumer attaches to a live ring.  Whatever the producer's side has done to a ring since it
  created it, a receiver that opens the same file with the same configuration succeeds, does not
  reinitialise the ring even if its configuration asks for that, and sees exactly the packets in it.
\<close>

theorem consumer_attaches:
  assumes "ShmPacketRing_open fs cfg = Inr ring" "shm_create cfg"
    and "shm_cfg_slot_count cfg < 2 ^ 64" "shm_cfg_slot_bytes cfg < 2 ^ 32" "length cs < 2 ^ 64"
    and "fs_create_parent fs' (shm_path cfg) = Inr ()"
    and "fs_open fs' (shm_path cfg) False = Inr (shm_map (snd (snd (shm_run ring cs))))"
    and "\<And>n. fs_map fs' (shm_path cfg) n = Inr ()"
  shows "\<exists>io. ShmPacketIO_open fs' cfg = Inr io \<and> shm_rx io = []
    \<and> shm_queue (shm_ring io) = shm_queue (snd (snd (shm_run ring cs)))"
proof -
  let ?r = "snd (snd (shm_run ring cs))"
  note created = open_created [OF assms(1-4)]
  have inv: "shm_inv ring" "shm_header_ok ring"
    using shm_repI [OF created(1)] created(2) by (simp_all add: shm_header_ok_def)
  have lt: "unat (write_pos (shm_map ring)) + length cs < 2 ^ 64" using assms(5) created(5) by simp
  note run = shm_run_static [OF inv lt]
  have "shm_inv ?r" using shm_run_fifo [OF inv(1) lt] by (simp add: split_beta)
  then have len: "length (shm_map ?r) = HEADER_BYTES + shm_cfg_slot_count cfg * slot_stride (shm_cfg_slot_bytes cfg)"
    using run created by (simp add: shm_inv_def shm_rep_def shm_geometry_def Let_def)
  have ok: "\<not> (shm_cfg_slot_count cfg = 0 \<or> shm_cfg_slot_bytes cfg < 64)"
    using assms(1) by (auto simp: ShmPacketRing_open_def Let_def split: if_splits)
  have hdr: "validate_header (shm_map ?r) (word_of_nat (shm_cfg_slot_count cfg)) (word_of_nat (shm_cfg_slot_bytes cfg)) = Inr ()"
    using run created by (auto simp: shm_header_ok_def)
  have "ShmPacketIO_open fs' cfg = Inr \<lparr>shm_ring = \<lparr>shm_map = shm_map ?r, shm_slot_count = shm_cfg_slot_count cfg,
      shm_slot_bytes = shm_cfg_slot_bytes cfg, pushed = 0, popped = 0\<rparr>, shm_rx = []\<rparr>"
    using ok hdr len assms(6-8) by (simp add: ShmPacketIO_open_def ShmPacketRing_open_def Let_def)
  moreover have "shm_queue \<lparr>shm_map = shm_map ?r, shm_slot_count = shm_cfg_slot_count cfg,
      shm_slot_bytes = shm_cfg_slot_bytes cfg, pushed = 0, popped = 0\<rparr> = shm_queue ?r"
    using run created by (intro shm_queue_map) simp_all
  ultimately show ?thesis by simp
qed

theorem consumer_attaches_witness:
  "\<exists>io. ShmPacketIO_open (sample_fs (shm_map (snd (snd (shm_run sample_shm_ring [Push sample_shm_packet]))))) sample_shm_config = Inr io
    \<and> shm_rx io = []
    \<and> shm_queue (shm_ring io) = shm_queue (snd (snd (shm_run sample_shm_ring [Push sample_shm_packet])))"
  by (rule consumer_attaches [OF sample_shm_open sample_shm_limits]) (simp_all add: sample_fs_def)

text \<open>
  A slot whose bytes do not decode is never skipped: the pop reports the error and leaves the read
  position where it was, so every later pop reports the same error.
\<close>

lemma decode_error_blocks: "try_pop ring = (Inl e, ring') \<Longrightarrow> ring' = ring"
  by (auto simp: try_pop_def Let_def split: if_splits sum.splits)

text \<open>The state word of slot 1 is not aligned to four bytes unless the slot size is a multiple of four.\<close>

lemma slot_alignment: "4 dvd slot_base sb 1 \<longleftrightarrow> 4 dvd sb"
proof -
  have "slot_base sb 1 = 72 + sb" by (simp add: slot_base_def HEADER_BYTES_def slot_stride_def)
  moreover have "(4::nat) dvd 72" by simp
  ultimately show ?thesis by (simp only: dvd_add_right_iff)
qed

end
