(* ===== verification/Shm_Concurrent.thy ===== *)
theory Shm_Concurrent
  imports Shm_Ring
begin

text \<open>
  \<^verbatim>\<open>try_push\<close> and \<^verbatim>\<open>try_pop\<close> of \<^verbatim>\<open>shm-io\<close> at the granularity of the single loads and stores of the shared map,
  run by two processes in any interleaving.  A step is one atomic access; the copy of the frame goes byte by
  byte.  The loads and stores take effect in the order of the program, as the acquire and release orderings of
  the source prescribe for one producer and one consumer.
\<close>

section \<open>The steps\<close>

datatype push_pc =
    PushIdle
  | PushLoadWrite Packet
  | PushLoadRead Packet u64
  | PushLoadState Packet u64
  | PushCopy Packet u64 nat
  | PushStoreLen Packet u64
  | PushStoreFull Packet u64
  | PushStoreWrite Packet u64

fun push_step :: "usize \<Rightarrow> usize \<Rightarrow> push_pc \<Rightarrow> shm_map \<Rightarrow> (ShmIoError + unit) option \<times> push_pc \<times> shm_map" where
  "push_step sc sb PushIdle m = (None, PushIdle, m)"
| "push_step sc sb (PushLoadWrite p) m = (None, PushLoadRead p (write_pos m), m)"
| "push_step sc sb (PushLoadRead p w) m =
     (if word_of_nat sc \<le> w - read_pos m then (Some (Inl ShmRingFull), PushIdle, m) else (None, PushLoadState p w, m))"
| "push_step sc sb (PushLoadState p w) m =
     (if shm_slot_state sb m (unat w mod sc) \<noteq> SLOT_STATE_EMPTY then (Some (Inl ShmRingFull), PushIdle, m)
      else (None, PushCopy p w 0, m))"
| "push_step sc sb (PushCopy p w k) m =
     (let frame = encode_frame p in
      if k < length frame
      then (None, PushCopy p w (Suc k), blit m (slot_base sb (unat w mod sc) + 8 + k) [frame ! k])
      else (None, PushStoreLen p w, m))"
| "push_step sc sb (PushStoreLen p w) m =
     (None, PushStoreFull p w, store_u32 m (slot_base sb (unat w mod sc) + 4) (word_of_nat (length (encode_frame p))))"
| "push_step sc sb (PushStoreFull p w) m =
     (None, PushStoreWrite p w, store_u32 m (slot_base sb (unat w mod sc)) SLOT_STATE_FULL)"
| "push_step sc sb (PushStoreWrite p w) m = (Some (Inr ()), PushIdle, store_u64 m 16 (w + 1))"

datatype pop_pc =
    PopIdle
  | PopLoadRead
  | PopLoadWrite u64
  | PopLoadState u64
  | PopLoadLen u64
  | PopRead u64 nat "u8 list"
  | PopStoreEmpty u64 Packet
  | PopStoreRead u64 Packet

fun pop_step :: "usize \<Rightarrow> usize \<Rightarrow> pop_pc \<Rightarrow> shm_map \<Rightarrow> (ShmIoError + Packet option) option \<times> pop_pc \<times> shm_map" where
  "pop_step sc sb PopIdle m = (None, PopIdle, m)"
| "pop_step sc sb PopLoadRead m = (None, PopLoadWrite (read_pos m), m)"
| "pop_step sc sb (PopLoadWrite r) m =
     (if r = write_pos m then (Some (Inr None), PopIdle, m) else (None, PopLoadState r, m))"
| "pop_step sc sb (PopLoadState r) m =
     (if shm_slot_state sb m (unat r mod sc) \<noteq> SLOT_STATE_FULL then (Some (Inr None), PopIdle, m) else (None, PopLoadLen r, m))"
| "pop_step sc sb (PopLoadLen r) m =
     (let n = unat (shm_slot_len sb m (unat r mod sc)) in
      if length (shm_slot_data sb m (unat r mod sc)) < n then (Some (Inl ShmPanic), PopIdle, m) else (None, PopRead r n [], m))"
| "pop_step sc sb (PopRead r n bs) m =
     (if length bs < n then (None, PopRead r n (bs @ [shm_slot_data sb m (unat r mod sc) ! length bs]), m)
      else case decode_frame bs of
             Inl e \<Rightarrow> (Some (Inl (ShmProtocol e)), PopIdle, m)
           | Inr pkt \<Rightarrow> (None, PopStoreEmpty r pkt, m))"
| "pop_step sc sb (PopStoreEmpty r pkt) m = (None, PopStoreRead r pkt, store_u32 m (slot_base sb (unat r mod sc)) SLOT_STATE_EMPTY)"
| "pop_step sc sb (PopStoreRead r pkt) m = (Some (Inr (Some pkt)), PopIdle, store_u64 m 24 (r + 1))"

text \<open>The first thing \<^verbatim>\<open>try_push\<close> does is to compare the size of the frame; no access of the map is needed for that.\<close>

definition push_start :: "usize \<Rightarrow> Packet \<Rightarrow> (ShmIoError + unit) option \<times> push_pc" where
  "push_start sb p = (if sb < length (encode_frame p) then (Some (Inl FrameTooLarge), PushIdle) else (None, PushLoadWrite p))"

subsection \<open>One operation, with what the other process does in between\<close>

fun push_left :: "push_pc \<Rightarrow> nat" where
  "push_left PushIdle = 0"
| "push_left (PushLoadWrite p) = length (encode_frame p) + 7"
| "push_left (PushLoadRead p w) = length (encode_frame p) + 6"
| "push_left (PushLoadState p w) = length (encode_frame p) + 5"
| "push_left (PushCopy p w k) = (length (encode_frame p) - k) + 4"
| "push_left (PushStoreLen p w) = 3"
| "push_left (PushStoreFull p w) = 2"
| "push_left (PushStoreWrite p w) = 1"

fun pop_left :: "usize \<Rightarrow> pop_pc \<Rightarrow> nat" where
  "pop_left sb PopIdle = 0"
| "pop_left sb PopLoadRead = sb + 7"
| "pop_left sb (PopLoadWrite r) = sb + 6"
| "pop_left sb (PopLoadState r) = sb + 5"
| "pop_left sb (PopLoadLen r) = sb + 4"
| "pop_left sb (PopRead r n bs) = (n - length bs) + 3"
| "pop_left sb (PopStoreEmpty r p) = 2"
| "pop_left sb (PopStoreRead r p) = 1"

lemma slot_data_length_le: "length (shm_slot_data sb m i) \<le> sb"
  by (simp add: shm_slot_data_def subslice_def)

lemma push_left_step: "push_step sc sb pc m = (None, pc', m') \<Longrightarrow> pc \<noteq> PushIdle \<Longrightarrow> push_left pc' < push_left pc \<and> pc' \<noteq> PushIdle"
  by (cases pc) (auto simp: Let_def split: if_splits)

lemma pop_left_step: "pop_step sc sb pc m = (None, pc', m') \<Longrightarrow> pc \<noteq> PopIdle \<Longrightarrow> pop_left sb pc' < pop_left sb pc \<and> pc' \<noteq> PopIdle"
  by (cases pc) (auto simp: Let_def not_less less_Suc_eq_le intro: le_trans [OF _ slot_data_length_le] split: if_splits sum.splits)

text \<open>
  The steps of one operation until it returns, its result, the map and the number of steps.  \<open>other k\<close> is what the
  other process does to the map before step \<open>k\<close>.
\<close>

function push_run :: "(nat \<Rightarrow> shm_map \<Rightarrow> shm_map) \<Rightarrow> nat \<Rightarrow> usize \<Rightarrow> usize \<Rightarrow> push_pc \<Rightarrow> shm_map \<Rightarrow> (ShmIoError + unit) option \<times> shm_map \<times> nat" where
  "push_run other k sc sb pc m =
     (if pc = PushIdle then (None, m, k)
      else case push_step sc sb pc (other k m) of
             (Some r, _, m') \<Rightarrow> (Some r, m', Suc k)
           | (None, pc', m') \<Rightarrow> push_run other (Suc k) sc sb pc' m')"
  by pat_completeness auto
termination
  by (relation "measure (\<lambda>(_, _, _, _, pc, _). push_left pc)") (auto dest!: sym [of "(None, _)"] push_left_step)

function pop_run :: "(nat \<Rightarrow> shm_map \<Rightarrow> shm_map) \<Rightarrow> nat \<Rightarrow> usize \<Rightarrow> usize \<Rightarrow> pop_pc \<Rightarrow> shm_map
    \<Rightarrow> (ShmIoError + Packet option) option \<times> shm_map \<times> nat" where
  "pop_run other k sc sb pc m =
     (if pc = PopIdle then (None, m, k)
      else case pop_step sc sb pc (other k m) of
             (Some r, _, m') \<Rightarrow> (Some r, m', Suc k)
           | (None, pc', m') \<Rightarrow> pop_run other (Suc k) sc sb pc' m')"
  by pat_completeness auto
termination
  by (relation "measure (\<lambda>(_, _, _, sb, pc, _). pop_left sb pc)") (auto dest!: sym [of "(None, _)"] pop_left_step)

declare push_run.simps [simp del] pop_run.simps [simp del]

subsection \<open>Two processes\<close>

record ring_system =
  rs_map :: shm_map
  rs_push :: push_pc
  rs_pop :: pop_pc
  rs_sent :: "Packet list"
  rs_got :: "Packet list"
  rs_errors :: "ShmIoError list"

definition system_start :: "shm_map \<Rightarrow> ring_system" where
  "system_start m = \<lparr>rs_map = m, rs_push = PushIdle, rs_pop = PopIdle, rs_sent = [], rs_got = [], rs_errors = []\<rparr>"

text \<open>Whose turn it is; a producer between two operations starts one for the packet given.\<close>

datatype turn = Producer Packet | Consumer

fun sent_by :: "push_pc \<Rightarrow> Packet list" where
  "sent_by (PushStoreWrite p w) = [p]"
| "sent_by _ = []"

fun system_turn :: "usize \<Rightarrow> usize \<Rightarrow> turn \<Rightarrow> ring_system \<Rightarrow> ring_system" where
  "system_turn sc sb (Producer p) s =
     (if rs_push s = PushIdle then s\<lparr>rs_push := snd (push_start sb p)\<rparr>
      else case push_step sc sb (rs_push s) (rs_map s) of
             (_, pc, m) \<Rightarrow> s\<lparr>rs_map := m, rs_push := pc, rs_sent := rs_sent s @ sent_by (rs_push s)\<rparr>)"
| "system_turn sc sb Consumer s =
     (if rs_pop s = PopIdle then s\<lparr>rs_pop := PopLoadRead\<rparr>
      else case pop_step sc sb (rs_pop s) (rs_map s) of
             (res, pc, m) \<Rightarrow>
               let s = s\<lparr>rs_map := m, rs_pop := pc\<rparr> in
               (case res of
                  Some (Inr (Some p)) \<Rightarrow> s\<lparr>rs_got := rs_got s @ [p]\<rparr>
                | Some (Inl e) \<Rightarrow> s\<lparr>rs_errors := rs_errors s @ [e]\<rparr>
                | _ \<Rightarrow> s))"

definition system_run :: "usize \<Rightarrow> usize \<Rightarrow> turn list \<Rightarrow> ring_system \<Rightarrow> ring_system" where
  "system_run sc sb ts s = fold (system_turn sc sb) ts s"

section \<open>The operations are made of these steps\<close>

lemma push_run_returns:
  "pc \<noteq> PushIdle \<Longrightarrow> \<exists>r m' k'. push_run other k sc sb pc m = (Some r, m', k') \<and> k' \<le> k + push_left pc"
proof (induction other k sc sb pc m rule: push_run.induct)
  case (1 other k sc sb pc m)
  obtain res pc' m' where step: "push_step sc sb pc (other k m) = (res, pc', m')" by (metis prod_cases3)
  show ?case
  proof (cases res)
    case None
    note left = push_left_step [OF step [unfolded None] "1.prems"]
    from "1.IH" [OF "1.prems" step [symmetric] None refl] left obtain r m2 k' where
      "push_run other (Suc k) sc sb pc' m' = (Some r, m2, k')" "k' \<le> Suc k + push_left pc'" by auto
    then show ?thesis using left step None "1.prems" by (subst push_run.simps) auto
  next
    case (Some r)
    then show ?thesis using step "1.prems" by (subst push_run.simps) (cases pc; simp)
  qed
qed

lemma pop_run_returns:
  "pc \<noteq> PopIdle \<Longrightarrow> \<exists>r m' k'. pop_run other k sc sb pc m = (Some r, m', k') \<and> k' \<le> k + pop_left sb pc"
proof (induction other k sc sb pc m rule: pop_run.induct)
  case (1 other k sc sb pc m)
  obtain res pc' m' where step: "pop_step sc sb pc (other k m) = (res, pc', m')" by (metis prod_cases3)
  show ?case
  proof (cases res)
    case None
    note left = pop_left_step [OF step [unfolded None] "1.prems"]
    from "1.IH" [OF "1.prems" step [symmetric] None refl] left obtain r m2 k' where
      "pop_run other (Suc k) sc sb pc' m' = (Some r, m2, k')" "k' \<le> Suc k + pop_left sb pc'" by auto
    then show ?thesis using left step None "1.prems" by (subst pop_run.simps) auto
  next
    case (Some r)
    then show ?thesis using step "1.prems" by (subst pop_run.simps) (cases pc; simp)
  qed
qed

lemma blit_Cons:
  "off + Suc (length ys) \<le> length m \<Longrightarrow> blit (blit m off [x]) (Suc off) ys = blit m off (x # ys)"
  by (simp add: blit_def add.commute)

lemma push_copy_alone:
  assumes "slot_base sb (unat w mod sc) + 8 + length (encode_frame p) \<le> length m" "k \<le> length (encode_frame p)"
  shows "\<exists>j'. push_run (\<lambda>_ m. m) j sc sb (PushCopy p w k) m =
    push_run (\<lambda>_ m. m) j' sc sb (PushStoreLen p w) (blit m (slot_base sb (unat w mod sc) + 8 + k) (drop k (encode_frame p)))"
  using assms
proof (induction "length (encode_frame p) - k" arbitrary: k j m)
  case 0
  then have "push_run (\<lambda>_ m. m) j sc sb (PushCopy p w k) m = push_run (\<lambda>_ m. m) (Suc j) sc sb (PushStoreLen p w) m"
    by (subst push_run.simps) (simp del: length_encode_frame)
  moreover have "blit m (slot_base sb (unat w mod sc) + 8 + k) [] = m" by (simp add: blit_def)
  ultimately show ?case using 0 by (auto simp del: length_encode_frame)
next
  case (Suc n)
  let ?off = "slot_base sb (unat w mod sc) + 8 + k" and ?f = "encode_frame p"
  let ?m = "blit m ?off [?f ! k]"
  have k: "k < length ?f" using Suc.hyps(2) by linarith
  have step: "push_run (\<lambda>_ m. m) j sc sb (PushCopy p w k) m = push_run (\<lambda>_ m. m) (Suc j) sc sb (PushCopy p w (Suc k)) ?m"
    using k by (subst push_run.simps) (simp add: Let_def del: length_encode_frame)
  have len: "length ?m = length m" using Suc.prems(1) k by (simp add: length_blit del: length_encode_frame)
  have "blit ?m (Suc ?off) (drop (Suc k) ?f) = blit m ?off (?f ! k # drop (Suc k) ?f)"
    using Suc.prems(1) k by (intro blit_Cons) (simp del: length_encode_frame)
  also have "?f ! k # drop (Suc k) ?f = drop k ?f" using k by (rule Cons_nth_drop_Suc)
  finally have all: "blit ?m (Suc ?off) (drop (Suc k) ?f) = blit m ?off (drop k ?f)" .
  have "\<exists>j'. push_run (\<lambda>_ m. m) (Suc j) sc sb (PushCopy p w (Suc k)) ?m =
      push_run (\<lambda>_ m. m) j' sc sb (PushStoreLen p w) (blit ?m (Suc ?off) (drop (Suc k) ?f))"
    using Suc.hyps(1) [of "Suc k" ?m "Suc j"] Suc.hyps(2) Suc.prems(1) k len by (simp del: length_encode_frame)
  then show ?case unfolding step all .
qed

lemma push_run_store:
  "push_run (\<lambda>_ m. m) j sc sb (PushStoreLen p w) m =
     (Some (Inr ()), store_u64 (store_u32 (store_u32 m (slot_base sb (unat w mod sc) + 4) (word_of_nat (length (encode_frame p))))
       (slot_base sb (unat w mod sc)) SLOT_STATE_FULL) 16 (w + 1), j + 3)"
  by (simp add: push_run.simps [of _ _ _ _ "PushStoreLen p w"] push_run.simps [of _ _ _ _ "PushStoreFull p w"]
      push_run.simps [of _ _ _ _ "PushStoreWrite p w"] del: length_encode_frame)

lemma push_alone:
  assumes "shm_geometry (shm_slot_count ring) (shm_slot_bytes ring) (shm_map ring)" "0 < shm_slot_count ring"
    and "length (encode_frame p) \<le> shm_slot_bytes ring"
  shows "\<exists>n. push_run (\<lambda>_ m. m) 0 (shm_slot_count ring) (shm_slot_bytes ring) (PushLoadWrite p) (shm_map ring) =
    (Some (fst (try_push ring p)), shm_map (snd (try_push ring p)), n)"
proof -
  let ?m = "shm_map ring" and ?sc = "shm_slot_count ring" and ?sb = "shm_slot_bytes ring"
  let ?w = "write_pos ?m"
  have "unat ?w mod ?sc < ?sc" using assms(2) by simp
  from slot_in_map [OF assms(1) this] have fits: "slot_base ?sb (unat ?w mod ?sc) + 8 + length (encode_frame p) \<le> length ?m"
    using assms(3) by linarith
  obtain j where copy: "push_run (\<lambda>_ m. m) 3 ?sc ?sb (PushCopy p ?w 0) ?m =
      push_run (\<lambda>_ m. m) j ?sc ?sb (PushStoreLen p ?w) (blit ?m (slot_base ?sb (unat ?w mod ?sc) + 8) (encode_frame p))"
    using push_copy_alone [OF fits, of 0 3] by auto
  show ?thesis
    using assms(3) copy
    by (simp add: push_run.simps [of _ _ _ _ "PushLoadWrite p"] push_run.simps [of _ _ _ _ "PushLoadRead p w" for w]
        push_run.simps [of _ _ _ _ "PushLoadState p w" for w] push_run_store numeral_3_eq_3 try_push_def Let_def del: length_encode_frame)
qed

lemma pop_read_alone:
  assumes "n \<le> length (shm_slot_data sb m (unat r mod sc))" "k \<le> n"
  shows "\<exists>j'. pop_run (\<lambda>_ m. m) j sc sb (PopRead r n (take k (shm_slot_data sb m (unat r mod sc)))) m =
    pop_run (\<lambda>_ m. m) j' sc sb (PopRead r n (take n (shm_slot_data sb m (unat r mod sc)))) m"
  using assms(2)
proof (induction "n - k" arbitrary: k j)
  case 0
  then show ?case by auto
next
  case (Suc x)
  let ?d = "shm_slot_data sb m (unat r mod sc)"
  have k: "k < n" "k < length ?d" using Suc.hyps(2) assms(1) by linarith+
  then have "pop_run (\<lambda>_ m. m) j sc sb (PopRead r n (take k ?d)) m = pop_run (\<lambda>_ m. m) (Suc j) sc sb (PopRead r n (take (Suc k) ?d)) m"
    by (subst pop_run.simps) (simp add: take_Suc_conv_app_nth)
  then show ?case using Suc.hyps(1) [of "Suc k" "Suc j"] Suc.hyps(2) k by simp
qed

lemma pop_alone:
  "\<exists>n. pop_run (\<lambda>_ m. m) 0 (shm_slot_count ring) (shm_slot_bytes ring) PopLoadRead (shm_map ring) =
    (Some (fst (try_pop ring)), shm_map (snd (try_pop ring)), n)"
proof -
  let ?m = "shm_map ring" and ?sc = "shm_slot_count ring" and ?sb = "shm_slot_bytes ring"
  let ?i = "unat (read_pos ?m) mod ?sc"
  let ?n = "unat (shm_slot_len ?sb ?m ?i)"
  show ?thesis
  proof (cases "length (shm_slot_data ?sb ?m ?i) < ?n")
    case True
    then show ?thesis
      by (simp add: pop_run.simps [of _ _ _ _ PopLoadRead] pop_run.simps [of _ _ _ _ "PopLoadWrite r" for r]
          pop_run.simps [of _ _ _ _ "PopLoadState r" for r] pop_run.simps [of _ _ _ _ "PopLoadLen r" for r] try_pop_def Let_def)
  next
    case False
    then obtain j where "pop_run (\<lambda>_ m. m) 4 ?sc ?sb (PopRead (read_pos ?m) ?n []) ?m =
        pop_run (\<lambda>_ m. m) j ?sc ?sb (PopRead (read_pos ?m) ?n (take ?n (shm_slot_data ?sb ?m ?i))) ?m"
      using pop_read_alone [of ?n ?sb ?m "read_pos ?m" ?sc 0 4] by auto
    then show ?thesis using False
      by (simp add: pop_run.simps [of _ _ _ _ PopLoadRead] pop_run.simps [of _ _ _ _ "PopLoadWrite r" for r]
          pop_run.simps [of _ _ _ _ "PopLoadState r" for r] pop_run.simps [of _ _ _ _ "PopLoadLen r" for r]
          pop_run.simps [of _ _ _ _ "PopRead r n (take n d)" for r n d] pop_run.simps [of _ _ _ _ "PopStoreEmpty r p" for r p]
          pop_run.simps [of _ _ _ _ "PopStoreRead r p" for r p] eval_nat_numeral try_pop_def Let_def split: sum.split)
  qed
qed

section \<open>What a single store changes\<close>

lemma map_length: "shm_geometry sc sb m \<Longrightarrow> 64 \<le> length m"
  by (simp add: shm_geometry_def HEADER_BYTES_def)

lemma geometry_blit: "shm_geometry sc sb m \<Longrightarrow> off + length ys \<le> length m \<Longrightarrow> shm_geometry sc sb (blit m off ys)"
  by (simp add: shm_geometry_def length_blit)

lemma slot_blit_positions:
  assumes "shm_geometry sc sb m" "i < sc" "slot_base sb i \<le> off" "off + length ys \<le> slot_base sb i + 8 + sb"
  shows "shm_geometry sc sb (blit m off ys)" "write_pos (blit m off ys) = write_pos m" "read_pos (blit m off ys) = read_pos m"
    "slot_view sb (blit m off ys) = (slot_view sb m)(i := slot_view sb (blit m off ys) i)"
proof -
  note b = slot_base_ge [of sb i] and l = slot_in_map [OF assms(1,2)]
  show "shm_geometry sc sb (blit m off ys)" using assms(1,4) l by (intro geometry_blit) simp_all
  show "write_pos (blit m off ys) = write_pos m" "read_pos (blit m off ys) = read_pos m"
    using b l assms(3,4) by (simp_all add: write_pos_def read_pos_def load_u64_blit)
  show "slot_view sb (blit m off ys) = (slot_view sb m)(i := slot_view sb (blit m off ys) i)"
    using slot_view_inside [OF assms(1,2) _ assms(3,4)] by auto
qed

lemma store_state:
  fixes v :: u32
  assumes "shm_geometry sc sb m" "i < sc"
  defines "m' \<equiv> store_u32 m (slot_base sb i) v"
  shows "shm_geometry sc sb m'" "write_pos m' = write_pos m" "read_pos m' = read_pos m"
    "slot_view sb m' = (slot_view sb m)(i := (v, snd (slot_view sb m i)))"
proof -
  note l = slot_in_map [OF assms(1,2)]
  have "slot_base sb i \<le> slot_base sb i" "slot_base sb i + length (u32_to_le_bytes v) \<le> slot_base sb i + 8 + sb" by simp_all
  note pos = slot_blit_positions [OF assms(1,2) this, folded store_u32_def, folded m'_def]
  show "shm_geometry sc sb m'" "write_pos m' = write_pos m" "read_pos m' = read_pos m" by (fact pos)+
  have "slot_view sb m' i = (v, snd (slot_view sb m i))"
    using l load_store_u32 [of "slot_base sb i" m v]
    by (simp add: m'_def slot_view_def shm_slot_state_def shm_slot_len_def shm_slot_data_def)
      (simp add: store_u32_def load_u32_blit subslice_blit_disjoint)
  then show "slot_view sb m' = (slot_view sb m)(i := (v, snd (slot_view sb m i)))" using pos(4) by simp
qed

lemma store_len:
  fixes v :: u32
  assumes "shm_geometry sc sb m" "i < sc"
  defines "m' \<equiv> store_u32 m (slot_base sb i + 4) v"
  shows "shm_geometry sc sb m'" "write_pos m' = write_pos m" "read_pos m' = read_pos m"
    "slot_view sb m' = (slot_view sb m)(i := (fst (slot_view sb m i), v, snd (snd (slot_view sb m i))))"
proof -
  note l = slot_in_map [OF assms(1,2)]
  have "slot_base sb i \<le> slot_base sb i + 4" "slot_base sb i + 4 + length (u32_to_le_bytes v) \<le> slot_base sb i + 8 + sb" by simp_all
  note pos = slot_blit_positions [OF assms(1,2) this, folded store_u32_def, folded m'_def]
  show "shm_geometry sc sb m'" "write_pos m' = write_pos m" "read_pos m' = read_pos m" by (fact pos)+
  have "slot_view sb m' i = (fst (slot_view sb m i), v, snd (snd (slot_view sb m i)))"
    using l load_store_u32 [of "slot_base sb i + 4" m v]
    by (simp add: m'_def slot_view_def shm_slot_state_def shm_slot_len_def shm_slot_data_def)
      (simp add: store_u32_def load_u32_blit subslice_blit_disjoint)
  then show "slot_view sb m' = (slot_view sb m)(i := (fst (slot_view sb m i), v, snd (snd (slot_view sb m i))))" using pos(4) by simp
qed

lemma subslice_blit_one:
  "a \<le> off \<Longrightarrow> off < b \<Longrightarrow> b \<le> length m \<Longrightarrow> subslice (blit m off [x]) a b = (subslice m a b)[off - a := x]"
  by (rule nth_equalityI) (auto simp: subslice_def nth_blit length_blit nth_list_update)

lemma store_byte:
  fixes x :: u8
  assumes "shm_geometry sc sb m" "i < sc" "k < sb"
  defines "m' \<equiv> blit m (slot_base sb i + 8 + k) [x]"
  shows "shm_geometry sc sb m'" "write_pos m' = write_pos m" "read_pos m' = read_pos m"
    "slot_view sb m' = (slot_view sb m)(i := (fst (slot_view sb m i), fst (snd (slot_view sb m i)), (snd (snd (slot_view sb m i)))[k := x]))"
proof -
  note l = slot_in_map [OF assms(1,2)]
  have "slot_base sb i \<le> slot_base sb i + 8 + k" "slot_base sb i + 8 + k + length [x] \<le> slot_base sb i + 8 + sb" using assms(3) by simp_all
  note pos = slot_blit_positions [OF assms(1,2) this, folded m'_def]
  show "shm_geometry sc sb m'" "write_pos m' = write_pos m" "read_pos m' = read_pos m" by (fact pos)+
  have "slot_view sb m' i = (fst (slot_view sb m i), fst (snd (slot_view sb m i)), (snd (snd (slot_view sb m i)))[k := x])"
    using l assms(3) subslice_blit_one [of "slot_base sb i + 8" "slot_base sb i + 8 + k" "slot_base sb i + 8 + sb" m x]
    by (simp add: m'_def slot_view_def shm_slot_state_def shm_slot_len_def shm_slot_data_def load_u32_blit)
  then show "slot_view sb m' = (slot_view sb m)(i := (fst (slot_view sb m i), fst (snd (slot_view sb m i)), (snd (snd (slot_view sb m i)))[k := x]))"
    using pos(4) by simp
qed

lemma store_position:
  assumes "shm_geometry sc sb m"
  shows "shm_geometry sc sb (store_u64 m 16 v)" "write_pos (store_u64 m 16 v) = v" "read_pos (store_u64 m 16 v) = read_pos m"
    "slot_view sb (store_u64 m 16 v) = slot_view sb m"
    "shm_geometry sc sb (store_u64 m 24 v)" "read_pos (store_u64 m 24 v) = v" "write_pos (store_u64 m 24 v) = write_pos m"
    "slot_view sb (store_u64 m 24 v) = slot_view sb m"
proof -
  note l = map_length [OF assms]
  show "shm_geometry sc sb (store_u64 m 16 v)" "shm_geometry sc sb (store_u64 m 24 v)"
    using assms l by (simp_all add: shm_geometry_def)
  show "write_pos (store_u64 m 16 v) = v" "read_pos (store_u64 m 24 v) = v"
    using l by (simp_all add: write_pos_def read_pos_def load_store_u64)
  show "read_pos (store_u64 m 16 v) = read_pos m" "write_pos (store_u64 m 24 v) = write_pos m"
    using l by (simp_all add: write_pos_def read_pos_def store_u64_def load_u64_blit)
  have "slot_view sb (store_u64 m a v) i = slot_view sb m i" if "a + 8 \<le> 64" for i a
    unfolding store_u64_def using l slot_base_ge [of sb i] that by (intro slot_view_blit) simp_all
  then show "slot_view sb (store_u64 m 16 v) = slot_view sb m" "slot_view sb (store_u64 m 24 v) = slot_view sb m" by auto
qed

section \<open>The invariant of the two processes\<close>

text \<open>
  The slots, seen as a function of their index, when \<open>sent\<close> packets were published and \<open>r\<close> of them taken:
  those in between hold their frames, all others are empty.  \<open>cleared\<close> says that the consumer has emptied its slot
  but not yet moved its position, \<open>written\<close> that the producer has filled its slot but not yet published it.
\<close>

type_synonym slots_view = "usize \<Rightarrow> u32 \<times> u32 \<times> u8 list"

definition slots_ok :: "usize \<Rightarrow> usize \<Rightarrow> slots_view \<Rightarrow> Packet list \<Rightarrow> nat \<Rightarrow> bool \<Rightarrow> bool \<Rightarrow> bool" where
  "slots_ok sc sb V S r cleared written \<longleftrightarrow>
     r \<le> length S \<and> length S \<le> r + sc
     \<and> (\<forall>j. r \<le> j \<and> j < length S \<and> \<not> (cleared \<and> j = r) \<longrightarrow> holds_frame sb (V (j mod sc)) (S ! j))
     \<and> (\<forall>i < sc. (\<forall>j. r \<le> j \<and> j < length S \<longrightarrow> i \<noteq> j mod sc) \<and> \<not> (written \<and> i = length S mod sc) \<longrightarrow> fst (V i) = SLOT_STATE_EMPTY)
     \<and> (cleared \<longrightarrow> r < length S \<and> fst (V (r mod sc)) = SLOT_STATE_EMPTY)"

lemma mod_apart:
  assumes "r \<le> j" "j < k" "k < r + sc"
  shows "j mod sc \<noteq> k mod (sc :: nat)"
proof
  assume eq: "j mod sc = k mod sc"
  have "j - r < sc" "k - r < sc" and whole: "r + (j - r) = j" "r + (k - r) = k" using assms by linarith+
  then have "j - r = k - r" using eq ring_index_inject [of "j - r" sc sc "k - r" r] by (simp only: whole)
  then show False using assms by linarith
qed

lemma slots_ok_fill:
  assumes "slots_ok sc sb V S r c False" "length S < r + sc" "written \<or> fst v = SLOT_STATE_EMPTY"
  shows "slots_ok sc sb (V(length S mod sc := v)) S r c written"
proof -
  have apart: "j mod sc \<noteq> length S mod sc" if "r \<le> j" "j < length S" for j using mod_apart that assms(2) by blast
  show ?thesis using assms(1,3) apart unfolding slots_ok_def by (auto simp: fun_upd_def)
qed

lemma slots_ok_publish:
  assumes "slots_ok sc sb V S r c True" "length S < r + sc" "holds_frame sb (V (length S mod sc)) p"
  shows "slots_ok sc sb V (S @ [p]) r c False"
  using assms unfolding slots_ok_def by (auto simp: nth_append less_Suc_eq)

lemma slots_ok_clear:
  assumes "slots_ok sc sb V S r False w" "r < length S"
  shows "slots_ok sc sb (V(r mod sc := (SLOT_STATE_EMPTY, x))) S r True w"
proof -
  have apart: "j mod sc \<noteq> r mod sc" if "r \<le> j" "j < length S" "j \<noteq> r" for j
    using mod_apart [of r r j sc] that assms(1) by (simp add: slots_ok_def)
  show ?thesis using assms apart unfolding slots_ok_def by (simp add: fun_upd_def)
qed

lemma slots_ok_advance:
  assumes "slots_ok sc sb V S r True w"
  shows "slots_ok sc sb V S (Suc r) False w"
proof -
  have "fst (V i) = SLOT_STATE_EMPTY" if i: "i < sc" "\<forall>j. Suc r \<le> j \<and> j < length S \<longrightarrow> i \<noteq> j mod sc" "\<not> (w \<and> i = length S mod sc)" for i
  proof (cases "i = r mod sc")
    case False
    then have "\<forall>j. r \<le> j \<and> j < length S \<longrightarrow> i \<noteq> j mod sc" using i(2) by (metis Suc_leI le_neq_implies_less)
    then show ?thesis using assms i(1,3) unfolding slots_ok_def by blast
  qed (use assms in \<open>simp add: slots_ok_def\<close>)
  then show ?thesis using assms unfolding slots_ok_def by auto
qed

text \<open>What each process knows at each of its program points.\<close>

fun push_ok :: "usize \<Rightarrow> usize \<Rightarrow> slots_view \<Rightarrow> nat \<Rightarrow> nat \<Rightarrow> push_pc \<Rightarrow> bool" where
  "push_ok sc sb V n r PushIdle \<longleftrightarrow> True"
| "push_ok sc sb V n r (PushLoadWrite p) \<longleftrightarrow> length (encode_frame p) \<le> sb"
| "push_ok sc sb V n r (PushLoadRead p w) \<longleftrightarrow> length (encode_frame p) \<le> sb \<and> unat w = n"
| "push_ok sc sb V n r (PushLoadState p w) \<longleftrightarrow> length (encode_frame p) \<le> sb \<and> unat w = n \<and> n < r + sc"
| "push_ok sc sb V n r (PushCopy p w k) \<longleftrightarrow> length (encode_frame p) \<le> sb \<and> unat w = n \<and> n < r + sc
     \<and> k \<le> length (encode_frame p) \<and> take k (snd (snd (V (n mod sc)))) = take k (encode_frame p)"
| "push_ok sc sb V n r (PushStoreLen p w) \<longleftrightarrow> length (encode_frame p) \<le> sb \<and> unat w = n \<and> n < r + sc
     \<and> take (length (encode_frame p)) (snd (snd (V (n mod sc)))) = encode_frame p"
| "push_ok sc sb V n r (PushStoreFull p w) \<longleftrightarrow> length (encode_frame p) \<le> sb \<and> unat w = n \<and> n < r + sc
     \<and> take (length (encode_frame p)) (snd (snd (V (n mod sc)))) = encode_frame p
     \<and> fst (snd (V (n mod sc))) = word_of_nat (length (encode_frame p))"
| "push_ok sc sb V n r (PushStoreWrite p w) \<longleftrightarrow> unat w = n \<and> n < r + sc \<and> holds_frame sb (V (n mod sc)) p"

fun pop_ok :: "usize \<Rightarrow> slots_view \<Rightarrow> Packet list \<Rightarrow> nat \<Rightarrow> pop_pc \<Rightarrow> bool" where
  "pop_ok sc V S r PopIdle \<longleftrightarrow> True"
| "pop_ok sc V S r PopLoadRead \<longleftrightarrow> True"
| "pop_ok sc V S r (PopLoadWrite r0) \<longleftrightarrow> unat r0 = r"
| "pop_ok sc V S r (PopLoadState r0) \<longleftrightarrow> unat r0 = r \<and> r < length S"
| "pop_ok sc V S r (PopLoadLen r0) \<longleftrightarrow> unat r0 = r \<and> r < length S"
| "pop_ok sc V S r (PopRead r0 n bs) \<longleftrightarrow> unat r0 = r \<and> r < length S \<and> n = unat (fst (snd (V (r mod sc))))
     \<and> length bs \<le> n \<and> bs = take (length bs) (snd (snd (V (r mod sc))))"
| "pop_ok sc V S r (PopStoreEmpty r0 p) \<longleftrightarrow> unat r0 = r \<and> r < length S \<and> p = S ! r"
| "pop_ok sc V S r (PopStoreRead r0 p) \<longleftrightarrow> unat r0 = r \<and> r < length S \<and> p = S ! r"

fun written :: "push_pc \<Rightarrow> bool" where
  "written (PushStoreWrite p w) = True"
| "written _ = False"

fun cleared :: "pop_pc \<Rightarrow> bool" where
  "cleared (PopStoreRead r p) = True"
| "cleared _ = False"

definition system_inv :: "usize \<Rightarrow> usize \<Rightarrow> ring_system \<Rightarrow> bool" where
  "system_inv sc sb s \<longleftrightarrow>
     0 < sc \<and> sc < 2 ^ 64 \<and> sb < 2 ^ 32 \<and> shm_geometry sc sb (rs_map s) \<and> rs_errors s = []
     \<and> unat (write_pos (rs_map s)) = length (rs_sent s) \<and> unat (read_pos (rs_map s)) = length (rs_got s)
     \<and> rs_got s = take (length (rs_got s)) (rs_sent s)
     \<and> slots_ok sc sb (slot_view sb (rs_map s)) (rs_sent s) (length (rs_got s)) (cleared (rs_pop s)) (written (rs_push s))
     \<and> push_ok sc sb (slot_view sb (rs_map s)) (length (rs_sent s)) (length (rs_got s)) (rs_push s)
     \<and> pop_ok sc (slot_view sb (rs_map s)) (rs_sent s) (length (rs_got s)) (rs_pop s)"

text \<open>What one process knows is not disturbed by the stores of the other.\<close>

lemma pop_ok_fill:
  assumes "n = length S" "n < r + sc"
  shows "pop_ok sc (V(n mod sc := v)) S r pc = pop_ok sc V S r pc"
proof -
  have "r < length S \<Longrightarrow> r mod sc \<noteq> n mod sc" using mod_apart [of r r n sc] assms by simp
  then show ?thesis by (cases pc) auto
qed

lemma pop_ok_publish: "pop_ok sc V S r pc \<Longrightarrow> pop_ok sc V (S @ [p]) r pc"
  by (cases pc) (auto simp: nth_append)

lemma push_ok_clear:
  assumes "r < n"
  shows "push_ok sc sb (V(r mod sc := v)) n r pc = push_ok sc sb V n r pc"
proof -
  have "n < r + sc \<Longrightarrow> n mod sc \<noteq> r mod sc" using mod_apart [of r r n sc] assms by simp
  then show ?thesis by (cases pc) auto
qed

lemma push_ok_advance: "push_ok sc sb V n r pc \<Longrightarrow> push_ok sc sb V n (Suc r) pc"
  by (cases pc) auto

lemma slots_ok_free:
  assumes "slots_ok sc sb V S r c False" "length S < r + sc" "0 < sc"
  shows "fst (V (length S mod sc)) = SLOT_STATE_EMPTY"
proof -
  have "length S mod sc \<noteq> j mod sc" if "r \<le> j" "j < length S" for j using mod_apart [of r j "length S" sc] that assms(2) by simp
  then show ?thesis using assms(1,3) unfolding slots_ok_def by simp
qed

section \<open>Every turn keeps the invariant\<close>

lemma slot_view_data: "snd (snd (slot_view sb m i)) = shm_slot_data sb m i"
  by (simp add: slot_view_def)

lemma push_fill:
  assumes "system_inv sc sb s" "length (rs_sent s) < length (rs_got s) + sc" "\<not> written (rs_push s)"
    and "shm_geometry sc sb m" "write_pos m = write_pos (rs_map s)" "read_pos m = read_pos (rs_map s)"
    and "slot_view sb m = (slot_view sb (rs_map s))(length (rs_sent s) mod sc := v)"
    and "written pc \<or> fst v = SLOT_STATE_EMPTY"
    and "push_ok sc sb (slot_view sb m) (length (rs_sent s)) (length (rs_got s)) pc"
  shows "system_inv sc sb (s\<lparr>rs_map := m, rs_push := pc\<rparr>)"
  using assms slots_ok_fill [of sc sb "slot_view sb (rs_map s)" "rs_sent s" "length (rs_got s)" "cleared (rs_pop s)" "written pc" v]
  by (simp add: system_inv_def pop_ok_fill)

lemma push_moves:
  assumes "system_inv sc sb s" "written pc = written (rs_push s)"
    and "push_ok sc sb (slot_view sb (rs_map s)) (length (rs_sent s)) (length (rs_got s)) pc"
  shows "system_inv sc sb (s\<lparr>rs_push := pc\<rparr>)"
  using assms by (simp add: system_inv_def)

lemma system_invD:
  assumes "system_inv sc sb s"
  defines "V \<equiv> slot_view sb (rs_map s)" and "n \<equiv> length (rs_sent s)" and "r \<equiv> length (rs_got s)"
  shows "0 < sc" "sc < 2 ^ 64" "sb < 2 ^ 32" "shm_geometry sc sb (rs_map s)"
    "unat (write_pos (rs_map s)) = n" "unat (read_pos (rs_map s)) = r" "r \<le> n" "n \<le> r + sc" "rs_got s = take r (rs_sent s)"
    "slots_ok sc sb V (rs_sent s) r (cleared (rs_pop s)) (written (rs_push s))"
    "push_ok sc sb V n r (rs_push s)" "pop_ok sc V (rs_sent s) r (rs_pop s)" "rs_errors s = []"
  using assms by (simp_all add: system_inv_def slots_ok_def)

lemma system_inv_free:
  assumes "system_inv sc sb s" "\<not> written (rs_push s)" "length (rs_sent s) < length (rs_got s) + sc"
  shows "fst (slot_view sb (rs_map s) (length (rs_sent s) mod sc)) = SLOT_STATE_EMPTY"
  using slots_ok_free [OF _ assms(3)] system_invD(1,10) [OF assms(1)] assms(2) by simp

lemma producer_loads:
  assumes inv: "system_inv sc sb s" and "push_step sc sb (rs_push s) (rs_map s) = (res, pc, m)"
    and at: "rs_push s = PushLoadWrite q \<or> rs_push s = PushLoadRead q w \<or> rs_push s = PushLoadState q w"
  shows "system_inv sc sb (s\<lparr>rs_map := m, rs_push := pc\<rparr>)"
proof -
  note D = system_invD [OF inv]
  have full: "word_of_nat sc \<le> w - read_pos (rs_map s) \<longleftrightarrow> sc \<le> length (rs_sent s) - length (rs_got s)" if "unat w = length (rs_sent s)"
  proof -
    have "unat (w - read_pos (rs_map s)) = length (rs_sent s) - length (rs_got s)"
      using that D(6,7) by (intro unat_pos_diff) simp
    then show ?thesis using D(2) by (simp add: word_le_nat_alt unat_of_nat)
  qed
  have "m = rs_map s" "written pc = written (rs_push s)"
    and "push_ok sc sb (slot_view sb (rs_map s)) (length (rs_sent s)) (length (rs_got s)) pc"
    using at assms(2) D(5,11) full by (auto split: if_splits)
  then show ?thesis using push_moves [OF inv] by simp
qed

lemma producer_copy:
  assumes inv: "system_inv sc sb s" and step: "push_step sc sb (rs_push s) (rs_map s) = (res, pc, m)" and at: "rs_push s = PushCopy q w k"
  shows "system_inv sc sb (s\<lparr>rs_map := m, rs_push := pc\<rparr>)"
proof -
  let ?f = "encode_frame q" and ?i = "length (rs_sent s) mod sc"
  note D = system_invD [OF inv]
  have i: "?i < sc" using D(1) by simp
  have ok: "length ?f \<le> sb" "unat w = length (rs_sent s)" "length (rs_sent s) < length (rs_got s) + sc" "k \<le> length ?f"
    "take k (shm_slot_data sb (rs_map s) ?i) = take k ?f"
    using D(11) at by (simp_all add: slot_view_data del: length_encode_frame)
  show ?thesis
  proof (cases "k < length ?f")
    case True
    then have k: "k < sb" using ok(1) by linarith
    note eff = store_byte [OF D(4) i k, of "?f ! k"]
    have pc: "pc = PushCopy q w (Suc k)" "m = blit (rs_map s) (slot_base sb ?i + 8 + k) [?f ! k]"
      using step at True ok(2) by (simp_all add: Let_def del: length_encode_frame)
    have "take (Suc k) ((shm_slot_data sb (rs_map s) ?i)[k := ?f ! k]) = take (Suc k) ?f"
      using True length_slot_data [OF D(4) i] ok(1,5) k by (simp add: take_Suc_conv_app_nth del: length_encode_frame)
    then show ?thesis
      unfolding pc using ok True system_inv_free [OF inv _ ok(3)] at eff(4)
      by (intro push_fill [OF inv _ _ eff(1-4)]) (simp_all add: slot_view_data del: length_encode_frame)
  next
    case False
    then have pc: "pc = PushStoreLen q w" "m = rs_map s" using step at by (simp_all add: Let_def del: length_encode_frame)
    have "system_inv sc sb (s\<lparr>rs_push := PushStoreLen q w\<rparr>)"
      using D(11) at ok False by (intro push_moves [OF inv]) (simp_all add: slot_view_data del: length_encode_frame)
    then show ?thesis unfolding pc by simp
  qed
qed

lemma producer_stores:
  assumes inv: "system_inv sc sb s" and step: "push_step sc sb (rs_push s) (rs_map s) = (res, pc, m)"
    and at: "rs_push s = PushStoreLen q w \<or> rs_push s = PushStoreFull q w"
  shows "system_inv sc sb (s\<lparr>rs_map := m, rs_push := pc\<rparr>)"
proof -
  let ?i = "length (rs_sent s) mod sc" and ?n = "word_of_nat (length (encode_frame q)) :: u32"
  note D = system_invD [OF inv]
  have i: "?i < sc" using D(1) by simp
  have ok: "unat w = length (rs_sent s)" "length (rs_sent s) < length (rs_got s) + sc" using D(11) at by auto
  from at show ?thesis
  proof
    assume at: "rs_push s = PushStoreLen q w"
    then have pc: "pc = PushStoreFull q w" "m = store_u32 (rs_map s) (slot_base sb ?i + 4) ?n"
      using step ok(1) by (simp_all del: length_encode_frame)
    note eff = store_len [OF D(4) i, of ?n]
    show ?thesis unfolding pc using D(11) system_inv_free [OF inv _ ok(2)] at ok eff(4)
      by (intro push_fill [OF inv _ _ eff(1-4)]) (simp_all del: length_encode_frame)
  next
    assume at: "rs_push s = PushStoreFull q w"
    then have pc: "pc = PushStoreWrite q w" "m = store_u32 (rs_map s) (slot_base sb ?i) SLOT_STATE_FULL"
      using step ok(1) by simp_all
    note eff = store_state [OF D(4) i, of SLOT_STATE_FULL]
    have "holds_frame sb (SLOT_STATE_FULL, snd (slot_view sb (rs_map s) ?i)) q"
      using D(11) at by (simp add: holds_frame_def split_beta del: length_encode_frame)
    then show ?thesis unfolding pc using at ok eff(4) by (intro push_fill [OF inv _ _ eff(1-4)]) simp_all
  qed
qed

lemma producer_publishes:
  assumes inv: "system_inv sc sb s" and at: "rs_push s = PushStoreWrite q w" and lt: "Suc (length (rs_sent s)) < 2 ^ 64"
  shows "system_inv sc sb (s\<lparr>rs_map := store_u64 (rs_map s) 16 (w + 1), rs_push := PushIdle, rs_sent := rs_sent s @ [q]\<rparr>)"
proof -
  note D = system_invD [OF inv]
  note eff = store_position(1-4) [OF D(4), of "w + 1"]
  have ok: "unat w = length (rs_sent s)" "length (rs_sent s) < length (rs_got s) + sc"
    "holds_frame sb (slot_view sb (rs_map s) (length (rs_sent s) mod sc)) q" using D(11) at by simp_all
  have "unat (w + 1) = Suc (length (rs_sent s))" using ok(1) lt by (simp add: unat_inc)
  moreover have "slots_ok sc sb (slot_view sb (rs_map s)) (rs_sent s @ [q]) (length (rs_got s)) (cleared (rs_pop s)) False"
    using D(10) ok(2,3) at by (intro slots_ok_publish) simp_all
  ultimately show ?thesis using inv eff pop_ok_publish [OF D(12), of q] D(7,9) by (simp add: system_inv_def)
qed

lemma producer_turn:
  assumes inv: "system_inv sc sb s" and lt: "Suc (length (rs_sent s)) < 2 ^ 64"
  shows "system_inv sc sb (system_turn sc sb (Producer p) s)"
proof -
  obtain res pc m where step: "push_step sc sb (rs_push s) (rs_map s) = (res, pc, m)" by (metis prod_cases3)
  have quiet: ?thesis if "rs_push s \<noteq> PushIdle" "sent_by (rs_push s) = []" "system_inv sc sb (s\<lparr>rs_map := m, rs_push := pc\<rparr>)"
    using that step by simp
  show ?thesis
  proof (cases "rs_push s")
    case PushIdle
    then have "system_inv sc sb (s\<lparr>rs_push := snd (push_start sb p)\<rparr>)" by (intro push_moves [OF inv]) (simp_all add: push_start_def)
    then show ?thesis using PushIdle by simp
  next
    case (PushStoreWrite q w)
    then show ?thesis using producer_publishes [OF inv _ lt] by simp
  qed (use quiet producer_loads [OF inv step] producer_copy [OF inv step] producer_stores [OF inv step] in auto)
qed

lemma pop_moves:
  assumes "system_inv sc sb s" "cleared pc = cleared (rs_pop s)" "pop_ok sc (slot_view sb (rs_map s)) (rs_sent s) (length (rs_got s)) pc"
  shows "system_inv sc sb (s\<lparr>rs_pop := pc\<rparr>)"
  using assms by (simp add: system_inv_def)

lemma consumer_holds:
  assumes inv: "system_inv sc sb s" and "\<not> cleared (rs_pop s)" "length (rs_got s) < length (rs_sent s)"
  defines "i \<equiv> length (rs_got s) mod sc" and "p \<equiv> rs_sent s ! length (rs_got s)"
  shows "unat (shm_slot_len sb (rs_map s) i) = length (encode_frame p)" "length (shm_slot_data sb (rs_map s) i) = sb"
    "length (encode_frame p) \<le> sb" "decode_frame (take (length (encode_frame p)) (shm_slot_data sb (rs_map s) i)) = Inr p"
proof -
  note D = system_invD [OF inv]
  have hf: "holds_frame sb (shm_slot_state sb (rs_map s) i, shm_slot_len sb (rs_map s) i, shm_slot_data sb (rs_map s) i) p"
    using D(10) assms(2,3) unfolding slots_ok_def i_def p_def slot_view_def by simp
  have "i < sc" using D(1) by (simp add: i_def)
  then show len: "length (shm_slot_data sb (rs_map s) i) = sb" by (rule length_slot_data [OF D(4)])
  note dec = holds_frame_decode [OF hf D(3) len]
  show "unat (shm_slot_len sb (rs_map s) i) = length (encode_frame p)" by (rule dec(1))
  show "length (encode_frame p) \<le> sb" using dec(1,3) len by simp
  show "decode_frame (take (length (encode_frame p)) (shm_slot_data sb (rs_map s) i)) = Inr p" using dec(1,2) by simp
qed

lemma consumer_reads:
  assumes inv: "system_inv sc sb s" and step: "pop_step sc sb (rs_pop s) (rs_map s) = (res, pc, m)"
    and at: "rs_pop s \<noteq> PopIdle" "\<forall>r p. rs_pop s \<noteq> PopStoreEmpty r p" "\<forall>r p. rs_pop s \<noteq> PopStoreRead r p"
  shows "m = rs_map s \<and> res \<in> {None, Some (Inr None)} \<and> system_inv sc sb (s\<lparr>rs_pop := pc\<rparr>)"
proof -
  note D = system_invD [OF inv]
  have nc: "\<not> cleared (rs_pop s)" using at by (cases "rs_pop s") auto
  have "m = rs_map s \<and> res \<in> {None, Some (Inr None)} \<and> \<not> cleared pc
      \<and> pop_ok sc (slot_view sb (rs_map s)) (rs_sent s) (length (rs_got s)) pc"
  proof (cases "rs_pop s")
    case (PopLoadWrite r)
    then have "length (rs_got s) < length (rs_sent s)" if "r \<noteq> write_pos (rs_map s)"
      using D(5,7,12) that by (metis le_neq_implies_less pop_ok.simps(3) word_unat_eq_iff)
    then show ?thesis using PopLoadWrite step D(12) by (auto split: if_splits)
  next
    case (PopLoadLen r)
    then have r: "unat r = length (rs_got s)" "length (rs_got s) < length (rs_sent s)" using D(12) by simp_all
    show ?thesis using consumer_holds [OF inv nc r(2)] PopLoadLen step r
      by (auto simp: slot_view_def Let_def simp del: length_encode_frame split: if_splits)
  next
    case (PopRead r n bs)
    then have r: "unat r = length (rs_got s)" "length (rs_got s) < length (rs_sent s)" using D(12) by simp_all
    note h = consumer_holds [OF inv nc r(2)]
    let ?d = "shm_slot_data sb (rs_map s) (length (rs_got s) mod sc)"
    have bs: "n = length (encode_frame (rs_sent s ! length (rs_got s)))" "length bs \<le> n" "bs = take (length bs) ?d"
      using PopRead D(12) h(1) by (simp_all add: slot_view_def)
    have "bs @ [?d ! length bs] = take (Suc (length bs)) ?d" if "length bs < n"
      using that bs h(2,3) by (metis less_le_trans take_Suc_conv_app_nth)
    moreover have "decode_frame bs = Inr (rs_sent s ! length (rs_got s))" if "\<not> length bs < n"
      using that bs h(4) by (metis le_neq_implies_less)
    moreover have "min (length ?d) (Suc (length bs)) = Suc (length bs)" if "length bs < n"
      using that bs(1) h(2,3) by linarith
    ultimately show ?thesis using PopRead step r bs(1) h(1) bs(2)
      by (auto simp: slot_view_def simp del: length_encode_frame split: if_splits)
  qed (use at step D(6,12) in \<open>auto split: if_splits\<close>)
  then show ?thesis using pop_moves [OF inv] nc by auto
qed

lemma consumer_clears:
  assumes inv: "system_inv sc sb s" and at: "rs_pop s = PopStoreEmpty r q"
  shows "system_inv sc sb (s\<lparr>rs_map := store_u32 (rs_map s) (slot_base sb (unat r mod sc)) SLOT_STATE_EMPTY, rs_pop := PopStoreRead r q\<rparr>)"
proof -
  let ?i = "length (rs_got s) mod sc"
  note D = system_invD [OF inv]
  have ok: "unat r = length (rs_got s)" "length (rs_got s) < length (rs_sent s)" using D(12) at by simp_all
  have "?i < sc" using D(1) by simp
  note eff = store_state [OF D(4) this, of SLOT_STATE_EMPTY]
  have "slots_ok sc sb ((slot_view sb (rs_map s))(?i := (SLOT_STATE_EMPTY, snd (slot_view sb (rs_map s) ?i)))) (rs_sent s)
      (length (rs_got s)) True (written (rs_push s))"
    using D(10) ok(2) at by (intro slots_ok_clear) simp_all
  then show ?thesis using inv at ok eff push_ok_clear [OF ok(2)] by (simp add: system_inv_def)
qed

lemma consumer_advances:
  assumes inv: "system_inv sc sb s" and at: "rs_pop s = PopStoreRead r q" and lt: "Suc (length (rs_sent s)) < 2 ^ 64"
  shows "system_inv sc sb (s\<lparr>rs_map := store_u64 (rs_map s) 24 (r + 1), rs_pop := PopIdle, rs_got := rs_got s @ [q]\<rparr>)"
proof -
  note D = system_invD [OF inv]
  note eff = store_position(5-8) [OF D(4), of "r + 1"]
  have ok: "unat r = length (rs_got s)" "length (rs_got s) < length (rs_sent s)" "q = rs_sent s ! length (rs_got s)"
    using D(12) at by simp_all
  have "unat (r + 1) = Suc (length (rs_got s))" using ok(1,2) lt by (simp add: unat_inc)
  moreover have "rs_got s @ [q] = take (Suc (length (rs_got s))) (rs_sent s)"
    using D(9) ok(2,3) by (simp add: take_Suc_conv_app_nth)
  moreover have "slots_ok sc sb (slot_view sb (rs_map s)) (rs_sent s) (Suc (length (rs_got s))) False (written (rs_push s))"
    using D(10) at by (intro slots_ok_advance) simp
  moreover have "min (length (rs_sent s)) (Suc (length (rs_got s))) = Suc (length (rs_got s))" using ok(2) by simp
  ultimately show ?thesis using inv eff push_ok_advance [OF D(11)] by (simp add: system_inv_def)
qed

lemma consumer_turn:
  assumes inv: "system_inv sc sb s" and lt: "Suc (length (rs_sent s)) < 2 ^ 64"
  shows "system_inv sc sb (system_turn sc sb Consumer s)"
proof -
  obtain res pc m where step: "pop_step sc sb (rs_pop s) (rs_map s) = (res, pc, m)" by (metis prod_cases3)
  have quiet: ?thesis if "rs_pop s \<noteq> PopIdle" "\<forall>r p. rs_pop s \<noteq> PopStoreEmpty r p" "\<forall>r p. rs_pop s \<noteq> PopStoreRead r p"
    using consumer_reads [OF inv step that] step that(1) by (auto simp: Let_def)
  show ?thesis
  proof (cases "rs_pop s")
    case PopIdle
    then have "system_inv sc sb (s\<lparr>rs_pop := PopLoadRead\<rparr>)" by (intro pop_moves [OF inv]) simp_all
    then show ?thesis using PopIdle by simp
  next
    case (PopStoreEmpty r q)
    then show ?thesis using consumer_clears [OF inv] by simp
  next
    case (PopStoreRead r q)
    then show ?thesis using consumer_advances [OF inv _ lt] by simp
  qed (rule quiet, simp, simp, simp)+
qed

section \<open>Whole runs\<close>

lemma system_turn_sent: "length (rs_sent (system_turn sc sb t s)) \<le> Suc (length (rs_sent s))"
proof (cases t)
  case (Producer p)
  then show ?thesis by (cases "rs_push s") (auto simp: Let_def split: prod.splits)
next
  case Consumer
  then show ?thesis by (auto simp: Let_def split: prod.splits option.splits sum.splits)
qed

lemma system_run_inv:
  assumes "system_inv sc sb s" "length (rs_sent s) + length ts < 2 ^ 64"
  shows "system_inv sc sb (system_run sc sb ts s)"
  using assms
proof (induction ts arbitrary: s)
  case Nil
  then show ?case by (simp add: system_run_def)
next
  case (Cons t ts)
  have "Suc (length (rs_sent s)) < 2 ^ 64" using Cons.prems(2) by simp
  then have inv: "system_inv sc sb (system_turn sc sb t s)"
    using producer_turn [OF Cons.prems(1)] consumer_turn [OF Cons.prems(1)] by (cases t) simp_all
  have "length (rs_sent (system_turn sc sb t s)) + length ts < 2 ^ 64"
    using system_turn_sent [of sc sb t s] Cons.prems(2) by simp
  from Cons.IH [OF inv this] show ?case by (simp add: system_run_def)
qed

lemma system_start_inv:
  assumes "shm_rep ring []" "unat (write_pos (shm_map ring)) = 0"
  shows "system_inv (shm_slot_count ring) (shm_slot_bytes ring) (system_start (shm_map ring))"
proof -
  let ?sc = "shm_slot_count ring" and ?sb = "shm_slot_bytes ring" and ?m = "shm_map ring"
  have rep: "shm_geometry ?sc ?sb ?m" "0 < ?sc" "?sc < 2 ^ 64" "?sb < 2 ^ 32" "unat (read_pos ?m) = 0"
    "\<forall>i < ?sc. shm_slot_state ?sb ?m i = SLOT_STATE_EMPTY"
    using assms by (auto simp: shm_rep_def Let_def)
  then have "slots_ok ?sc ?sb (slot_view ?sb ?m) [] 0 False False" by (simp add: slots_ok_def slot_view_def)
  then show ?thesis using rep assms(2) by (simp add: system_inv_def system_start_def)
qed

text \<open>Between two operations of either process the map represents exactly the packets sent and not yet taken.\<close>

lemma system_inv_rep:
  assumes inv: "system_inv (shm_slot_count ring) (shm_slot_bytes ring) s" and "rs_push s = PushIdle" "rs_pop s = PopIdle"
  shows "shm_rep (ring\<lparr>shm_map := rs_map s\<rparr>) (drop (length (rs_got s)) (rs_sent s))"
proof -
  let ?sc = "shm_slot_count ring" and ?sb = "shm_slot_bytes ring" and ?r = "length (rs_got s)" and ?S = "rs_sent s"
  note D = system_invD [OF inv]
  have slots: "slots_ok ?sc ?sb (slot_view ?sb (rs_map s)) ?S ?r False False" using D(10) assms(2,3) by simp
  have held: "holds_frame ?sb (slot_view ?sb (rs_map s) ((?r + k) mod ?sc)) (?S ! (?r + k))" if "k < length ?S - ?r" for k
    using slots that unfolding slots_ok_def by simp
  have empty: "shm_slot_state ?sb (rs_map s) i = SLOT_STATE_EMPTY"
    if i: "i < ?sc" "\<forall>k < length ?S - ?r. i \<noteq> (?r + k) mod ?sc" for i
  proof -
    have "i \<noteq> j mod ?sc" if "?r \<le> j" "j < length ?S" for j
      using i(2) [rule_format, of "j - ?r"] that by simp
    then show ?thesis using slots i(1) unfolding slots_ok_def by (simp add: slot_view_def)
  qed
  show ?thesis using D(1-8) held empty by (simp add: shm_rep_def Let_def)
qed

text \<open>
  The test of the state word never turns either process away: a producer that saw room finds its slot empty, and a
  consumer that saw a packet finds its slot full, at every moment of every interleaving.
\<close>

lemma system_inv_states:
  assumes inv: "system_inv sc sb s"
  shows "rs_push s = PushLoadState q w \<Longrightarrow> shm_slot_state sb (rs_map s) (unat w mod sc) = SLOT_STATE_EMPTY"
    and "rs_pop s = PopLoadState r \<Longrightarrow> shm_slot_state sb (rs_map s) (unat r mod sc) = SLOT_STATE_FULL"
proof -
  note D = system_invD [OF inv]
  show "shm_slot_state sb (rs_map s) (unat w mod sc) = SLOT_STATE_EMPTY" if "rs_push s = PushLoadState q w"
    using system_inv_free [OF inv] D(11) that by (simp add: slot_view_def)
  show "shm_slot_state sb (rs_map s) (unat r mod sc) = SLOT_STATE_FULL" if "rs_pop s = PopLoadState r"
  proof -
    have "holds_frame sb (slot_view sb (rs_map s) (length (rs_got s) mod sc)) (rs_sent s ! length (rs_got s))"
      using D(10,12) that unfolding slots_ok_def by simp
    then show ?thesis using D(12) that by (simp add: holds_frame_def slot_view_def)
  qed
qed

text \<open>
  C6: the ring between two processes.  One process pushes and one pops, each access to the shared map is a step of
  its own (the frame is copied and read byte by byte), and the steps interleave in any order.  After any such run
  on a ring just created (of less than 2 to the 64 steps, so that the positions have not wrapped) the packets
  taken are a prefix of the packets published, in order, unchanged, none twice; at most \<open>slot_count\<close> are
  waiting; no pop has failed or panicked, so no half-written frame is ever decoded; and whenever both processes are
  between operations the map represents exactly the packets waiting.
\<close>

theorem ring_interleaving_fifo:
  assumes "ShmPacketRing_open fs cfg = Inr ring" "shm_create cfg"
    and "shm_cfg_slot_count cfg < 2 ^ 64" "shm_cfg_slot_bytes cfg < 2 ^ 32" "length ts < 2 ^ 64"
  shows "let s = system_run (shm_slot_count ring) (shm_slot_bytes ring) ts (system_start (shm_map ring)) in
    rs_errors s = []
    \<and> (\<exists>waiting. rs_sent s = rs_got s @ waiting \<and> length waiting \<le> shm_cfg_slot_count cfg
        \<and> (if rs_push s = PushIdle \<and> rs_pop s = PopIdle then shm_rep (ring\<lparr>shm_map := rs_map s\<rparr>) waiting else True))"
proof -
  define s where "s = system_run (shm_slot_count ring) (shm_slot_bytes ring) ts (system_start (shm_map ring))"
  note created = open_created [OF assms(1-4)]
  have inv: "system_inv (shm_slot_count ring) (shm_slot_bytes ring) s"
    unfolding s_def using assms(5) system_start_inv [OF created(1)] created(5)
    by (intro system_run_inv) (simp_all add: system_start_def)
  note D = system_invD [OF inv]
  have "rs_sent s = rs_got s @ drop (length (rs_got s)) (rs_sent s)" using D(9) by (metis append_take_drop_id)
  moreover have "length (drop (length (rs_got s)) (rs_sent s)) \<le> shm_cfg_slot_count cfg" using D(8) created(3) by simp
  ultimately show ?thesis using D(13) system_inv_rep [OF inv] unfolding s_def [symmetric] Let_def by auto
qed

definition sample_turns :: "turn list" where
  "sample_turns = concat (replicate 50 [Producer sample_shm_packet, Consumer, Consumer])"

theorem ring_interleaving_fifo_witness:
  "let s = system_run (shm_slot_count sample_shm_ring) (shm_slot_bytes sample_shm_ring) sample_turns (system_start (shm_map sample_shm_ring)) in
    rs_errors s = []
    \<and> (\<exists>waiting. rs_sent s = rs_got s @ waiting \<and> length waiting \<le> shm_cfg_slot_count sample_shm_config
        \<and> (if rs_push s = PushIdle \<and> rs_pop s = PopIdle then shm_rep (sample_shm_ring\<lparr>shm_map := rs_map s\<rparr>) waiting else True))"
  by (rule ring_interleaving_fifo [OF sample_shm_open sample_shm_limits]) (simp add: sample_turns_def length_concat sum_list_replicate)

text \<open>
  C30: the steps are the operations.  Run without interference, the steps of a push give the result and the map of
  \<^verbatim>\<open>try_push\<close>, on every branch, and those of a pop the result and the map of \<^verbatim>\<open>try_pop\<close>.
\<close>

theorem ring_steps_are_operations:
  assumes "shm_geometry (shm_slot_count ring) (shm_slot_bytes ring) (shm_map ring)" "0 < shm_slot_count ring"
  shows "(case push_start (shm_slot_bytes ring) p of
       (Some res, pc) \<Rightarrow> try_push ring p = (res, ring)
     | (None, pc) \<Rightarrow>
         (case push_run (\<lambda>_ m. m) 0 (shm_slot_count ring) (shm_slot_bytes ring) pc (shm_map ring) of
            (res, m, n) \<Rightarrow> res = Some (fst (try_push ring p)) \<and> m = shm_map (snd (try_push ring p))))
    \<and> (case pop_run (\<lambda>_ m. m) 0 (shm_slot_count ring) (shm_slot_bytes ring) PopLoadRead (shm_map ring) of
         (res, m, n) \<Rightarrow> res = Some (fst (try_pop ring)) \<and> m = shm_map (snd (try_pop ring)))"
proof (cases "shm_slot_bytes ring < length (encode_frame p)")
  case True
  then show ?thesis using pop_alone [of ring] by (auto simp: push_start_def try_push_def simp del: length_encode_frame)
next
  case False
  then show ?thesis using push_alone [OF assms, of p] pop_alone [of ring] by (auto simp: push_start_def simp del: length_encode_frame)
qed

theorem ring_steps_are_operations_witness:
  "(case push_start (shm_slot_bytes sample_shm_ring) sample_shm_packet of
       (Some res, pc) \<Rightarrow> try_push sample_shm_ring sample_shm_packet = (res, sample_shm_ring)
     | (None, pc) \<Rightarrow>
         (case push_run (\<lambda>_ m. m) 0 (shm_slot_count sample_shm_ring) (shm_slot_bytes sample_shm_ring) pc (shm_map sample_shm_ring) of
            (res, m, n) \<Rightarrow> res = Some (fst (try_push sample_shm_ring sample_shm_packet))
              \<and> m = shm_map (snd (try_push sample_shm_ring sample_shm_packet))))
    \<and> (case pop_run (\<lambda>_ m. m) 0 (shm_slot_count sample_shm_ring) (shm_slot_bytes sample_shm_ring) PopLoadRead (shm_map sample_shm_ring) of
         (res, m, n) \<Rightarrow> res = Some (fst (try_pop sample_shm_ring)) \<and> m = shm_map (snd (try_pop sample_shm_ring)))"
  using open_created(1) [OF sample_shm_open sample_shm_limits]
  by (intro ring_steps_are_operations) (simp_all add: shm_rep_def Let_def)

text \<open>
  C31: neither operation waits for the other process.  Whatever happens to the map between its steps, a push returns
  within seven steps more than the bytes of its frame, and a pop within seven steps more than the bytes of a slot.
\<close>

theorem ring_wait_free:
  "(\<exists>r m' n. push_run other 0 sc sb (PushLoadWrite p) m = (Some r, m', n) \<and> n \<le> length (encode_frame p) + 7)
   \<and> (\<exists>r m' n. pop_run other 0 sc sb PopLoadRead m = (Some r, m', n) \<and> n \<le> sb + 7)"
  using push_run_returns [of "PushLoadWrite p" other 0 sc sb m] pop_run_returns [of PopLoadRead other 0 sc sb m]
  by (simp del: length_encode_frame)

end
