(* ===== verification/Metrics.thy ===== *)
theory Metrics
  imports Aether_Types
begin

text \<open>
  The crate \<^verbatim>\<open>metrics-engine\<close>, its counters: the five layers of \<^verbatim>\<open>layers.rs\<close> and the engine of
  \<^verbatim>\<open>lib.rs\<close>.  A plain \<^verbatim>\<open>+= 1\<close> on a \<^verbatim>\<open>u64\<close> wraps; the byte and sum counters saturate.
\<close>

section \<open>The five layers\<close>

record PhysicalMetrics =
  link_is_up :: bool
  link_speed_gbps :: f64
  phys_mtu :: u32
  crc_error :: u64
  fec_corrected :: u64
  fec_uncorrected :: u64

record TransportLayerMetrics =
  tx_packets :: u64
  rx_packets :: u64
  tx_bytes :: u64
  rx_bytes :: u64
  gap_count :: u64
  duplicate_count :: u64
  out_of_order_count :: u64
  late_packet :: u64
  drop_count :: u64
  latency_min_ns :: u64
  latency_max_ns :: u64
  latency_last_ns :: u64
  latency_sum_ns :: u64
  latency_samples :: u64
  tl_jitter_ns :: u64

definition latency_avg_ns :: "TransportLayerMetrics \<Rightarrow> u64" where
  "latency_avg_ns t = (if latency_samples t = 0 then 0 else latency_sum_ns t div latency_samples t)"

record RadioLayerMetrics =
  slot_received :: u64
  slot_processed :: u64
  slot_lost :: u64
  slot_deadline_miss :: u64
  symbol_received :: u64
  symbol_gap :: u64
  symbol_latency_ns :: u64
  iq_loss :: u64
  deadline_miss :: u64

record MemoryLayerMetrics =
  host_buffer_used :: u64
  gpu_buffer_used :: u64
  buffer_full :: u64
  overflow :: u64
  underflow :: u64
  ring_occupancy :: u64
  ring_stall_ns :: u64

record ComputeLayerMetrics =
  kernel_latency_ns :: u64
  kernel_executions :: u64
  cuda_stream_idle :: u64
  gpu_utilization_pct :: f64

record LayeredMetricsSnapshot =
  physical :: PhysicalMetrics
  transport :: TransportLayerMetrics
  radio :: RadioLayerMetrics
  memory :: MemoryLayerMetrics
  compute :: ComputeLayerMetrics

definition PhysicalMetrics_default :: PhysicalMetrics where
  "PhysicalMetrics_default = \<lparr>link_is_up = False, link_speed_gbps = Fin 0, phys_mtu = 0, crc_error = 0,
     fec_corrected = 0, fec_uncorrected = 0\<rparr>"

definition TransportLayerMetrics_default :: TransportLayerMetrics where
  "TransportLayerMetrics_default = \<lparr>tx_packets = 0, rx_packets = 0, tx_bytes = 0, rx_bytes = 0, gap_count = 0,
     duplicate_count = 0, out_of_order_count = 0, late_packet = 0, drop_count = 0, latency_min_ns = 0,
     latency_max_ns = 0, latency_last_ns = 0, latency_sum_ns = 0, latency_samples = 0, tl_jitter_ns = 0\<rparr>"

definition RadioLayerMetrics_default :: RadioLayerMetrics where
  "RadioLayerMetrics_default = \<lparr>slot_received = 0, slot_processed = 0, slot_lost = 0, slot_deadline_miss = 0,
     symbol_received = 0, symbol_gap = 0, symbol_latency_ns = 0, iq_loss = 0, deadline_miss = 0\<rparr>"

definition MemoryLayerMetrics_default :: MemoryLayerMetrics where
  "MemoryLayerMetrics_default = \<lparr>host_buffer_used = 0, gpu_buffer_used = 0, buffer_full = 0, overflow = 0,
     underflow = 0, ring_occupancy = 0, ring_stall_ns = 0\<rparr>"

definition ComputeLayerMetrics_default :: ComputeLayerMetrics where
  "ComputeLayerMetrics_default = \<lparr>kernel_latency_ns = 0, kernel_executions = 0, cuda_stream_idle = 0,
     gpu_utilization_pct = Fin 0\<rparr>"

definition LayeredMetricsSnapshot_default :: LayeredMetricsSnapshot where
  "LayeredMetricsSnapshot_default = \<lparr>physical = PhysicalMetrics_default, transport = TransportLayerMetrics_default,
     radio = RadioLayerMetrics_default, memory = MemoryLayerMetrics_default, compute = ComputeLayerMetrics_default\<rparr>"

section \<open>The engine\<close>

record MetricsEngine =
  layered :: LayeredMetricsSnapshot
  last_latency_ns :: u64

definition MetricsEngine_new :: MetricsEngine where
  "MetricsEngine_new = \<lparr>layered = LayeredMetricsSnapshot_default, last_latency_ns = 0\<rparr>"

abbreviation upd_transport :: "(TransportLayerMetrics \<Rightarrow> TransportLayerMetrics) \<Rightarrow> MetricsEngine \<Rightarrow> MetricsEngine" where
  "upd_transport f e \<equiv> e\<lparr>layered := (layered e)\<lparr>transport := f (transport (layered e))\<rparr>\<rparr>"

abbreviation upd_radio :: "(RadioLayerMetrics \<Rightarrow> RadioLayerMetrics) \<Rightarrow> MetricsEngine \<Rightarrow> MetricsEngine" where
  "upd_radio f e \<equiv> e\<lparr>layered := (layered e)\<lparr>radio := f (radio (layered e))\<rparr>\<rparr>"

abbreviation upd_memory :: "(MemoryLayerMetrics \<Rightarrow> MemoryLayerMetrics) \<Rightarrow> MetricsEngine \<Rightarrow> MetricsEngine" where
  "upd_memory f e \<equiv> e\<lparr>layered := (layered e)\<lparr>memory := f (memory (layered e))\<rparr>\<rparr>"

abbreviation upd_physical :: "(PhysicalMetrics \<Rightarrow> PhysicalMetrics) \<Rightarrow> MetricsEngine \<Rightarrow> MetricsEngine" where
  "upd_physical f e \<equiv> e\<lparr>layered := (layered e)\<lparr>physical := f (physical (layered e))\<rparr>\<rparr>"

abbreviation upd_compute :: "(ComputeLayerMetrics \<Rightarrow> ComputeLayerMetrics) \<Rightarrow> MetricsEngine \<Rightarrow> MetricsEngine" where
  "upd_compute f e \<equiv> e\<lparr>layered := (layered e)\<lparr>compute := f (compute (layered e))\<rparr>\<rparr>"

definition record_rx :: "MetricsEngine \<Rightarrow> MetricsEngine" where
  "record_rx = upd_transport (\<lambda>t. t\<lparr>rx_packets := rx_packets t + 1\<rparr>)"

definition record_tx :: "MetricsEngine \<Rightarrow> MetricsEngine" where
  "record_tx = upd_transport (\<lambda>t. t\<lparr>tx_packets := tx_packets t + 1\<rparr>)"

definition record_drop :: "MetricsEngine \<Rightarrow> MetricsEngine" where
  "record_drop = upd_transport (\<lambda>t. t\<lparr>drop_count := drop_count t + 1\<rparr>)"

definition record_sequence_gap :: "MetricsEngine \<Rightarrow> MetricsEngine" where
  "record_sequence_gap = upd_transport (\<lambda>t. t\<lparr>gap_count := gap_count t + 1\<rparr>)"

definition record_late_packet :: "MetricsEngine \<Rightarrow> MetricsEngine" where
  "record_late_packet = upd_transport (\<lambda>t. t\<lparr>late_packet := late_packet t + 1\<rparr>)"

definition record_deadline_miss :: "MetricsEngine \<Rightarrow> MetricsEngine" where
  "record_deadline_miss =
     upd_radio (\<lambda>r. r\<lparr>deadline_miss := deadline_miss r + 1, slot_deadline_miss := slot_deadline_miss r + 1\<rparr>)"

definition record_error :: "MetricsEngine \<Rightarrow> MetricsEngine" where
  "record_error = upd_physical (\<lambda>p. p\<lparr>crc_error := crc_error p + 1\<rparr>)"

definition set_ring_occupancy :: "MetricsEngine \<Rightarrow> u64 \<Rightarrow> MetricsEngine" where
  "set_ring_occupancy e n = upd_memory (\<lambda>m. m\<lparr>ring_occupancy := n\<rparr>) e"

definition record_buffer_full :: "MetricsEngine \<Rightarrow> MetricsEngine" where
  "record_buffer_full =
     upd_memory (\<lambda>m. m\<lparr>buffer_full := sat_add (buffer_full m) 1, overflow := sat_add (overflow m) 1\<rparr>)"

definition set_memory_buffers :: "MetricsEngine \<Rightarrow> u64 \<Rightarrow> u64 \<Rightarrow> MetricsEngine" where
  "set_memory_buffers e host gpu = upd_memory (\<lambda>m. m\<lparr>host_buffer_used := host, gpu_buffer_used := gpu\<rparr>) e"

definition record_rx_bytes :: "MetricsEngine \<Rightarrow> u64 \<Rightarrow> MetricsEngine" where
  "record_rx_bytes e bytes =
     upd_transport (\<lambda>t. t\<lparr>rx_packets := rx_packets t + 1, rx_bytes := sat_add (rx_bytes t) bytes\<rparr>) e"

definition record_tx_bytes :: "MetricsEngine \<Rightarrow> u64 \<Rightarrow> MetricsEngine" where
  "record_tx_bytes e bytes =
     upd_transport (\<lambda>t. t\<lparr>tx_packets := tx_packets t + 1, tx_bytes := sat_add (tx_bytes t) bytes\<rparr>) e"

definition latency_sample :: "u64 \<Rightarrow> TransportLayerMetrics \<Rightarrow> TransportLayerMetrics" where
  "latency_sample latency t =
     (let t = (if latency_samples t = 0
               then t\<lparr>latency_min_ns := latency, latency_max_ns := latency\<rparr>
               else
                 let t = t\<lparr>latency_min_ns := min (latency_min_ns t) latency,
                           latency_max_ns := max (latency_max_ns t) latency\<rparr>
                 in if 0 < latency_last_ns t
                    then t\<lparr>tl_jitter_ns := abs_diff latency (latency_last_ns t)\<rparr>
                    else t)
      in t\<lparr>latency_last_ns := latency, latency_sum_ns := sat_add (latency_sum_ns t) latency,
           latency_samples := latency_samples t + 1\<rparr>)"

definition record_latency_sample :: "MetricsEngine \<Rightarrow> u64 \<Rightarrow> MetricsEngine" where
  "record_latency_sample e latency = (upd_transport (latency_sample latency) e)\<lparr>last_latency_ns := latency\<rparr>"

definition record_latency_ns :: "MetricsEngine \<Rightarrow> u64 \<Rightarrow> MetricsEngine" where
  "record_latency_ns = record_latency_sample"

definition record_symbol :: "MetricsEngine \<Rightarrow> MetricsEngine" where
  "record_symbol =
     upd_radio (\<lambda>r. r\<lparr>symbol_received := symbol_received r + 1, slot_received := slot_received r + 1,
                     slot_processed := slot_processed r + 1\<rparr>)"

definition record_kernel_ns :: "MetricsEngine \<Rightarrow> u64 \<Rightarrow> MetricsEngine" where
  "record_kernel_ns e ns =
     upd_compute (\<lambda>c. c\<lparr>kernel_latency_ns := ns, kernel_executions := kernel_executions c + 1\<rparr>) e"

definition set_link_up :: "MetricsEngine \<Rightarrow> bool \<Rightarrow> f64 \<Rightarrow> MetricsEngine" where
  "set_link_up e up speed = upd_physical (\<lambda>p. p\<lparr>link_is_up := up, link_speed_gbps := speed\<rparr>) e"

subsection \<open>The flat snapshot\<close>

record LinkMetrics =
  lm_rx_packets :: u64
  lm_tx_packets :: u64
  bandwidth_bps :: f64
  lm_drop :: u64
  lm_error :: u64

record TransportMetrics =
  tm_sequence_gap :: u64
  tm_late_packet :: u64
  tm_jitter_ns :: u64
  tm_latency_ns :: u64

record RadioMetrics =
  rm_slot_latency_ns :: u64
  rm_symbol_latency_ns :: u64
  rm_deadline_miss :: u64

record MetricsSnapshot =
  ms_link :: LinkMetrics
  ms_transport :: TransportMetrics
  ms_radio :: RadioMetrics

definition snapshot :: "MetricsEngine \<Rightarrow> MetricsSnapshot" where
  "snapshot e =
     (let t = transport (layered e); r = radio (layered e) in
      \<lparr>ms_link = \<lparr>lm_rx_packets = rx_packets t, lm_tx_packets = tx_packets t, bandwidth_bps = Fin 0,
                  lm_drop = drop_count t, lm_error = crc_error (physical (layered e))\<rparr>,
       ms_transport = \<lparr>tm_sequence_gap = gap_count t, tm_late_packet = late_packet t,
                       tm_jitter_ns = tl_jitter_ns t, tm_latency_ns = last_latency_ns e\<rparr>,
       ms_radio = \<lparr>rm_slot_latency_ns = 0, rm_symbol_latency_ns = symbol_latency_ns r,
                   rm_deadline_miss = deadline_miss r\<rparr>\<rparr>)"

section \<open>Latency statistics\<close>

definition record_latencies :: "u64 list \<Rightarrow> MetricsEngine \<Rightarrow> MetricsEngine" where
  "record_latencies ls e = foldl record_latency_ns e ls"

text \<open>The transport layer of a fresh engine after the samples \<open>ls\<close>, newest last.\<close>

definition latency_spec :: "u64 list \<Rightarrow> TransportLayerMetrics \<Rightarrow> bool" where
  "latency_spec ls t \<longleftrightarrow>
     latency_samples t = word_of_nat (length ls)
     \<and> unat (latency_sum_ns t) = min (\<Sum>l\<leftarrow>ls. unat l) (2 ^ 64 - 1)
     \<and> (ls \<noteq> [] \<longrightarrow> latency_min_ns t = Min (set ls) \<and> latency_max_ns t = Max (set ls) \<and> latency_last_ns t = last ls)"

lemma latency_spec_new: "latency_spec [] (transport (layered MetricsEngine_new))"
  by (simp add: latency_spec_def MetricsEngine_new_def LayeredMetricsSnapshot_default_def TransportLayerMetrics_default_def)

lemma latency_spec_snoc:
  assumes "latency_spec ls t" "length ls < 2 ^ 64"
  shows "latency_spec (ls @ [l]) (latency_sample l t)"
proof (cases "ls = []")
  case True
  with assms(1) show ?thesis by (simp add: latency_spec_def latency_sample_def Let_def unat_sat_add)
next
  case False
  have "unat (latency_samples t) = length ls" using assms by (simp add: latency_spec_def unat_of_nat)
  then have ne: "latency_samples t \<noteq> 0" using False by auto
  have "unat (sat_add (latency_sum_ns t) l) = min ((\<Sum>l\<leftarrow>ls. unat l) + unat l) (2 ^ 64 - 1)"
    using assms(1) by (simp add: latency_spec_def unat_sat_add)
  then show ?thesis using assms(1) False ne
    by (simp add: latency_spec_def latency_sample_def Let_def min.commute max.commute add.commute)
qed

lemma latency_spec_records:
  assumes "length ls < 2 ^ 64"
  shows "latency_spec ls (transport (layered (record_latencies ls MetricsEngine_new)))"
  using assms
proof (induction ls rule: rev_induct)
  case Nil
  then show ?case by (simp add: record_latencies_def latency_spec_new)
next
  case (snoc l ls)
  then have "latency_spec ls (transport (layered (record_latencies ls MetricsEngine_new)))" by simp
  then show ?case using snoc.prems
    by (simp add: record_latencies_def record_latency_ns_def record_latency_sample_def latency_spec_snoc)
qed

lemma sum_list_bounds:
  fixes f :: "'a \<Rightarrow> nat"
  assumes "\<And>x. x \<in> set xs \<Longrightarrow> a \<le> f x" "\<And>x. x \<in> set xs \<Longrightarrow> f x \<le> b"
  shows "length xs * a \<le> sum_list (map f xs)" "sum_list (map f xs) \<le> length xs * b"
  using assms by (induction xs) (auto intro: add_mono)

text \<open>
  The latency statistics.  For any non-empty list of fewer than \<open>2 ^ 64\<close> samples, a fresh engine
  reports their exact minimum, maximum and last value, and an average that lies between the minimum
  and the maximum as long as the sum of the samples is representable; when the sum saturates the
  average still never exceeds the maximum.
\<close>

theorem latency_statistics:
  assumes "ls \<noteq> []" "length ls < 2 ^ 64"
  defines "t \<equiv> transport (layered (record_latencies ls MetricsEngine_new))"
  shows "latency_min_ns t = Min (set ls) \<and> latency_max_ns t = Max (set ls) \<and> latency_last_ns t = last ls
    \<and> unat (latency_avg_ns t) = min (\<Sum>l\<leftarrow>ls. unat l) (2 ^ 64 - 1) div length ls
    \<and> latency_avg_ns t \<le> Max (set ls)
    \<and> ((\<Sum>l\<leftarrow>ls. unat l) < 2 ^ 64 \<longrightarrow> Min (set ls) \<le> latency_avg_ns t)"
proof -
  have spec: "latency_spec ls t" unfolding t_def using assms(2) by (rule latency_spec_records)
  have n: "unat (latency_samples t) = length ls" using spec assms(2) by (simp add: latency_spec_def unat_of_nat)
  then have "latency_samples t \<noteq> 0" using assms(1) by auto
  then have avg: "unat (latency_avg_ns t) = min (\<Sum>l\<leftarrow>ls. unat l) (2 ^ 64 - 1) div length ls"
    using spec n by (simp add: latency_avg_ns_def unat_div_distrib latency_spec_def)
  have pos: "0 < length ls" using assms(1) by simp
  have bounds: "unat (Min (set ls)) \<le> unat l" "unat l \<le> unat (Max (set ls))" if "l \<in> set ls" for l
    using that by (simp_all flip: word_le_nat_alt)
  have "min (\<Sum>l\<leftarrow>ls. unat l) (2 ^ 64 - 1) \<le> length ls * unat (Max (set ls))"
    using sum_list_bounds(2) [of ls "unat (Min (set ls))" unat "unat (Max (set ls))"] bounds by (simp add: min.coboundedI1)
  then have "min (\<Sum>l\<leftarrow>ls. unat l) (2 ^ 64 - 1) div length ls \<le> unat (Max (set ls))"
    using pos by (metis div_le_mono nonzero_mult_div_cancel_left less_numeral_extra(3))
  moreover have "unat (Min (set ls)) \<le> min (\<Sum>l\<leftarrow>ls. unat l) (2 ^ 64 - 1) div length ls" if "(\<Sum>l\<leftarrow>ls. unat l) < 2 ^ 64"
  proof -
    have "length ls * unat (Min (set ls)) \<le> min (\<Sum>l\<leftarrow>ls. unat l) (2 ^ 64 - 1)"
      using sum_list_bounds(1) [of ls "unat (Min (set ls))" unat "unat (Max (set ls))"] bounds that by simp
    then show ?thesis using pos by (metis div_le_mono nonzero_mult_div_cancel_left less_numeral_extra(3))
  qed
  ultimately show ?thesis using spec assms(1) avg by (simp add: latency_spec_def word_le_nat_alt)
qed

theorem latency_statistics_witness:
  "(let t = transport (layered (record_latencies [300, 100, 200] MetricsEngine_new)) in
    latency_min_ns t = Min (set [300, 100, 200]) \<and> latency_max_ns t = Max (set [300, 100, 200])
    \<and> latency_last_ns t = last [300, 100, 200]
    \<and> unat (latency_avg_ns t) = min (\<Sum>l\<leftarrow>[300, 100, 200 :: u64]. unat l) (2 ^ 64 - 1) div length [300, 100, 200 :: u64]
    \<and> latency_avg_ns t \<le> Max (set [300, 100, 200])
    \<and> Min (set [300, 100, 200]) \<le> latency_avg_ns t)"
proof -
  have "(\<Sum>l\<leftarrow>[300, 100, 200 :: u64]. unat l) < 2 ^ 64" by simp
  moreover have "[300, 100, 200 :: u64] \<noteq> []" "length [300, 100, 200 :: u64] < 2 ^ 64" by simp_all
  note latency_statistics [OF this]
  ultimately show ?thesis unfolding Let_def by blast
qed

end
