(* ===== verification/Ops.thy ===== *)
theory Ops
  imports Metrics Rust_Strings
begin

text \<open>
  The crate \<^verbatim>\<open>metrics-engine\<close>, its operations plane: structured events (\<^verbatim>\<open>events.rs\<close>), the health
  state machine (\<^verbatim>\<open>health.rs\<close>), the recovery policy (\<^verbatim>\<open>recovery.rs\<close>) and the trace ring
  (\<^verbatim>\<open>trace.rs\<close>).  The log is the list of events written to it; the wall clock that stamps the
  events is the parameter \<open>clock\<close>, indexed by the number of events before.
\<close>

section \<open>Events\<close>

record LogEvent =
  ev_time :: u64
  ev_event :: string
  ev_component :: "string option"
  ev_stream :: "u32 option"
  ev_sequence :: "u64 option"
  ev_latency_us :: "f64 option"
  ev_detail :: "string option"

definition LogEvent_now :: "u64 \<Rightarrow> string \<Rightarrow> LogEvent" where
  "LogEvent_now time name = \<lparr>ev_time = time, ev_event = name, ev_component = None, ev_stream = None,
     ev_sequence = None, ev_latency_us = None, ev_detail = None\<rparr>"

definition with_component :: "LogEvent \<Rightarrow> string \<Rightarrow> LogEvent" where
  "with_component e c = e\<lparr>ev_component := Some c\<rparr>"

definition with_stream :: "LogEvent \<Rightarrow> u32 \<Rightarrow> LogEvent" where
  "with_stream e s = e\<lparr>ev_stream := Some s\<rparr>"

definition with_sequence :: "LogEvent \<Rightarrow> u64 \<Rightarrow> LogEvent" where
  "with_sequence e q = e\<lparr>ev_sequence := Some q\<rparr>"

definition with_latency_us :: "LogEvent \<Rightarrow> f64 \<Rightarrow> LogEvent" where
  "with_latency_us e l = e\<lparr>ev_latency_us := Some l\<rparr>"

definition with_detail :: "LogEvent \<Rightarrow> string \<Rightarrow> LogEvent" where
  "with_detail e d = e\<lparr>ev_detail := Some d\<rparr>"

record EventLogger =
  ev_log :: "LogEvent list"
  ev_path :: string

definition emit :: "EventLogger \<Rightarrow> LogEvent \<Rightarrow> EventLogger" where
  "emit lg e = lg\<lparr>ev_log := ev_log lg @ [e]\<rparr>"

definition HEALTH_CHANGED :: string where "HEALTH_CHANGED = ''HEALTH_CHANGED''"

definition PACKET_RX :: string where "PACKET_RX = ''packet_rx''"

definition SEQUENCE_GAP :: string where "SEQUENCE_GAP = ''sequence_gap''"

definition LATE_PACKET :: string where "LATE_PACKET = ''late_packet''"

definition PACKET_LOSS :: string where "PACKET_LOSS = ''PACKET_LOSS''"

definition SLOT_MISS :: string where "SLOT_MISS = ''SLOT_MISS''"

section \<open>Health\<close>

datatype HealthState = Normal | Warning | Degraded | Failed | Recovery

fun health_as_str :: "HealthState \<Rightarrow> string" where
  "health_as_str Normal = ''NORMAL''"
| "health_as_str Warning = ''WARNING''"
| "health_as_str Degraded = ''DEGRADED''"
| "health_as_str Failed = ''FAILED''"
| "health_as_str Recovery = ''RECOVERY''"

record HealthThresholds =
  max_loss_rate :: f64
  max_seq_gap_per_window :: u64
  max_latency_p99_ns :: u64
  max_jitter_ns :: u64
  max_symbol_deadline_miss_per_window :: u64
  max_gpu_stall_ns :: u64
  window_ms :: u64

definition HealthThresholds_default :: HealthThresholds where
  "HealthThresholds_default = \<lparr>max_loss_rate = f64_lit (1 / 1000), max_seq_gap_per_window = 0,
     max_latency_p99_ns = 50000, max_jitter_ns = 5000, max_symbol_deadline_miss_per_window = 8,
     max_gpu_stall_ns = 100000, window_ms = 1000\<rparr>"

record HealthManager =
  thresholds :: HealthThresholds
  hm_state :: HealthState
  transitions :: u64

definition HealthManager_new :: "HealthThresholds \<Rightarrow> HealthManager" where
  "HealthManager_new t = \<lparr>thresholds = t, hm_state = Normal, transitions = 0\<rparr>"

definition loss_rate_of :: "LayeredMetricsSnapshot \<Rightarrow> f64" where
  "loss_rate_of snap =
     f64_div (f64_of_u64 (drop_count (transport snap))) (f64_of_u64 (max (rx_packets (transport snap)) 1))"

definition worst_latency :: "LayeredMetricsSnapshot \<Rightarrow> u64" where
  "worst_latency snap = max (latency_last_ns (transport snap)) (latency_max_ns (transport snap))"

definition next_health :: "HealthThresholds \<Rightarrow> HealthState \<Rightarrow> LayeredMetricsSnapshot \<Rightarrow> HealthState" where
  "next_health t st snap =
     (let loss = loss_rate_of snap; latency = worst_latency snap in
      if max_seq_gap_per_window t < gap_count (transport snap)
         \<or> max_symbol_deadline_miss_per_window t * 4 < deadline_miss (radio snap)
         \<or> f_lt (f64_mul (max_loss_rate t) (f64_lit 10)) loss
      then Failed
      else if 0 < gap_count (transport snap)
         \<or> max_symbol_deadline_miss_per_window t < deadline_miss (radio snap)
         \<or> max_latency_p99_ns t < latency
         \<or> max_gpu_stall_ns t < ring_stall_ns (memory snap)
         \<or> f_lt (max_loss_rate t) loss
      then (if max_latency_p99_ns t * 2 < latency
               \<or> max_symbol_deadline_miss_per_window t < deadline_miss (radio snap)
            then Degraded else Warning)
      else if st = Failed \<or> st = Degraded then Recovery
      else Normal)"

definition evaluate :: "(nat \<Rightarrow> u64) \<Rightarrow> HealthManager \<Rightarrow> LayeredMetricsSnapshot \<Rightarrow> EventLogger option
    \<Rightarrow> HealthState option \<times> HealthManager \<times> EventLogger option" where
  "evaluate clock h snap events =
     (let nxt = next_health (thresholds h) (hm_state h) snap in
      if nxt \<noteq> hm_state h
      then let prev = hm_state h;
               h = h\<lparr>hm_state := nxt, transitions := transitions h + 1\<rparr>;
               events = map_option (\<lambda>lg. emit lg
                 (with_detail (with_component (LogEvent_now (clock (length (ev_log lg))) HEALTH_CHANGED) ''health'')
                   (health_as_str prev @ '' -> '' @ health_as_str nxt))) events
           in (Some prev, h, events)
      else if hm_state h = Recovery \<and> nxt = Normal
      then (Some (hm_state h), h\<lparr>hm_state := Normal, transitions := transitions h + 1\<rparr>, events)
      else (None, h, events))"

section \<open>Recovery policy\<close>

datatype RecoveryAction =
    MarkInvalidContinue | RecoverSequence | DropOldestResyncSlot | RestartStream
  | AlertAndContinue | RecordAndDrop | UnknownAction

definition is_space :: "char \<Rightarrow> bool" where
  "is_space c \<longleftrightarrow> (of_char c :: nat) \<in> {9, 10, 11, 12, 13, 32}"

definition trim :: "string \<Rightarrow> string" where
  "trim s = rev (dropWhile is_space (rev (dropWhile is_space s)))"

definition action_parse :: "string \<Rightarrow> RecoveryAction" where
  "action_parse s =
     (let k = to_ascii_lowercase (trim s) in
      if k = ''mark_invalid_continue'' then MarkInvalidContinue
      else if k = ''recover_sequence'' then RecoverSequence
      else if k = ''drop_oldest_resync_slot'' then DropOldestResyncSlot
      else if k = ''restart_stream'' then RestartStream
      else if k = ''alert_and_continue'' then AlertAndContinue
      else if k = ''record_and_drop'' then RecordAndDrop
      else UnknownAction)"

fun action_as_str :: "RecoveryAction \<Rightarrow> string" where
  "action_as_str MarkInvalidContinue = ''mark_invalid_continue''"
| "action_as_str RecoverSequence = ''recover_sequence''"
| "action_as_str DropOldestResyncSlot = ''drop_oldest_resync_slot''"
| "action_as_str RestartStream = ''restart_stream''"
| "action_as_str AlertAndContinue = ''alert_and_continue''"
| "action_as_str RecordAndDrop = ''record_and_drop''"
| "action_as_str UnknownAction = ''unknown''"

record RecoveryPolicyFile =
  rpf_version :: string
  rpf_id :: string
  rpf_actions :: "string \<rightharpoonup> string"

record RecoveryPolicy =
  rp_id :: string
  rp_actions :: "string \<rightharpoonup> RecoveryAction"

datatype RecoveryError = RecoveryConfigError string

definition RecoveryPolicy_from_yaml_str ::
    "(string \<Rightarrow> string + RecoveryPolicyFile) \<Rightarrow> string \<Rightarrow> RecoveryError + RecoveryPolicy" where
  "RecoveryPolicy_from_yaml_str yaml_parse s =
     (case map_err RecoveryConfigError (yaml_parse s) of
        Inl e \<Rightarrow> Inl e
      | Inr file \<Rightarrow> Inr \<lparr>rp_id = rpf_id file, rp_actions = map_option action_parse \<circ> rpf_actions file\<rparr>)"

definition action_for :: "RecoveryPolicy \<Rightarrow> string \<Rightarrow> RecoveryAction" where
  "action_for p c = (case rp_actions p c of Some a \<Rightarrow> a | None \<Rightarrow> UnknownAction)"

record RecoveryExecutor =
  rx_policy :: RecoveryPolicy
  applied :: "(string \<times> RecoveryAction) list"

definition RecoveryExecutor_new :: "RecoveryPolicy \<Rightarrow> RecoveryExecutor" where
  "RecoveryExecutor_new p = \<lparr>rx_policy = p, applied = []\<rparr>"

definition recovery_apply :: "(nat \<Rightarrow> u64) \<Rightarrow> RecoveryExecutor \<Rightarrow> string \<Rightarrow> EventLogger option
    \<Rightarrow> RecoveryAction \<times> RecoveryExecutor \<times> EventLogger option" where
  "recovery_apply clock x fault_class events =
     (let action = action_for (rx_policy x) fault_class;
          x = x\<lparr>applied := applied x @ [(fault_class, action)]\<rparr>;
          events = map_option (\<lambda>lg. emit lg
            (with_detail (with_component (LogEvent_now (clock (length (ev_log lg))) HEALTH_CHANGED) ''recovery'')
              (fault_class @ '' -> '' @ action_as_str action))) events
      in (action, x, events))"

section \<open>Traces\<close>

datatype TraceStage = FpgaTx | WireDepart | Cx5Rx | DmaDone | HostReady | GpuEnqueue | CudaStart | CudaDone

record StageStamp =
  st_stage :: TraceStage
  st_time_ns :: u64

record PacketTrace =
  trace_id :: u64
  tr_stream_id :: u32
  tr_sequence :: u64
  stages :: "StageStamp list"

record TraceEngine =
  capacity :: usize
  traces :: "PacketTrace list"
  tr_next_id :: u64
  tr_enabled :: bool
  export_path :: "string option"
  tr_dropped :: u64

definition TraceEngine_new :: "usize \<Rightarrow> TraceEngine" where
  "TraceEngine_new cap = \<lparr>capacity = max cap 1, traces = [], tr_next_id = 1, tr_enabled = True,
     export_path = None, tr_dropped = 0\<rparr>"

definition TraceEngine_disabled :: TraceEngine where
  "TraceEngine_disabled = (TraceEngine_new 1)\<lparr>tr_enabled := False\<rparr>"

definition TraceEngine_from_config :: "bool \<Rightarrow> usize \<Rightarrow> string \<Rightarrow> TraceEngine" where
  "TraceEngine_from_config en cap path = (TraceEngine_new cap)\<lparr>tr_enabled := en, export_path := Some path\<rparr>"

definition trace_start :: "TraceEngine \<Rightarrow> u32 \<Rightarrow> u64 \<Rightarrow> TraceStage \<Rightarrow> u64 \<Rightarrow> u64 \<times> TraceEngine" where
  "trace_start e stream s first time =
     (if \<not> tr_enabled e then (0, e)
      else
        let i = tr_next_id e;
            e = e\<lparr>tr_next_id := tr_next_id e + 1\<rparr>;
            t = \<lparr>trace_id = i, tr_stream_id = stream, tr_sequence = s,
                 stages = [\<lparr>st_stage = first, st_time_ns = time\<rparr>]\<rparr>;
            e = (if capacity e \<le> length (traces e)
                 then e\<lparr>traces := tl (traces e), tr_dropped := tr_dropped e + 1\<rparr> else e)
        in (i, e\<lparr>traces := traces e @ [t]\<rparr>))"

text \<open>\<^verbatim>\<open>iter_mut().rev().find(..)\<close>: the newest trace that satisfies the predicate is updated.\<close>

fun update_first :: "('a \<Rightarrow> bool) \<Rightarrow> ('a \<Rightarrow> 'a) \<Rightarrow> 'a list \<Rightarrow> 'a list" where
  "update_first p f [] = []"
| "update_first p f (x # xs) = (if p x then f x # xs else x # update_first p f xs)"

definition stamp :: "TraceEngine \<Rightarrow> u64 \<Rightarrow> TraceStage \<Rightarrow> u64 \<Rightarrow> TraceEngine" where
  "stamp e i stage time =
     (if \<not> tr_enabled e \<or> i = 0 then e
      else e\<lparr>traces := rev (update_first (\<lambda>t. trace_id t = i)
             (\<lambda>t. t\<lparr>stages := stages t @ [\<lparr>st_stage = stage, st_time_ns = time\<rparr>]\<rparr>) (rev (traces e)))\<rparr>)"

definition latest :: "TraceEngine \<Rightarrow> PacketTrace option" where
  "latest e = (if traces e = [] then None else Some (last (traces e)))"

section \<open>Properties of the health manager\<close>

text \<open>
  One evaluation of the health manager.  The new state is the verdict of the thresholds; the
  previous state is returned, a transition is counted and an event is logged exactly when the state
  changes.  The clean-up branch for a recovered system that follows in the source is never taken: a
  recovered system already becomes normal through the verdict.
\<close>

theorem health_evaluate:
  "(case evaluate clock h snap (Some lg) of (res, h', ev) \<Rightarrow>
      hm_state h' = next_health (thresholds h) (hm_state h) snap
      \<and> res = (if hm_state h' = hm_state h then None else Some (hm_state h))
      \<and> transitions h' = transitions h + (if hm_state h' = hm_state h then 0 else 1)
      \<and> length (ev_log (the ev)) = length (ev_log lg) + (if hm_state h' = hm_state h then 0 else 1)
      \<and> thresholds h' = thresholds h)"
  by (auto simp: evaluate_def Let_def emit_def)

definition clean_metrics :: "HealthThresholds \<Rightarrow> LayeredMetricsSnapshot \<Rightarrow> bool" where
  "clean_metrics t snap \<longleftrightarrow> next_health t Normal snap = Normal"

lemma next_health_clean:
  "clean_metrics t snap \<Longrightarrow>
     next_health t st snap = (if st = Failed \<or> st = Degraded then Recovery else Normal)"
  by (auto simp: clean_metrics_def next_health_def Let_def split: if_splits)

lemma next_health_dirty:
  "\<not> clean_metrics t snap \<Longrightarrow> next_health t st snap = next_health t Normal snap
     \<and> next_health t st snap \<in> {Failed, Degraded, Warning}"
  by (auto simp: clean_metrics_def next_health_def Let_def split: if_splits)

lemma evaluate_state:
  "hm_state (fst (snd (evaluate clock h snap ev))) = next_health (thresholds h) (hm_state h) snap"
  "thresholds (fst (snd (evaluate clock h snap ev))) = thresholds h"
  by (auto simp: evaluate_def Let_def)

text \<open>
  Recovery of the health state.  Metrics that violate a threshold give a verdict that does not
  depend on the history.  Metrics that violate none bring a failed or degraded system to recovery and
  any other system to normal, so two clean evaluations in a row always end in the normal state.
\<close>

theorem health_recovers:
  assumes "clean_metrics (thresholds h) snap" "clean_metrics (thresholds h) snap'"
  shows "(let h1 = fst (snd (evaluate clock h snap ev)) in
      hm_state h1 = (if hm_state h \<in> {Failed, Degraded} then Recovery else Normal)
      \<and> hm_state (fst (snd (evaluate clock h1 snap' ev'))) = Normal)"
  using assms by (auto simp: evaluate_state next_health_clean)

lemma default_metrics_clean:
  "clean_metrics HealthThresholds_default LayeredMetricsSnapshot_default"
proof -
  have "loss_rate_of LayeredMetricsSnapshot_default = Fin 0"
    by (simp add: loss_rate_of_def LayeredMetricsSnapshot_default_def TransportLayerMetrics_default_def
        f64_of_nat_exact max_def rnd_def rnd_unbounded_def Let_def not_le)
  moreover have pos: "f_nonneg (f64_lit (1 / 1000))" by (rule rnd_nonneg) simp
  moreover have "f_nonneg (f64_mul (f64_lit (1 / 1000)) (Fin 10))" using pos by (rule f_mul_nonneg) simp
  moreover have "\<not> f_lt x (Fin 0)" if "f_nonneg x" for x using that by (cases x) simp_all
  ultimately show ?thesis
    by (simp add: clean_metrics_def next_health_def Let_def HealthThresholds_default_def worst_latency_def)
      (simp add: LayeredMetricsSnapshot_default_def TransportLayerMetrics_default_def
        RadioLayerMetrics_default_def MemoryLayerMetrics_default_def)
qed

definition sample_health :: HealthManager where
  "sample_health = (HealthManager_new HealthThresholds_default)\<lparr>hm_state := Failed\<rparr>"

theorem health_recovers_witness:
  "(let h1 = fst (snd (evaluate (\<lambda>_. 0) sample_health LayeredMetricsSnapshot_default None)) in
      hm_state h1 = (if hm_state sample_health \<in> {Failed, Degraded} then Recovery else Normal)
      \<and> hm_state (fst (snd (evaluate (\<lambda>_. 0) h1 LayeredMetricsSnapshot_default None))) = Normal)"
  by (rule health_recovers) (simp_all add: sample_health_def HealthManager_new_def default_metrics_clean)

section \<open>Properties of the recovery policy\<close>

lemma action_parse_names:
  "action_parse ''mark_invalid_continue'' = MarkInvalidContinue"
  "action_parse ''recover_sequence'' = RecoverSequence"
  "action_parse ''drop_oldest_resync_slot'' = DropOldestResyncSlot"
  "action_parse ''restart_stream'' = RestartStream"
  "action_parse ''alert_and_continue'' = AlertAndContinue"
  "action_parse ''record_and_drop'' = RecordAndDrop"
  "action_parse ''unknown'' = UnknownAction"
  by code_simp+

lemma action_roundtrip: "action_parse (action_as_str a) = a"
  by (cases a) (simp_all add: action_parse_names)

section \<open>Properties of the trace ring\<close>

datatype trace_call = Start u32 u64 TraceStage u64 | Stamp u64 TraceStage u64

fun trace_run :: "TraceEngine \<Rightarrow> trace_call list \<Rightarrow> TraceEngine" where
  "trace_run e [] = e"
| "trace_run e (Start stream s first time # cs) = trace_run (snd (trace_start e stream s first time)) cs"
| "trace_run e (Stamp i stage time # cs) = trace_run (stamp e i stage time) cs"

fun starts :: "trace_call list \<Rightarrow> nat" where
  "starts [] = 0"
| "starts (Start _ _ _ _ # cs) = Suc (starts cs)"
| "starts (Stamp _ _ _ # cs) = starts cs"

lemma map_update_first:
  "(\<And>x. g (f x) = g x) \<Longrightarrow> map g (update_first p f xs) = map g xs"
  by (induction xs) simp_all

lemma stamp_ids [simp]: "map trace_id (traces (stamp e i st t)) = map trace_id (traces e)"
  by (simp add: stamp_def map_update_first rev_map [symmetric])

lemma stamp_static [simp]:
  "capacity (stamp e i st t) = capacity e" "tr_next_id (stamp e i st t) = tr_next_id e"
  "tr_enabled (stamp e i st t) = tr_enabled e" "tr_dropped (stamp e i st t) = tr_dropped e"
  by (simp_all add: stamp_def)

text \<open>The state of an enabled engine of capacity \<open>c\<close> after \<open>n\<close> traces were started.\<close>

definition trace_spec :: "nat \<Rightarrow> nat \<Rightarrow> TraceEngine \<Rightarrow> bool" where
  "trace_spec c n e \<longleftrightarrow>
     tr_enabled e \<and> capacity e = c \<and> tr_next_id e = word_of_nat (Suc n)
     \<and> map trace_id (traces e) = map word_of_nat [Suc (n - c)..<Suc n] \<and> tr_dropped e = word_of_nat (n - c)"

lemma trace_spec_start:
  assumes "trace_spec c n e" "0 < c"
  shows "trace_spec c (Suc n) (snd (trace_start e stream s first time))"
proof -
  let ?e = "snd (trace_start e stream s first time)"
  have ids: "map trace_id (traces e) = map word_of_nat [Suc (n - c)..<Suc n]" using assms(1) by (simp add: trace_spec_def)
  have len: "length (traces e) = min n c" using arg_cong [OF ids, of length] by (simp del: upt_Suc)
  have static: "tr_enabled ?e \<and> capacity ?e = c \<and> tr_next_id ?e = word_of_nat (Suc (Suc n))"
    using assms(1) by (simp add: trace_spec_def trace_start_def Let_def)
  show ?thesis
  proof (cases "c \<le> n")
    case True
    then have "map trace_id (traces ?e) = tl (map trace_id (traces e)) @ [word_of_nat (Suc n)]"
      using assms(1) len by (simp add: trace_spec_def trace_start_def Let_def map_tl)
    also have "\<dots> = map word_of_nat ([Suc (Suc (n - c))..<Suc n] @ [Suc n])"
      unfolding ids using True assms(2) by (simp add: map_tl [symmetric] tl_upt del: upt_Suc)
    also have "\<dots> = map word_of_nat [Suc (Suc n - c)..<Suc (Suc n)]"
      using True assms(2) by (simp add: Suc_diff_le)
    finally have "map trace_id (traces ?e) = map word_of_nat [Suc (Suc n - c)..<Suc (Suc n)]" .
    moreover have "tr_dropped ?e = word_of_nat (Suc n - c)"
      using assms(1) True len by (simp add: trace_spec_def trace_start_def Let_def Suc_diff_le add.commute)
    ultimately show ?thesis using static by (simp only: trace_spec_def)
  next
    case False
    then have "map trace_id (traces ?e) = map trace_id (traces e) @ [word_of_nat (Suc n)]"
      using assms(1) len by (simp add: trace_spec_def trace_start_def Let_def)
    also have "\<dots> = map word_of_nat [Suc (Suc n - c)..<Suc (Suc n)]" unfolding ids using False by simp
    finally have "map trace_id (traces ?e) = map word_of_nat [Suc (Suc n - c)..<Suc (Suc n)]" .
    moreover have "tr_dropped ?e = word_of_nat (Suc n - c)"
      using assms(1) False len by (simp add: trace_spec_def trace_start_def Let_def)
    ultimately show ?thesis using static by (simp only: trace_spec_def)
  qed
qed

lemma trace_spec_run: "trace_spec c n e \<Longrightarrow> 0 < c \<Longrightarrow> trace_spec c (n + starts cs) (trace_run e cs)"
proof (induction cs arbitrary: n e)
  case (Cons x cs)
  then show ?case
  proof (cases x)
    case (Start a b d f)
    have "trace_spec c (Suc n) (snd (trace_start e a b d f))" using Cons.prems by (rule trace_spec_start)
    with Cons.IH [OF this] Cons.prems Start show ?thesis by simp
  next
    case (Stamp i st t)
    have "trace_spec c n (stamp e i st t)" using Cons.prems by (simp add: trace_spec_def)
    with Cons.IH [OF this] Cons.prems Stamp show ?thesis by simp
  qed
qed simp

text \<open>
  The trace ring keeps the newest traces.  After any mix of starts and stamps the ring holds
  exactly the most recent ones, up to its capacity, in order of their consecutive identifiers, and
  the drop counter is the number of the others; a capacity of zero acts like one.
\<close>

theorem trace_ring_keeps_newest:
  "(let e = trace_run (TraceEngine_new cap) cs; n = starts cs; c = max cap 1 in
      length (traces e) = min n c
      \<and> map trace_id (traces e) = map word_of_nat [Suc (n - c)..<Suc n]
      \<and> tr_dropped e = word_of_nat (n - c))"
proof -
  have "trace_spec (max cap 1) 0 (TraceEngine_new cap)"
    by (simp add: trace_spec_def TraceEngine_new_def)
  then have spec: "trace_spec (max cap 1) (starts cs) (trace_run (TraceEngine_new cap) cs)"
    using trace_spec_run [of "max cap 1" 0 "TraceEngine_new cap" cs] by simp
  have ids: "map trace_id (traces (trace_run (TraceEngine_new cap) cs))
      = map word_of_nat [Suc (starts cs - max cap 1)..<Suc (starts cs)]"
    using spec by (simp only: trace_spec_def)
  have "length (traces (trace_run (TraceEngine_new cap) cs)) = min (starts cs) (max cap 1)"
    using arg_cong [OF ids, of length] by (simp del: upt_Suc)
  with spec ids show ?thesis by (simp only: trace_spec_def Let_def)
qed

end
