(* ===== verification/Net_IO.thy ===== *)
theory Net_IO
  imports Protocol
begin

text \<open>
  The crate \<^verbatim>\<open>net-io\<close>: framed packets over UDP.  The socket is outside the model: what its
  \<^verbatim>\<open>recv_from\<close> calls return is the list \<open>net_in\<close> of outcomes still to come, and whether a
  \<^verbatim>\<open>send_to\<close> succeeds is the parameter \<open>send_ok\<close>.  An empty list stands for a socket that times
  out, so every call of the receive loop ends.
\<close>

section \<open>Definitions\<close>

record NetLinkConfig =
  net_version :: string
  net_id :: string
  bind_addr :: string
  peer_addr :: string
  recv_timeout_ms :: u64
  max_datagram_bytes :: usize

datatype NetIoError =
    NetConfigError string
  | NetIo string
  | NetProtocol ProtocolError
  | MissingPeer

definition NetLinkConfig_from_yaml_str ::
    "(string \<Rightarrow> string + NetLinkConfig) \<Rightarrow> string \<Rightarrow> NetIoError + NetLinkConfig" where
  "NetLinkConfig_from_yaml_str yaml_parse s = map_err NetConfigError (yaml_parse s)"

text \<open>Resolution of an address and binding of a socket, by the operating system.\<close>

record net_env =
  env_resolve :: "string \<Rightarrow> string + string list"
  env_bind :: "string \<Rightarrow> string + unit"
  env_set_timeout :: "u64 \<Rightarrow> string + unit"

definition resolve_one :: "net_env \<Rightarrow> string \<Rightarrow> NetIoError + string" where
  "resolve_one env addr =
     (case env_resolve env addr of
        Inl e \<Rightarrow> Inl (NetIo e)
      | Inr [] \<Rightarrow> Inl (NetConfigError (''cannot resolve '' @ addr))
      | Inr (a # _) \<Rightarrow> Inr a)"

record NetPacketSink =
  sink_peer :: string
  sent :: u64

definition NetPacketSink_bind :: "net_env \<Rightarrow> NetLinkConfig \<Rightarrow> NetIoError + NetPacketSink" where
  "NetPacketSink_bind env cfg =
     (if peer_addr cfg = [] then Inl MissingPeer
      else case env_bind env (bind_addr cfg) of
        Inl e \<Rightarrow> Inl (NetIo e)
      | Inr _ \<Rightarrow>
          (case resolve_one env (peer_addr cfg) of
             Inl e \<Rightarrow> Inl e
           | Inr peer \<Rightarrow> Inr \<lparr>sink_peer = peer, sent = 0\<rparr>))"

definition net_send_packet ::
    "(u8 list \<Rightarrow> string \<Rightarrow> string + usize) \<Rightarrow> NetPacketSink \<Rightarrow> Packet \<Rightarrow> (NetIoError, usize, NetPacketSink) outcome" where
  "net_send_packet send_to sink packet =
     (let frame = encode_frame packet in
      case send_to frame (sink_peer sink) of
        Inl e \<Rightarrow> (Inl (NetIo e), sink)
      | Inr n \<Rightarrow> (Inr n, sink\<lparr>sent := sent sink + 1\<rparr>))"

text \<open>One outcome of \<^verbatim>\<open>recv_from\<close>: a datagram, a timeout, or another error.\<close>

datatype recv_outcome = Datagram "u8 list" | WouldBlock | RecvError string

record NetPacketIO =
  net_in :: "recv_outcome list"
  net_peer :: "string option"
  net_max_datagram :: usize
  net_rx :: "Packet list"
  received :: u64
  decode_errors :: u64

definition NetPacketIO_bind :: "net_env \<Rightarrow> recv_outcome list \<Rightarrow> NetLinkConfig \<Rightarrow> NetIoError + NetPacketIO" where
  "NetPacketIO_bind env incoming cfg =
     (case env_bind env (bind_addr cfg) of
        Inl e \<Rightarrow> Inl (NetIo e)
      | Inr _ \<Rightarrow>
          (case (if 0 < recv_timeout_ms cfg then env_set_timeout env (recv_timeout_ms cfg) else Inr ()) of
             Inl e \<Rightarrow> Inl (NetIo e)
           | Inr _ \<Rightarrow>
               (case (if peer_addr cfg = [] then Inr None else map_sum id Some (resolve_one env (peer_addr cfg))) of
                  Inl e \<Rightarrow> Inl e
                | Inr peer \<Rightarrow>
                    Inr \<lparr>net_in = incoming, net_peer = peer, net_max_datagram = max (max_datagram_bytes cfg) 64,
                         net_rx = [], received = 0, decode_errors = 0\<rparr>)))"

text \<open>
  The receive loop.  A datagram longer than the buffer is cut to it by the socket.  Each turn uses up
  one outcome of the socket; a datagram that does not decode is counted but does not count towards
  the maximum.
\<close>

fun net_poll_loop :: "usize \<Rightarrow> usize \<Rightarrow> recv_outcome list \<Rightarrow> NetPacketIO \<Rightarrow> (NetIoError, usize, NetPacketIO) outcome" where
  "net_poll_loop cnt m [] io = (Inr cnt, io\<lparr>net_in := []\<rparr>)"
| "net_poll_loop cnt m (oc # os) io =
     (if \<not> cnt < m then (Inr cnt, io\<lparr>net_in := oc # os\<rparr>)
      else case oc of
        Datagram bytes \<Rightarrow>
          (case decode_frame (take (net_max_datagram io) bytes) of
             Inr pkt \<Rightarrow> net_poll_loop (Suc cnt) m os (io\<lparr>net_rx := net_rx io @ [pkt], received := received io + 1\<rparr>)
           | Inl _ \<Rightarrow> net_poll_loop cnt m os (io\<lparr>decode_errors := decode_errors io + 1\<rparr>))
      | WouldBlock \<Rightarrow> (Inr cnt, io\<lparr>net_in := os\<rparr>)
      | RecvError e \<Rightarrow> (Inl (NetIo e), io\<lparr>net_in := os\<rparr>))"

definition net_poll_rx :: "NetPacketIO \<Rightarrow> usize \<Rightarrow> (NetIoError, usize, NetPacketIO) outcome" where
  "net_poll_rx io m = net_poll_loop 0 m (net_in io) io"

definition net_rx_burst :: "NetPacketIO \<Rightarrow> usize \<Rightarrow> Packet list \<times> NetPacketIO" where
  "net_rx_burst io m =
     (let io = snd (net_poll_rx io m);
          n = min m (length (net_rx io));
          (out, rest) = drain_front n (net_rx io)
      in (out, io\<lparr>net_rx := rest\<rparr>))"

definition net_tx_burst :: "(u8 list \<Rightarrow> string \<Rightarrow> string + usize) \<Rightarrow> NetPacketIO \<Rightarrow> Packet list \<Rightarrow> usize \<times> NetPacketIO" where
  "net_tx_burst send_to io packets =
     (case net_peer io of
        None \<Rightarrow> (0, io)
      | Some peer \<Rightarrow>
          (fold (\<lambda>pkt n. case send_to (encode_frame pkt) peer of Inr _ \<Rightarrow> n + 1 | Inl _ \<Rightarrow> n) packets 0, io))"

section \<open>What the receiver delivers\<close>

text \<open>
  The packets a run of socket outcomes without timeouts and errors carries, in order: the datagrams
  that decode.
\<close>

fun decoded :: "usize \<Rightarrow> recv_outcome list \<Rightarrow> Packet list" where
  "decoded cap [] = []"
| "decoded cap (Datagram bytes # os) =
     (case decode_frame (take cap bytes) of Inr p \<Rightarrow> p # decoded cap os | Inl _ \<Rightarrow> decoded cap os)"
| "decoded cap (_ # os) = decoded cap os"

definition all_datagrams :: "recv_outcome list \<Rightarrow> bool" where
  "all_datagrams os \<longleftrightarrow> list_all (\<lambda>oc. case oc of Datagram _ \<Rightarrow> True | _ \<Rightarrow> False) os"

lemma net_poll_static [simp]:
  "net_max_datagram (snd (net_poll_loop cnt m os io)) = net_max_datagram io"
  "net_peer (snd (net_poll_loop cnt m os io)) = net_peer io"
  by (induction cnt m os io rule: net_poll_loop.induct) (auto split: recv_outcome.split sum.split)

lemma net_poll_conserves:
  assumes "all_datagrams os"
  shows "net_rx (snd (net_poll_loop cnt m os io)) @ decoded (net_max_datagram io) (net_in (snd (net_poll_loop cnt m os io)))
      = net_rx io @ decoded (net_max_datagram io) os
    \<and> all_datagrams (net_in (snd (net_poll_loop cnt m os io)))
    \<and> length (net_rx (snd (net_poll_loop cnt m os io)))
        = length (net_rx io) + min (m - cnt) (length (decoded (net_max_datagram io) os))"
  using assms
proof (induction cnt m os io rule: net_poll_loop.induct)
  case (1 cnt m io)
  then show ?case by (simp add: all_datagrams_def)
next
  case (2 cnt m out os io)
  then obtain bytes where d: "out = Datagram bytes" and rest: "all_datagrams os"
    by (auto simp: all_datagrams_def split: recv_outcome.splits)
  show ?case
  proof (cases "cnt < m")
    case False
    with 2 show ?thesis by simp
  next
    case True
    show ?thesis
    proof (cases "decode_frame (take (net_max_datagram io) bytes)")
      case (Inl e)
      with "2.IH"(1) [of bytes e] True d rest show ?thesis by simp
    next
      case (Inr p)
      with "2.IH"(2) [of bytes p] True d rest show ?thesis by simp
    qed
  qed
qed

interpretation net_io: burst_queue net_rx_burst "\<lambda>io. net_rx io @ decoded (net_max_datagram io) (net_in io)" "\<lambda>_ m. m"
  "\<lambda>io. all_datagrams (net_in io)"
proof unfold_locales
  fix io :: NetPacketIO and m :: nat
  assume a: "all_datagrams (net_in io)"
  let ?io = "snd (net_poll_rx io m)"
  have c: "net_rx ?io @ decoded (net_max_datagram io) (net_in ?io) = net_rx io @ decoded (net_max_datagram io) (net_in io)"
    "all_datagrams (net_in ?io)"
    "length (net_rx ?io) = length (net_rx io) + min m (length (decoded (net_max_datagram io) (net_in io)))"
    using net_poll_conserves [OF a, of 0 m io] by (simp_all add: net_poll_rx_def)
  have tk: "take (min m (length xs)) xs = take m xs" "drop (min m (length xs)) xs = drop m xs" for xs :: "Packet list"
    by (cases "m \<le> length xs"; simp)+
  show "all_datagrams (net_in (snd (net_rx_burst io m)))"
    using c(2) by (simp add: net_rx_burst_def drain_front_def Let_def)
  have stat: "net_max_datagram ?io = net_max_datagram io" by (simp add: net_poll_rx_def)
  have all: "m \<le> length (net_rx ?io) \<or> decoded (net_max_datagram io) (net_in ?io) = []"
    using arg_cong [OF c(1), of length] c(3) by (cases "m \<le> length (decoded (net_max_datagram io) (net_in io))") auto
  have out: "fst (net_rx_burst io m) = take m (net_rx ?io)"
    and rest: "net_rx (snd (net_rx_burst io m)) = drop m (net_rx ?io)"
    and io': "net_max_datagram (snd (net_rx_burst io m)) = net_max_datagram io" "net_in (snd (net_rx_burst io m)) = net_in ?io"
    by (simp_all add: net_rx_burst_def drain_front_def Let_def tk stat)
  show "fst (net_rx_burst io m) = take m (net_rx io @ decoded (net_max_datagram io) (net_in io))"
    unfolding c(1) [symmetric] out using all by auto
  show "net_rx (snd (net_rx_burst io m)) @ decoded (net_max_datagram (snd (net_rx_burst io m))) (net_in (snd (net_rx_burst io m)))
      = drop m (net_rx io @ decoded (net_max_datagram io) (net_in io))"
    unfolding c(1) [symmetric] rest io' using all by auto
qed simp_all

lemma decoded_frames:
  "\<forall>p\<in>set ps. 32 + length (payload p) \<le> n \<and> length (payload p) < 2 ^ 32 \<Longrightarrow>
     decoded n (map (\<lambda>p. Datagram (encode_frame p)) ps) = ps"
  by (induction ps) (simp_all add: decode_frame_encode_frame)

lemma all_datagrams_map: "all_datagrams (map (\<lambda>p. Datagram (f p)) ps)"
  by (induction ps) (simp_all add: all_datagrams_def)

text \<open>
  End to end over a lossless network.  When every packet of a list is framed, sent as one
  datagram that fits the receiver's buffer and delivered, interleaved with datagrams that are no
  frames, then enough bursts hand exactly the packets of the list, in order, to the host.
\<close>

theorem udp_delivers:
  assumes "net_rx io = []" "all_datagrams (net_in io)"
    and "decoded (net_max_datagram io) (net_in io) = decoded (net_max_datagram io) (map (\<lambda>p. Datagram (encode_frame p)) ps)"
    and "\<forall>p\<in>set ps. 32 + length (payload p) \<le> net_max_datagram io \<and> length (payload p) < 2 ^ 32"
    and "length ps \<le> k * m"
  shows "fst (net_io.bursts k m io) = ps"
proof -
  have "net_rx io @ decoded (net_max_datagram io) (net_in io) = ps"
    using assms(1,3,4) by (simp add: decoded_frames)
  then show ?thesis using net_io.drain_complete(1) [OF assms(2), of k m] assms(5) by simp
qed

definition sample_net_io :: NetPacketIO where
  "sample_net_io = \<lparr>net_in = [Datagram [1, 2, 3],
      Datagram (encode_frame (Packet_new (StreamId 1) (Sequence 7) (Timestamp 99) [9, 8, 7]))],
     net_peer = None, net_max_datagram = 2048, net_rx = [], received = 0, decode_errors = 0\<rparr>"

theorem udp_delivers_witness:
  "fst (net_io.bursts 1 8 sample_net_io) = [Packet_new (StreamId 1) (Sequence 7) (Timestamp 99) [9, 8, 7]]"
proof (rule udp_delivers)
  have "decode_frame (take 2048 [1, 2, 3]) = Inl (Truncated 3 32)"
    by (simp add: decode_frame_def decode_def)
  then show "decoded (net_max_datagram sample_net_io) (net_in sample_net_io) = decoded (net_max_datagram sample_net_io)
      (map (\<lambda>p. Datagram (encode_frame p)) [Packet_new (StreamId 1) (Sequence 7) (Timestamp 99) [9, 8, 7]])"
    by (simp add: sample_net_io_def)
qed (simp_all add: sample_net_io_def all_datagrams_def)

end
