(* ===== verification/Cuda.thy ===== *)
theory Cuda
  imports Gpu_Ring Ops
begin

text \<open>
  The crate \<^verbatim>\<open>gpu-cuda\<close>: the back end on a real GPU.  The driver (crate \<^verbatim>\<open>cudarc\<close>) is the parameter
  \<open>cuda_driver\<close>: whether its calls succeed, and the \<^verbatim>\<open>f32\<close> product of the scale and one word as the
  device's floating-point unit computes it (signed zeros and NaN payloads included).  Device memory
  is modelled as it is used, one buffer of 32-bit words per allocation; a number of type \<^verbatim>\<open>f32\<close> is there by
  its bits, since the bytes of the payload are only moved.  The kernel is the one of
  \<^verbatim>\<open>kernels/phy_scale.cu\<close>: the thread with index \<open>i\<close> changes word \<open>i\<close> if it is below \<open>n\<close>.  Copying between
  slices of different length panics in the driver crate, the outcome \<open>CudaPanic\<close>.
\<close>

section \<open>Definitions\<close>

datatype GpuBackendKind = Simulation | CudaKind

definition GpuBackendKind_parse :: "string \<Rightarrow> GpuBackendKind option" where
  "GpuBackendKind_parse s =
     (let k = to_ascii_lowercase (trim s) in
      if k = ''simulation'' \<or> k = ''sim'' then Some Simulation
      else if k = ''cuda'' \<or> k = ''gpu'' \<or> k = ''realtime'' then Some CudaKind
      else None)"

record CudaBackendConfig =
  cb_version :: string
  cb_id :: string
  device_id :: u32
  cb_scale :: f32
  threads_per_block :: u32
  expect_name_contains :: string

datatype CudaConfigError = CudaParse string

definition CudaBackendConfig_from_yaml_str ::
    "(string \<Rightarrow> string + CudaBackendConfig) \<Rightarrow> string \<Rightarrow> CudaConfigError + CudaBackendConfig" where
  "CudaBackendConfig_from_yaml_str yaml_parse s = map_err CudaParse (yaml_parse s)"

definition default_rtx4050 :: CudaBackendConfig where
  "default_rtx4050 = \<lparr>cb_version = ''1.0.0'', cb_id = ''gpu-cuda-rtx4050'', device_id = 0, cb_scale = f32_lit 1,
     threads_per_block = 256, expect_name_contains = ''4050''\<rparr>"

datatype CudaGpuError =
    CudaDriver string
  | CudaConfig string
  | NameMismatch string string
  | NoDevice
  | CudaPanic

record CudaGpu =
  cg_cfg :: CudaBackendConfig
  device_bufs :: "u32 list list"
  lengths :: "usize list"
  last_kernel_ns :: "u64 option"
  device_name :: string

record cuda_driver =
  drv_count :: "string + 32 word"
  drv_new :: "usize \<Rightarrow> string + unit"
  drv_name :: "usize \<Rightarrow> string + string"
  drv_load_ptx :: "string + unit"
  drv_get_func :: bool
  drv_alloc :: "CudaGpu \<Rightarrow> usize \<Rightarrow> string + unit"
  drv_htod :: "CudaGpu \<Rightarrow> string + unit"
  drv_launch :: "CudaGpu \<Rightarrow> string + unit"
  drv_sync :: "CudaGpu \<Rightarrow> string + unit"
  drv_dtoh :: "CudaGpu \<Rightarrow> string + unit"
  drv_elapsed :: "CudaGpu \<Rightarrow> u64"
  drv_word :: "f32 \<Rightarrow> u32 \<Rightarrow> u32"

definition cuda_device_count :: "cuda_driver \<Rightarrow> CudaGpuError + usize" where
  "cuda_device_count d =
     (case drv_count d of
        Inr c \<Rightarrow> if 0 < sint c then Inr (nat (sint c)) else Inl NoDevice
      | Inl e \<Rightarrow> Inl (CudaDriver e))"

text \<open>The cast \<^verbatim>\<open>device_id as i32\<close> reads the same bits as a signed number.\<close>

definition CudaGpu_new :: "cuda_driver \<Rightarrow> CudaBackendConfig \<Rightarrow> CudaGpuError + CudaGpu" where
  "CudaGpu_new d cfg =
     (case drv_count d of
        Inl e \<Rightarrow> Inl (CudaDriver e)
      | Inr c \<Rightarrow>
          if c = 0 then Inl NoDevice
          else if sint c \<le> sint (device_id cfg)
          then Inl (CudaConfig (''device_id '' @ show_nat (unat (device_id cfg)) @ '' out of range (count='' @ show_nat (nat (sint c)) @ '')''))
          else case drv_new d (unat (device_id cfg)) of
            Inl e \<Rightarrow> Inl (CudaDriver e)
          | Inr _ \<Rightarrow>
              (case drv_name d (unat (device_id cfg)) of
                 Inl e \<Rightarrow> Inl (CudaDriver e)
               | Inr name \<Rightarrow>
                   if expect_name_contains cfg \<noteq> []
                      \<and> \<not> contains (to_ascii_lowercase name) (to_ascii_lowercase (expect_name_contains cfg))
                   then Inl (NameMismatch name (expect_name_contains cfg))
                   else (case drv_load_ptx d of
                           Inl e \<Rightarrow> Inl (CudaDriver e)
                         | Inr _ \<Rightarrow> Inr \<lparr>cg_cfg = cfg, device_bufs = [], lengths = [], last_kernel_ns = None, device_name = name\<rparr>)))"

definition CudaGpu_from_yaml ::
    "cuda_driver \<Rightarrow> (string \<Rightarrow> string + CudaBackendConfig) \<Rightarrow> string \<Rightarrow> CudaGpuError + CudaGpu" where
  "CudaGpu_from_yaml d yaml_parse yaml =
     (case CudaBackendConfig_from_yaml_str yaml_parse yaml of
        Inl (CudaParse e) \<Rightarrow> Inl (CudaConfig (''parse error: '' @ e))
      | Inr cfg \<Rightarrow> CudaGpu_new d cfg)"

definition info_line :: "CudaGpu \<Rightarrow> string" where
  "info_line g =
     (let i = show_nat (unat (device_id (cg_cfg g)))
      in ''CUDA device '' @ i @ '' '' @ [CHR 0x27] @ device_name g @ [CHR 0x27] @ '' (ordinal '' @ i @ '')'')"

fun probe_loop :: "cuda_driver \<Rightarrow> usize list \<Rightarrow> CudaGpuError + string list" where
  "probe_loop d [] = Inr []"
| "probe_loop d (i # is) =
     (case drv_new d i of
        Inl e \<Rightarrow> Inl (CudaDriver e)
      | Inr _ \<Rightarrow>
          (case drv_name d i of
             Inl e \<Rightarrow> Inl (CudaDriver e)
           | Inr name \<Rightarrow>
               (case probe_loop d is of
                  Inl e \<Rightarrow> Inl e
                | Inr out \<Rightarrow> Inr ((''['' @ show_nat i @ ''] '' @ name) # out))))"

definition probe_devices :: "cuda_driver \<Rightarrow> CudaGpuError + string list" where
  "probe_devices d =
     (case drv_count d of
        Inl e \<Rightarrow> Inl (CudaDriver e)
      | Inr n \<Rightarrow> if n = 0 then Inl NoDevice else probe_loop d [0..<nat (sint n)])"

subsection \<open>The back end trait\<close>

definition div_ceil :: "nat \<Rightarrow> nat \<Rightarrow> nat" where
  "div_ceil a b = (if a mod b = 0 then a div b else a div b + 1)"

definition cuda_allocate_buffer :: "cuda_driver \<Rightarrow> CudaGpu \<Rightarrow> usize \<Rightarrow> (GpuError, u64, CudaGpu) outcome" where
  "cuda_allocate_buffer d g sz =
     (let n = max (div_ceil sz 4) 1 in
      case drv_alloc d g n of
        Inl e \<Rightarrow> (Inl (GpuConfigError (''cuda alloc: '' @ e)), g)
      | Inr _ \<Rightarrow>
          (Inr (word_of_nat (length (device_bufs g))),
           g\<lparr>lengths := lengths g @ [n], device_bufs := device_bufs g @ [replicate n 0]\<rparr>))"

text \<open>The words a launch of \<open>blocks\<close> blocks of \<open>threads\<close> threads with bound \<open>n\<close> leaves behind.\<close>

definition phy_scale :: "(u32 \<Rightarrow> u32) \<Rightarrow> nat \<Rightarrow> nat \<Rightarrow> int \<Rightarrow> u32 list \<Rightarrow> u32 list" where
  "phy_scale f blocks threads n ws =
     map (\<lambda>i. if i < blocks * threads \<and> int i < n then f (ws ! i) else ws ! i) [0..<length ws]"

definition cuda_launch_kernel :: "cuda_driver \<Rightarrow> CudaGpu \<Rightarrow> u64 \<Rightarrow> (GpuError, unit, CudaGpu) outcome" where
  "cuda_launch_kernel d g buffer =
     (let i = unat buffer in
      if \<not> i < length (lengths g) then (Inl (GpuNotFound buffer), g)
      else
        let n = lengths g ! i in
        if n = 0 then (Inr (), g)
        else if \<not> drv_get_func d then (Inl (GpuConfigError ''phy_scale kernel missing''), g)
        else
          let threads = unat (max (threads_per_block (cg_cfg g)) 1);
              blocks = div_ceil (unat (word_of_nat n :: u32)) threads
          in (case drv_launch d g of
                Inl e \<Rightarrow> (Inl (GpuConfigError (''cuda launch: '' @ e)), g)
              | Inr _ \<Rightarrow>
                  let g = g\<lparr>device_bufs := (device_bufs g)[i :=
                        phy_scale (drv_word d (cb_scale (cg_cfg g))) blocks threads (sint (word_of_nat n :: 32 word)) (device_bufs g ! i)]\<rparr>
                  in (case drv_sync d g of
                        Inl e \<Rightarrow> (Inl (GpuConfigError (''cuda sync: '' @ e)), g)
                      | Inr _ \<Rightarrow> (Inr (), g\<lparr>last_kernel_ns := Some (drv_elapsed d g)\<rparr>))))"

definition cuda_sync :: "cuda_driver \<Rightarrow> CudaGpu \<Rightarrow> GpuError + unit" where
  "cuda_sync d g = map_err (\<lambda>e. GpuConfigError (''cuda sync: '' @ e)) (drv_sync d g)"

subsection \<open>Processing a payload\<close>

fun words_of :: "u8 list \<Rightarrow> u32 list" where
  "words_of (a # b # c # e # bs) = u32_from_le_bytes [a, b, c, e] # words_of bs"
| "words_of _ = []"

definition process_bytes :: "cuda_driver \<Rightarrow> CudaGpu \<Rightarrow> u8 list \<Rightarrow> (CudaGpuError, u8 list, CudaGpu) outcome" where
  "process_bytes d g data =
     (let words = words_of data in
      case cuda_allocate_buffer d g (length words * 4) of
        (Inl e, g) \<Rightarrow> (Inl (CudaConfig (show_GpuError e)), g)
      | (Inr i, g) \<Rightarrow>
          if length words \<noteq> length (device_bufs g ! unat i) then (Inl CudaPanic, g)
          else case drv_htod d g of
            Inl e \<Rightarrow> (Inl (CudaDriver e), g)
          | Inr _ \<Rightarrow>
              let g = g\<lparr>device_bufs := (device_bufs g)[unat i := words]\<rparr> in
              (case cuda_launch_kernel d g i of
                 (Inl e, g) \<Rightarrow> (Inl (CudaConfig (show_GpuError e)), g)
               | (Inr _, g) \<Rightarrow>
                   (case cuda_sync d g of
                      Inl e \<Rightarrow> (Inl (CudaConfig (show_GpuError e)), g)
                    | Inr _ \<Rightarrow>
                        (case drv_dtoh d g of
                           Inl e \<Rightarrow> (Inl (CudaDriver e), g)
                         | Inr _ \<Rightarrow>
                             let out = concat (map u32_to_le_bytes (device_bufs g ! unat i)) in
                             (Inr (if length data mod 4 \<noteq> 0 then out @ drop (length data - length data mod 4) data else out), g)))))"

text \<open>\<^verbatim>\<open>gpu.last_kernel_ns.unwrap_or(0)\<close>, as the callers read the time of the kernel.\<close>

definition kernel_ns_of :: "CudaGpu \<Rightarrow> u64" where
  "kernel_ns_of g = (case last_kernel_ns g of None \<Rightarrow> 0 | Some n \<Rightarrow> n)"

section \<open>The kernel and a payload\<close>

lemma div_ceil_covers:
  assumes "0 < b"
  shows "a \<le> div_ceil a b * b"
proof -
  have "a \<le> b * (a div b) + b" using mult_div_mod_eq [of b a] mod_less_divisor [OF assms, of a] by linarith
  then show ?thesis by (auto simp: div_ceil_def algebra_simps)
qed

lemma phy_scale_all: "length ws \<le> blocks * threads \<Longrightarrow> int (length ws) \<le> n \<Longrightarrow> phy_scale f blocks threads n ws = map f ws"
  by (rule nth_equalityI) (auto simp: phy_scale_def)

lemma length_words_of: "length (words_of bs) = length bs div 4"
  by (induction bs rule: words_of.induct) auto

definition cuda_inv :: "CudaGpu \<Rightarrow> bool" where
  "cuda_inv g \<longleftrightarrow> lengths g = map length (device_bufs g) \<and> length (device_bufs g) < 2 ^ 64"

lemma CudaGpu_new_fresh:
  assumes "CudaGpu_new d cfg = Inr g"
  shows "cuda_inv g" "device_bufs g = []" "lengths g = []"
  using assms by (auto simp: CudaGpu_new_def cuda_inv_def split: sum.splits if_splits)

lemma CudaGpu_from_yaml_fresh: "CudaGpu_from_yaml d yaml_parse y = Inr g \<Longrightarrow> device_bufs g = [] \<and> lengths g = []"
  by (auto simp: CudaGpu_from_yaml_def dest: CudaGpu_new_fresh split: sum.splits CudaConfigError.splits)

text \<open>A driver that reports no error.\<close>

definition driver_ok :: "cuda_driver \<Rightarrow> bool" where
  "driver_ok d \<longleftrightarrow> drv_get_func d \<and> (\<forall>g n. drv_alloc d g n = Inr ()) \<and> (\<forall>g. drv_htod d g = Inr ()) \<and> (\<forall>g. drv_launch d g = Inr ())
     \<and> (\<forall>g. drv_sync d g = Inr ()) \<and> (\<forall>g. drv_dtoh d g = Inr ())"

lemma allocate_words:
  assumes "driver_ok d" "cuda_inv g"
  shows "cuda_allocate_buffer d g (n * 4) = (Inr (word_of_nat (length (device_bufs g))),
      g\<lparr>lengths := lengths g @ [max n 1], device_bufs := device_bufs g @ [replicate (max n 1) 0]\<rparr>)"
    "unat (word_of_nat (length (device_bufs g)) :: u64) = length (device_bufs g)"
  using assms by (simp_all add: cuda_allocate_buffer_def driver_ok_def div_ceil_def cuda_inv_def unat_of_nat Let_def)

lemma launch_last:
  assumes "driver_ok d" "cuda_inv g" "ws \<noteq> []" "length ws < 2 ^ 31"
  shows "\<exists>ns. cuda_launch_kernel d (g\<lparr>lengths := lengths g @ [length ws], device_bufs := device_bufs g @ [ws]\<rparr>) (word_of_nat (length (device_bufs g)))
    = (Inr (), g\<lparr>lengths := lengths g @ [length ws], device_bufs := device_bufs g @ [map (drv_word d (cb_scale (cg_cfg g))) ws],
        last_kernel_ns := Some ns\<rparr>)"
proof -
  let ?n = "length ws" and ?t = "unat (max (threads_per_block (cg_cfg g)) 1)"
  have "1 \<le> max (threads_per_block (cg_cfg g)) 1" by simp
  then have t: "0 < ?t" by (simp add: word_le_nat_alt)
  have n: "unat (word_of_nat ?n :: u32) = ?n" "sint (word_of_nat ?n :: u32) = int ?n"
    using assms(4) by (simp_all add: unat_of_nat signed_of_nat signed_take_bit_int_eq_self)
  have "phy_scale f (div_ceil ?n ?t) ?t (int ?n) ws = map f ws" for f
    using div_ceil_covers [OF t, of ?n] by (intro phy_scale_all) simp_all
  moreover have "unat (word_of_nat (length (device_bufs g)) :: u64) = length (device_bufs g)"
      "length (lengths g) = length (device_bufs g)"
    using assms(2) by (simp_all add: cuda_inv_def unat_of_nat)
  ultimately show ?thesis using assms(1,3) n
    by (auto simp: cuda_launch_kernel_def driver_ok_def Let_def nth_append list_update_append)
qed

text \<open>A call of \<^verbatim>\<open>process_bytes\<close> that meets no error of the driver, and the device memory it leaves.\<close>

lemma process_bytes_eq:
  assumes "driver_ok d" "cuda_inv g" "4 \<le> length data" "length data < 2 ^ 33"
  shows "\<exists>ns. process_bytes d g data =
      (Inr (concat (map (\<lambda>w. u32_to_le_bytes (drv_word d (cb_scale (cg_cfg g)) w)) (words_of data)) @ drop (length data - length data mod 4) data),
       g\<lparr>lengths := lengths g @ [length (words_of data)],
         device_bufs := device_bufs g @ [map (drv_word d (cb_scale (cg_cfg g))) (words_of data)], last_kernel_ns := Some ns\<rparr>)"
proof -
  let ?ws = "words_of data" and ?k = "length (device_bufs g)"
  have ws: "?ws \<noteq> []" "length ?ws < 2 ^ 31" "max (length ?ws) 1 = length ?ws"
    using assms(3,4) by (auto simp: length_words_of max_def simp flip: length_greater_0_conv)
  note alloc = allocate_words(1) [OF assms(1,2), of "length ?ws", unfolded ws(3)] allocate_words(2) [OF assms(1,2)]
  obtain ns where launch: "cuda_launch_kernel d (g\<lparr>lengths := lengths g @ [length ?ws], device_bufs := device_bufs g @ [?ws]\<rparr>) (word_of_nat ?k)
      = (Inr (), g\<lparr>lengths := lengths g @ [length ?ws], device_bufs := device_bufs g @ [map (drv_word d (cb_scale (cg_cfg g))) ?ws],
          last_kernel_ns := Some ns\<rparr>)"
    using launch_last [OF assms(1,2) ws(1,2)] by blast
  show ?thesis
    using assms(1) alloc(2)
    by (intro exI [of _ ns]) (simp add: process_bytes_def alloc(1) launch cuda_sync_def driver_ok_def comp_def Let_def)
qed

lemma process_bytes_length:
  "length (concat (map (\<lambda>w. u32_to_le_bytes (f w)) (words_of data)) @ drop (length data - length data mod 4) data) = length data"
proof -
  have "length (concat (map (\<lambda>w. u32_to_le_bytes (f w)) xs)) = 4 * length xs" for xs by (induction xs) simp_all
  then show ?thesis by (simp add: length_words_of)
qed

text \<open>
  C33: a payload on the GPU.  With a driver that reports no error, a payload of at least one word and less than 2 to the 33 bytes comes back
  with the same length: every word is the one the kernel computes from the word at its place, whatever the
  number of threads per block, and the bytes after the last word are unchanged.  Each call takes a new
  device buffer and none is given back.
\<close>

theorem process_bytes_scales:
  assumes "driver_ok d" "cuda_inv g" "4 \<le> length data" "length data < 2 ^ 33"
  shows "(case process_bytes d g data of
      (r, g') \<Rightarrow>
        r = Inr (concat (map (\<lambda>w. u32_to_le_bytes (drv_word d (cb_scale (cg_cfg g)) w)) (words_of data))
                 @ drop (length data - length data mod 4) data)
        \<and> map_sum id length r = Inr (length data)
        \<and> length (device_bufs g') = length (device_bufs g) + 1 \<and> last_kernel_ns g' \<noteq> None)"
proof -
  obtain ns where "process_bytes d g data =
      (Inr (concat (map (\<lambda>w. u32_to_le_bytes (drv_word d (cb_scale (cg_cfg g)) w)) (words_of data)) @ drop (length data - length data mod 4) data),
       g\<lparr>lengths := lengths g @ [length (words_of data)],
         device_bufs := device_bufs g @ [map (drv_word d (cb_scale (cg_cfg g))) (words_of data)], last_kernel_ns := Some ns\<rparr>)"
    using process_bytes_eq [OF assms] by blast
  then show ?thesis using process_bytes_length by simp
qed

definition sample_driver :: cuda_driver where
  "sample_driver = \<lparr>drv_count = Inr 1, drv_new = (\<lambda>_. Inr ()), drv_name = (\<lambda>_. Inr ''RTX 4050''), drv_load_ptx = Inr (), drv_get_func = True,
     drv_alloc = (\<lambda>_ _. Inr ()), drv_htod = (\<lambda>_. Inr ()), drv_launch = (\<lambda>_. Inr ()), drv_sync = (\<lambda>_. Inr ()), drv_dtoh = (\<lambda>_. Inr ()),
     drv_elapsed = (\<lambda>_. 900), drv_word = (\<lambda>_ w. w + 1)\<rparr>"

definition sample_gpu :: CudaGpu where
  "sample_gpu = \<lparr>cg_cfg = default_rtx4050, device_bufs = [], lengths = [], last_kernel_ns = None, device_name = ''RTX 4050''\<rparr>"

theorem process_bytes_scales_witness:
  "(case process_bytes sample_driver sample_gpu [1, 0, 0, 0, 9] of
      (r, g') \<Rightarrow>
        r = Inr (concat (map (\<lambda>w. u32_to_le_bytes (drv_word sample_driver (cb_scale (cg_cfg sample_gpu)) w)) (words_of [1, 0, 0, 0, 9]))
                 @ drop (length [1, 0, 0, 0, 9 :: u8] - length [1, 0, 0, 0, 9 :: u8] mod 4) [1, 0, 0, 0, 9])
        \<and> map_sum id length r = Inr (length [1, 0, 0, 0, 9 :: u8])
        \<and> length (device_bufs g') = length (device_bufs sample_gpu) + 1 \<and> last_kernel_ns g' \<noteq> None)"
  by (rule process_bytes_scales) (simp_all add: driver_ok_def sample_driver_def cuda_inv_def sample_gpu_def)

text \<open>
  A stream of payloads of one size never stops, whatever the number of buffers: even when the buffer numbers
  wrap, the buffer that is reused has the size that is needed.
\<close>

definition uniform_gpu :: "nat \<Rightarrow> CudaGpu \<Rightarrow> bool" where
  "uniform_gpu n g \<longleftrightarrow> lengths g = map length (device_bufs g) \<and> list_all (\<lambda>b. length b = n) (device_bufs g)"

lemma uniform_gpu_nth: "uniform_gpu n g \<Longrightarrow> i < length (device_bufs g) \<Longrightarrow> length (device_bufs g ! i) = n \<and> lengths g ! i = n"
  by (simp add: uniform_gpu_def list_all_length)

lemma uniform_gpu_update:
  "uniform_gpu n g \<Longrightarrow> length b = n \<Longrightarrow> uniform_gpu n (g\<lparr>device_bufs := (device_bufs g)[i := b]\<rparr>)"
  by (cases "i < length (device_bufs g)") (auto simp: uniform_gpu_def list_all_length nth_list_update list_eq_iff_nth_eq)

lemma launch_uniform:
  assumes "driver_ok d" "uniform_gpu n g" "unat i < length (device_bufs g)" "0 < n" "n < 2 ^ 31"
  shows "\<exists>g'. cuda_launch_kernel d g i = (Inr (), g') \<and> uniform_gpu n g' \<and> length (device_bufs g') = length (device_bufs g)"
proof -
  have "length (lengths g) = length (device_bufs g)" using assms(2) by (simp add: uniform_gpu_def)
  moreover have "length (phy_scale f b t k ws) = length ws" for f b t k ws by (simp add: phy_scale_def)
  ultimately show ?thesis
    using assms(1,3,4) uniform_gpu_nth [OF assms(2,3)] uniform_gpu_update [OF assms(2), of _ "unat i"]
    by (simp add: cuda_launch_kernel_def driver_ok_def Let_def) (simp add: uniform_gpu_def)
qed

lemma process_bytes_uniform:
  assumes "driver_ok d" "uniform_gpu n g" "length (words_of data) = n" "0 < n" "n < 2 ^ 31"
  shows "\<exists>out g'. process_bytes d g data = (Inr out, g') \<and> uniform_gpu n g'"
proof -
  let ?i = "word_of_nat (length (device_bufs g)) :: u64" and ?g = "g\<lparr>lengths := lengths g @ [n], device_bufs := device_bufs g @ [replicate n 0]\<rparr>"
  have "unat ?i \<le> length (device_bufs g)" by (simp add: unat_of_nat)
  then have i: "unat ?i < length (device_bufs ?g)" by simp
  have alloc: "cuda_allocate_buffer d g (n * 4) = (Inr ?i, ?g)"
    using assms(1,4) by (simp add: cuda_allocate_buffer_def driver_ok_def div_ceil_def Let_def max_def)
  have g: "uniform_gpu n ?g" using assms(2) by (simp add: uniform_gpu_def)
  let ?g1 = "?g\<lparr>device_bufs := (device_bufs ?g)[unat ?i := words_of data]\<rparr>"
  have "uniform_gpu n ?g1" using uniform_gpu_update [OF g assms(3)] .
  then obtain g2 where "cuda_launch_kernel d ?g1 ?i = (Inr (), g2)" "uniform_gpu n g2"
    using launch_uniform [OF assms(1), of n ?g1 ?i] i assms(4,5) by auto
  then show ?thesis
    using assms(1,3) alloc uniform_gpu_nth [OF g i]
    by (auto simp: process_bytes_def cuda_sync_def driver_ok_def Let_def)
qed

text \<open>A payload shorter than one word is not returned: the buffer of one word does not match it.\<close>

lemma process_bytes_short:
  assumes "driver_ok d" "cuda_inv g" "length data < 4"
  shows "fst (process_bytes d g data) = Inl CudaPanic"
  using allocate_words(1) [OF assms(1,2), of 0] allocate_words(2) [OF assms(1,2)] assms(3) length_words_of [of data] by (simp add: process_bytes_def)

text \<open>A device number with the highest bit set passes the range check.\<close>

lemma device_id_wraps:
  assumes "drv_count d = Inr c" "0 < sint c" "sint (device_id cfg) < 0"
  shows "CudaGpu_new d cfg \<noteq> Inl (CudaConfig msg)"
  using assms by (auto simp: CudaGpu_new_def split: sum.split)

end
