(* ===== verification/Pipeline.thy ===== *)
theory Pipeline
  imports Transport Ethernet Fault_Injection Cx5 Fpga Gpu_Ring Ops Cuda
begin

text \<open>
  The end-to-end bench of \<^verbatim>\<open>benchmark/src/pipeline.rs\<close>: FPGA emulators, fault injector, Ethernet
  delay, transport, NIC and GPU ring, with the metrics, events, traces and recovery actions they
  cause.  The model starts from the parsed configurations, in both builds: \<open>pc_cuda_feature\<close> is the feature
  \<^verbatim>\<open>cuda\<close>, and \<open>pc_gpu\<close> the device that was opened for a profile that asks for it, with its driver.  A
  runtime error carries the error of the component that failed instead of its printed form.
\<close>

section \<open>Definitions\<close>

record BenchProfile =
  bp_version :: string
  bp_id :: string
  symbol_count :: u64
  bp_streams :: u32
  latency_budget_ns :: u64
  include_ethernet_delay :: bool
  include_nic_dma :: bool
  include_gpu_kernel :: bool
  gpu_backend :: string
  bp_report_path :: string
  bp_events_path :: string
  bp_observability_config :: string
  bp_radio_timing_config :: string
  bp_transport_deadline_config :: string
  bp_ethernet_config :: string
  bp_nic_config :: string
  bp_gpu_ring_config :: string
  bp_fault_config :: string
  bp_gpu_cuda_config :: "string option"

text \<open>The document: the GPU back end and two paths have defaults.\<close>

record BenchProfileDoc =
  bd_version :: string
  bd_id :: string
  bd_symbol_count :: u64
  bd_streams :: u32
  bd_latency_budget_ns :: u64
  bd_include_ethernet_delay :: bool
  bd_include_nic_dma :: bool
  bd_include_gpu_kernel :: bool
  bd_gpu_backend :: "string option"
  bd_report_path :: string
  bd_events_path :: "string option"
  bd_observability_config :: "string option"
  bd_radio_timing_config :: string
  bd_transport_deadline_config :: string
  bd_ethernet_config :: string
  bd_nic_config :: string
  bd_gpu_ring_config :: string
  bd_fault_config :: string
  bd_gpu_cuda_config :: "string option"

definition default_gpu_backend :: string where "default_gpu_backend = ''simulation''"

definition bench_default_events_path :: string where "bench_default_events_path = ''data/reports/bench_events.jsonl''"

definition default_ops_config :: string where "default_ops_config = ''configs/ops/observability.yaml''"

definition BenchProfile_of :: "BenchProfileDoc \<Rightarrow> BenchProfile" where
  "BenchProfile_of d =
     \<lparr>bp_version = bd_version d, bp_id = bd_id d, symbol_count = bd_symbol_count d, bp_streams = bd_streams d,
      latency_budget_ns = bd_latency_budget_ns d, include_ethernet_delay = bd_include_ethernet_delay d,
      include_nic_dma = bd_include_nic_dma d, include_gpu_kernel = bd_include_gpu_kernel d,
      gpu_backend = or_default (bd_gpu_backend d) default_gpu_backend, bp_report_path = bd_report_path d,
      bp_events_path = or_default (bd_events_path d) bench_default_events_path,
      bp_observability_config = or_default (bd_observability_config d) default_ops_config,
      bp_radio_timing_config = bd_radio_timing_config d, bp_transport_deadline_config = bd_transport_deadline_config d,
      bp_ethernet_config = bd_ethernet_config d, bp_nic_config = bd_nic_config d, bp_gpu_ring_config = bd_gpu_ring_config d,
      bp_fault_config = bd_fault_config d, bp_gpu_cuda_config = bd_gpu_cuda_config d\<rparr>"

datatype PipelineBenchError =
    PipelineConfigError string
  | PipelineIoError string
  | RuntimeTransport TransportError
  | RuntimeNic Cx5Error
  | RuntimeGpu GpuError
  | RuntimeCuda CudaGpuError

record PipeConfig =
  pc_profile :: BenchProfile
  pc_timing :: RadioTimingConfig
  pc_eth :: EthernetModelConfig
  pc_deadline :: TransportDeadlineConfig
  pc_nic :: NicDmaConfig
  pc_ring :: GpuRingConfig
  pc_fault :: FaultInjectionConfig
  pc_trace_enabled :: bool
  pc_trace_capacity :: usize
  pc_trace_path :: string
  pc_recovery :: "RecoveryPolicy option"
  pc_cuda_feature :: bool
  pc_gpu :: "(cuda_driver \<times> CudaGpu) option"

record Pipe =
  pi_now_ns :: u64
  pi_metrics :: MetricsEngine
  pi_events :: EventLogger
  pi_transport :: SimTransportEngine
  pi_nic :: Cx5Nic
  pi_ring :: GpuRingBuffer
  pi_cuda :: "(cuda_driver \<times> CudaGpu) option"
  pi_tracer :: TraceEngine
  pi_recovery :: "RecoveryExecutor option"
  pi_latencies :: "u64 list"
  pi_bytes :: u64
  pi_packets :: u64
  pi_symbol_miss :: u64
  pi_ring_peak :: u64

abbreviation emit_now :: "(nat \<Rightarrow> u64) \<Rightarrow> Pipe \<Rightarrow> string \<Rightarrow> (LogEvent \<Rightarrow> LogEvent) \<Rightarrow> Pipe" where
  "emit_now clock s name f \<equiv>
     s\<lparr>pi_events := emit (pi_events s) (f (LogEvent_now (clock (length (ev_log (pi_events s)))) name))\<rparr>"

abbreviation on_metrics :: "(MetricsEngine \<Rightarrow> MetricsEngine) \<Rightarrow> Pipe \<Rightarrow> Pipe" where
  "on_metrics f s \<equiv> s\<lparr>pi_metrics := f (pi_metrics s)\<rparr>"

abbreviation stamp_now :: "u64 \<Rightarrow> TraceStage \<Rightarrow> Pipe \<Rightarrow> Pipe" where
  "stamp_now tid stage s \<equiv> s\<lparr>pi_tracer := stamp (pi_tracer s) tid stage (pi_now_ns s)\<rparr>"

text \<open>\<^verbatim>\<open>if let Some(ex) = recovery.as_mut() { let _ = ex.apply(class, Some(events)); }\<close>\<close>

definition apply_recovery :: "(nat \<Rightarrow> u64) \<Rightarrow> string \<Rightarrow> Pipe \<Rightarrow> Pipe" where
  "apply_recovery clock fault_class s =
     (case pi_recovery s of
        None \<Rightarrow> s
      | Some x \<Rightarrow>
          (case recovery_apply clock x fault_class (Some (pi_events s)) of
             (_, x', ev) \<Rightarrow> s\<lparr>pi_recovery := Some x', pi_events := the ev\<rparr>))"

definition wire_ns :: "PipeConfig \<Rightarrow> Packet \<Rightarrow> u64" where
  "wire_ns c packet =
     (if include_ethernet_delay (pc_profile c)
      then sat_add (serialize_delay_ns (pc_eth c) (length (payload packet))) (wire_delay_ns (pc_eth c))
      else 0)"

text \<open>
  The transport part of \<^verbatim>\<open>process_one\<close>.  The boolean says whether the packet goes on to the NIC;
  a late packet ends here.
\<close>

definition transport_stage :: "(nat \<Rightarrow> u64) \<Rightarrow> Packet \<Rightarrow> Pipe \<Rightarrow> (PipelineBenchError, bool, Pipe) outcome" where
  "transport_stage clock packet s =
     (case ingest (pi_transport s) packet of
        (Inr _, t) \<Rightarrow> (Inr True, s\<lparr>pi_transport := t\<rparr>)
      | (Inl (SequenceGap expected got), t) \<Rightarrow>
          let s = apply_recovery clock ''sequence_gap'' (s\<lparr>pi_transport := t\<rparr>);
              s = s\<lparr>pi_transport := recover_sequence (pi_transport s) (stream_id packet) got\<rparr>;
              s = on_metrics record_sequence_gap s;
              s = emit_now clock s SEQUENCE_GAP
                    (\<lambda>e. with_sequence (with_stream (with_component e ''transport'') (sid (stream_id packet))) got)
          in (case ingest (pi_transport s) packet of
                (Inr _, t) \<Rightarrow> (Inr True, s\<lparr>pi_transport := t\<rparr>)
              | (Inl e, t) \<Rightarrow> (Inl (RuntimeTransport e), s\<lparr>pi_transport := t\<rparr>))
      | (Inl (LatePacket l m), t) \<Rightarrow>
          let s = apply_recovery clock ''late_packet'' (s\<lparr>pi_transport := t\<rparr>);
              s = on_metrics (record_late_packet \<circ> record_deadline_miss) s;
              s = emit_now clock s LATE_PACKET
                    (\<lambda>e. with_sequence (with_stream (with_component e ''transport'') (sid (stream_id packet)))
                           (seqno (sequence packet)))
          in (Inr False, s)
      | (Inl e, t) \<Rightarrow> (Inl (RuntimeTransport e), s\<lparr>pi_transport := t\<rparr>))"

definition nic_stage :: "PipeConfig \<Rightarrow> Packet \<Rightarrow> Pipe \<Rightarrow> (PipelineBenchError, unit, Pipe) outcome" where
  "nic_stage c pkt s =
     (let s = s\<lparr>pi_nic := advance_time (pi_nic s) (pi_now_ns s)\<rparr> in
      if include_nic_dma (pc_profile c)
      then (case submit_rx (pi_nic s) pkt of
              (Inl e, n) \<Rightarrow> (Inl (RuntimeNic e), s\<lparr>pi_nic := n\<rparr>)
            | (Inr _, n) \<Rightarrow>
                let s = s\<lparr>pi_nic := n, pi_now_ns := sat_add (pi_now_ns s) (dma_latency_ns (nic_cfg n))\<rparr>
                in (Inr (), s\<lparr>pi_nic := advance_time (pi_nic s) (pi_now_ns s)\<rparr>))
      else (case submit_rx_ready_at (pi_nic s) pkt (pi_now_ns s) of
              (Inl e, n) \<Rightarrow> (Inl (RuntimeNic e), s\<lparr>pi_nic := n\<rparr>)
            | (Inr _, n) \<Rightarrow> (Inr (), s\<lparr>pi_nic := n\<rparr>)))"

text \<open>The kernel on the simulated ring, and the choice between it and the device.\<close>

definition ring_stage :: "(nat \<Rightarrow> u64) \<Rightarrow> Packet \<Rightarrow> Pipe \<Rightarrow> (PipelineBenchError, u64, Pipe) outcome" where
  "ring_stage clock delivered s =
     (case begin_receive (pi_ring s) (pi_now_ns s) of
        (Inr i, r) \<Rightarrow>
          let peak = max (pi_ring_peak s) (word_of_nat (occupied r));
              s = on_metrics (\<lambda>m. set_ring_occupancy m peak) (s\<lparr>pi_ring := r, pi_ring_peak := peak\<rparr>)
          in (case complete_receive (pi_ring s) i (payload delivered) of
                (Inl e, r) \<Rightarrow> (Inl (RuntimeGpu e), s\<lparr>pi_ring := r\<rparr>)
              | (Inr _, r) \<Rightarrow>
                  (case begin_process r (pi_now_ns s) of
                     (Inl e, r) \<Rightarrow> (Inl (RuntimeGpu e), s\<lparr>pi_ring := r\<rparr>)
                   | (Inr (i, done_at), r) \<Rightarrow>
                       (case complete_process r i done_at of
                          (Inl e, r) \<Rightarrow> (Inl (RuntimeGpu e), s\<lparr>pi_ring := r\<rparr>)
                        | (Inr latency, r) \<Rightarrow>
                            (case release r i of
                               (Inl e, r) \<Rightarrow> (Inl (RuntimeGpu e), s\<lparr>pi_ring := r\<rparr>)
                             | (Inr _, r) \<Rightarrow>
                                 (Inr latency, on_metrics (\<lambda>m. record_kernel_ns m latency) (s\<lparr>pi_ring := r\<rparr>))))))
      | (Inl RingFull, r) \<Rightarrow>
          (Inr 0, apply_recovery clock ''buffer_overflow'' (on_metrics record_buffer_full (s\<lparr>pi_ring := r\<rparr>)))
      | (Inl e, r) \<Rightarrow> (Inl (RuntimeGpu e), s\<lparr>pi_ring := r\<rparr>))"

definition gpu_stage ::
    "(nat \<Rightarrow> u64) \<Rightarrow> PipeConfig \<Rightarrow> u64 \<Rightarrow> Packet \<Rightarrow> Pipe \<Rightarrow> (PipelineBenchError, u64, Pipe) outcome" where
  "gpu_stage clock c tid delivered s =
     (if \<not> include_gpu_kernel (pc_profile c) then (Inr 0, s)
      else case pi_cuda s of
        Some (d, gpu) \<Rightarrow>
          let s = stamp_now tid CudaStart s in
          (case process_bytes d gpu (payload delivered) of
             (Inl e, gpu) \<Rightarrow> (Inl (RuntimeCuda e), s\<lparr>pi_cuda := Some (d, gpu)\<rparr>)
           | (Inr _, gpu) \<Rightarrow>
               let ns = kernel_ns_of gpu
               in (Inr ns, on_metrics (\<lambda>m. record_kernel_ns m ns) (s\<lparr>pi_cuda := Some (d, gpu)\<rparr>)))
      | None \<Rightarrow> ring_stage clock delivered s)"

text \<open>
  The body of the loop over the packets the NIC delivers; \<open>stream\<close>, \<open>q\<close> and \<open>tid\<close> are of the packet
  that entered.  First the accounting that follows the kernel, then the whole body.
\<close>

definition latency_us :: "u64 \<Rightarrow> f64" where
  "latency_us e2e = f64_div (f64_of_u64 e2e) (f64_lit 1000)"

definition miss_stage :: "(nat \<Rightarrow> u64) \<Rightarrow> PipeConfig \<Rightarrow> u32 \<Rightarrow> u64 \<Rightarrow> u64 \<Rightarrow> Pipe \<Rightarrow> Pipe" where
  "miss_stage clock c stream q e2e s =
     (if latency_budget_ns (pc_profile c) < e2e
      then let s = on_metrics record_deadline_miss (s\<lparr>pi_symbol_miss := pi_symbol_miss s + 1\<rparr>)
           in emit_now clock s SLOT_MISS
                (\<lambda>e. with_sequence (with_stream (with_component e ''radio'') stream) q)
      else s)"

definition account_stage :: "(nat \<Rightarrow> u64) \<Rightarrow> PipeConfig \<Rightarrow> u32 \<Rightarrow> u64 \<Rightarrow> u64 \<Rightarrow> u64 \<Rightarrow> Pipe \<Rightarrow> Pipe" where
  "account_stage clock c stream q n e2e s =
     (let s = s\<lparr>pi_latencies := pi_latencies s @ [e2e]\<rparr>;
          s = on_metrics (\<lambda>m. record_symbol (record_latency_ns m e2e)) s;
          s = on_metrics (\<lambda>m. set_memory_buffers m (pi_bytes s + n)
                (word_of_nat (length (slots (pi_ring s)) * slot_bytes (pi_ring s)))) s;
          s = emit_now clock s PACKET_RX (\<lambda>e. with_latency_us
                (with_sequence (with_stream (with_component e ''pipeline'') stream) q) (latency_us e2e));
          s = miss_stage clock c stream q e2e s
      in on_metrics record_tx (s\<lparr>pi_bytes := pi_bytes s + n, pi_packets := pi_packets s + 1\<rparr>))"

definition deliver_one ::
    "(nat \<Rightarrow> u64) \<Rightarrow> PipeConfig \<Rightarrow> u32 \<Rightarrow> u64 \<Rightarrow> u64 \<Rightarrow> Packet \<Rightarrow> Pipe \<Rightarrow> (PipelineBenchError, unit, Pipe) outcome" where
  "deliver_one clock c stream q tid delivered s =
     (let n = word_of_nat (length (payload delivered));
          s = on_metrics (\<lambda>m. record_rx_bytes (record_rx m) n) s;
          s = stamp_now tid HostReady s;
          s = stamp_now tid GpuEnqueue s
      in case gpu_stage clock c tid delivered s of
           (Inl e, s) \<Rightarrow> (Inl e, s)
         | (Inr gpu_latency, s) \<Rightarrow>
             let gpu_latency = sat_add gpu_latency (kernel_delay_ns (pc_fault c));
                 s = s\<lparr>pi_now_ns := sat_add (pi_now_ns s) gpu_latency\<rparr>;
                 s = stamp_now tid CudaDone s;
                 e2e = sat_sub (pi_now_ns s) (tstamp (timestamp delivered))
             in (Inr (), account_stage clock c stream q n e2e s))"

fun deliver_all ::
    "(nat \<Rightarrow> u64) \<Rightarrow> PipeConfig \<Rightarrow> u32 \<Rightarrow> u64 \<Rightarrow> u64 \<Rightarrow> Packet list \<Rightarrow> Pipe \<Rightarrow> (PipelineBenchError, unit, Pipe) outcome" where
  "deliver_all clock c stream q tid [] s = (Inr (), s)"
| "deliver_all clock c stream q tid (d # ds) s =
     (case deliver_one clock c stream q tid d s of
        (Inl e, s) \<Rightarrow> (Inl e, s)
      | (Inr _, s) \<Rightarrow> deliver_all clock c stream q tid ds s)"

text \<open>The head of \<^verbatim>\<open>process_one\<close>, the part after the transport, and the whole.\<close>

definition wire_stage :: "PipeConfig \<Rightarrow> Packet \<Rightarrow> Pipe \<Rightarrow> u64 \<times> Pipe" where
  "wire_stage c packet s =
     (let (tid, tr) = trace_start (pi_tracer s) (sid (stream_id packet)) (seqno (sequence packet)) FpgaTx
                        (tstamp (timestamp packet));
          s = s\<lparr>pi_tracer := tr,
                pi_now_ns := sat_add (sat_add (max (pi_now_ns s) (tstamp (timestamp packet))) (wire_ns c packet))
                               (extra_latency_ns (pc_fault c))\<rparr>;
          s = stamp_now tid WireDepart s
      in (tid, s\<lparr>pi_transport := (pi_transport s)\<lparr>now_ns := pi_now_ns s\<rparr>\<rparr>))"

definition host_stage :: "(nat \<Rightarrow> u64) \<Rightarrow> PipeConfig \<Rightarrow> Packet \<Rightarrow> u64 \<Rightarrow> Pipe \<Rightarrow> (PipelineBenchError, unit, Pipe) outcome" where
  "host_stage clock c packet tid s =
     (case receive (pi_transport s) of
        (Inl e, t) \<Rightarrow> (Inl (RuntimeTransport e), s\<lparr>pi_transport := t\<rparr>)
      | (Inr None, t) \<Rightarrow> (Inr (), s\<lparr>pi_transport := t\<rparr>)
      | (Inr (Some pkt), t) \<Rightarrow>
          (case nic_stage c pkt (s\<lparr>pi_transport := t\<rparr>) of
             (Inl e, s) \<Rightarrow> (Inl e, s)
           | (Inr _, s) \<Rightarrow>
               let s = stamp_now tid DmaDone (stamp_now tid Cx5Rx s);
                   (burst, n) = Cx5Nic_rx_burst (pi_nic s) 32
               in deliver_all clock c (sid (stream_id packet)) (seqno (sequence packet)) tid burst (s\<lparr>pi_nic := n\<rparr>)))"

definition process_one :: "(nat \<Rightarrow> u64) \<Rightarrow> PipeConfig \<Rightarrow> Packet \<Rightarrow> Pipe \<Rightarrow> (PipelineBenchError, unit, Pipe) outcome" where
  "process_one clock c packet s =
     (let (tid, s) = wire_stage c packet s in
      case transport_stage clock packet s of
        (Inl e, s) \<Rightarrow> (Inl e, s)
      | (Inr False, s) \<Rightarrow> (Inr (), s)
      | (Inr True, s) \<Rightarrow> host_stage clock c packet tid s)"

fun process_all :: "(nat \<Rightarrow> u64) \<Rightarrow> PipeConfig \<Rightarrow> Packet list \<Rightarrow> Pipe \<Rightarrow> (PipelineBenchError, unit, Pipe) outcome" where
  "process_all clock c [] s = (Inr (), s)"
| "process_all clock c (p # ps) s =
     (case process_one clock c p s of
        (Inl e, s) \<Rightarrow> (Inl e, s)
      | (Inr _, s) \<Rightarrow> process_all clock c ps s)"


subsection \<open>The report\<close>

record LatencyStats =
  min_ns :: u64
  p50_ns :: u64
  p99_ns :: u64
  p999_ns :: u64
  max_ns :: u64

definition LatencyStats_default :: LatencyStats where
  "LatencyStats_default = \<lparr>min_ns = 0, p50_ns = 0, p99_ns = 0, p999_ns = 0, max_ns = 0\<rparr>"

definition pct :: "u64 list \<Rightarrow> f64 \<Rightarrow> u64" where
  "pct sorted_ns p =
     sorted_ns ! min (unat (f_to_u64 (f64_mul p (f64_of_nat (length sorted_ns - 1))))) (length sorted_ns - 1)"

definition from_sorted_ns :: "u64 list \<Rightarrow> LatencyStats" where
  "from_sorted_ns xs =
     (if xs = [] then LatencyStats_default
      else \<lparr>min_ns = xs ! 0, p50_ns = pct xs (f64_lit (50 / 100)), p99_ns = pct xs (f64_lit (99 / 100)),
            p999_ns = pct xs (f64_lit (999 / 1000)), max_ns = last xs\<rparr>)"

record ThroughputStats =
  gbps :: f64
  gbs :: f64
  pps :: f64

definition from_bytes_and_duration :: "u64 \<Rightarrow> f64 \<Rightarrow> u64 \<Rightarrow> ThroughputStats" where
  "from_bytes_and_duration bytes duration_s packets =
     (if f_le duration_s (Fin 0) then \<lparr>gbps = Fin 0, gbs = Fin 0, pps = Fin 0\<rparr>
      else
        let g = f64_div (f64_div (f64_of_u64 bytes) duration_s) (f64_lit 1000000000)
        in \<lparr>gbps = f64_mul g (f64_lit 8), gbs = g, pps = f64_div (f64_of_u64 packets) duration_s\<rparr>)"

record RadioDeadlineStats =
  rds_slot_miss :: u64
  rds_symbol_miss :: u64

record BenchReport =
  br_throughput :: ThroughputStats
  br_latency :: LatencyStats
  br_radio :: RadioDeadlineStats
  br_packets :: u64
  br_bytes :: u64
  br_sequence_gaps :: u64
  br_late_packets :: u64
  sim_duration_ns :: u64
  recovery_actions :: u64
  ring_occupancy_peak :: u64

subsection \<open>The run\<close>

definition stream_numbers :: "PipeConfig \<Rightarrow> u32 list" where
  "stream_numbers c = map word_of_nat [1..<Suc (unat (max (bp_streams (pc_profile c)) 1))]"

fun setup_streams ::
    "PipeConfig \<Rightarrow> u32 list \<Rightarrow> SimTransportEngine \<Rightarrow> (PipelineBenchError, FpgaEmulator list, SimTransportEngine) outcome" where
  "setup_streams c [] t = (Inr [], t)"
| "setup_streams c (s # ss) t =
     (case create_stream t \<lparr>cfg_stream_id = StreamId s, carrier = ucast ((s - 1) mod 4),
             antenna = ucast ((s - 1) div 4), qos = 0, deadline_ns = latency_budget_ns (pc_profile c)\<rparr> of
        (Inl e, t) \<Rightarrow> (Inl (RuntimeTransport e), t)
      | (Inr _, t) \<Rightarrow>
          (case start_stream t (StreamId s) of
             (Inl e, t) \<Rightarrow> (Inl (RuntimeTransport e), t)
           | (Inr _, t) \<Rightarrow>
               (case setup_streams c ss t of
                  (Inl e, t) \<Rightarrow> (Inl e, t)
                | (Inr fs, t) \<Rightarrow> (Inr (FpgaEmulator_new (pc_timing c) (StreamId s) # fs), t))))"

fun symbol_round ::
    "(nat \<Rightarrow> u64) \<Rightarrow> (f32 \<Rightarrow> f32) \<Rightarrow> (f32 \<Rightarrow> f32) \<Rightarrow> PipeConfig \<Rightarrow> FpgaEmulator list \<Rightarrow> FaultInjector \<Rightarrow> Pipe
     \<Rightarrow> (PipelineBenchError, FpgaEmulator list \<times> FaultInjector, Pipe) outcome" where
  "symbol_round clock cos32 sin32 c [] fi s = (Inr ([], fi), s)"
| "symbol_round clock cos32 sin32 c (f # fs) fi s =
     (let (p, f) = emit_symbol cos32 sin32 f; (out, fi) = push fi p in
      case process_all clock c out s of
        (Inl e, s) \<Rightarrow> (Inl e, s)
      | (Inr _, s) \<Rightarrow>
          (case symbol_round clock cos32 sin32 c fs fi s of
             (Inl e, s) \<Rightarrow> (Inl e, s)
           | (Inr (fs, fi), s) \<Rightarrow> (Inr (f # fs, fi), s)))"

fun symbol_rounds ::
    "(nat \<Rightarrow> u64) \<Rightarrow> (f32 \<Rightarrow> f32) \<Rightarrow> (f32 \<Rightarrow> f32) \<Rightarrow> PipeConfig \<Rightarrow> nat \<Rightarrow> FpgaEmulator list \<Rightarrow> FaultInjector \<Rightarrow> Pipe
     \<Rightarrow> (PipelineBenchError, FpgaEmulator list \<times> FaultInjector, Pipe) outcome" where
  "symbol_rounds clock cos32 sin32 c 0 fs fi s = (Inr (fs, fi), s)"
| "symbol_rounds clock cos32 sin32 c (Suc n) fs fi s =
     (case symbol_round clock cos32 sin32 c fs fi s of
        (Inl e, s) \<Rightarrow> (Inl e, s)
      | (Inr (fs, fi), s) \<Rightarrow> symbol_rounds clock cos32 sin32 c n fs fi s)"

text \<open>\<^verbatim>\<open>while let Some(packet) = injector.flush() { process_one(..)?; }\<close>\<close>

function flush_loop ::
    "(nat \<Rightarrow> u64) \<Rightarrow> PipeConfig \<Rightarrow> FaultInjector \<Rightarrow> Pipe \<Rightarrow> (PipelineBenchError, FaultInjector, Pipe) outcome" where
  "flush_loop clock c fi s =
     (case flush fi of
        (None, fi) \<Rightarrow> (Inr fi, s)
      | (Some p, fi) \<Rightarrow>
          (case process_one clock c p s of
             (Inl e, s) \<Rightarrow> (Inl e, s)
           | (Inr _, s) \<Rightarrow> flush_loop clock c fi s))"
  by pat_completeness auto
termination
  by (relation "measure (\<lambda>(_, _, fi, _). if held fi = None then 0 else 1)") (auto simp: flush_def eq_commute [of "Some _"])

declare flush_loop.simps [simp del]

definition initial_pipe :: "PipeConfig \<Rightarrow> SimTransportEngine \<Rightarrow> EventLogger \<Rightarrow> Pipe" where
  "initial_pipe c t events =
     (let ring = GpuRingBuffer_new (pc_ring c) in
      \<lparr>pi_now_ns = 0,
       pi_metrics = set_memory_buffers (set_link_up MetricsEngine_new True (bandwidth_gbps (pc_eth c))) 0
                      (word_of_nat (length (slots ring) * slot_bytes ring)),
       pi_events = events,
       pi_transport = t, pi_nic = Cx5Nic_new (pc_nic c), pi_ring = ring, pi_cuda = pc_gpu c,
       pi_tracer = TraceEngine_from_config (pc_trace_enabled c) (pc_trace_capacity c) (pc_trace_path c),
       pi_recovery = map_option RecoveryExecutor_new (pc_recovery c),
       pi_latencies = [], pi_bytes = 0, pi_packets = 0, pi_symbol_miss = 0, pi_ring_peak = 0\<rparr>)"

definition account_drops :: "(nat \<Rightarrow> u64) \<Rightarrow> FaultInjector \<Rightarrow> Pipe \<Rightarrow> Pipe" where
  "account_drops clock fi s =
     (let s = on_metrics (record_drop ^^ unat (fi_dropped fi)) s in
      if 0 < fi_dropped fi
      then emit_now clock s PACKET_LOSS (\<lambda>e. with_detail (with_component e ''fault_injection'')
             (''dropped='' @ show_nat (unat (fi_dropped fi))))
      else s)"

definition make_report :: "Pipe \<Rightarrow> BenchReport" where
  "make_report s =
     (let latencies = sort (pi_latencies s);
          duration_s = f64_div (f64_of_u64 (pi_now_ns s)) (f64_lit 1000000000)
      in \<lparr>br_throughput = from_bytes_and_duration (pi_bytes s) (f_max duration_s (f64_lit (1 / 1000000000000))) (pi_packets s),
          br_latency = from_sorted_ns latencies,
          br_radio = \<lparr>rds_slot_miss = 0, rds_symbol_miss = pi_symbol_miss s\<rparr>,
          br_packets = pi_packets s, br_bytes = pi_bytes s,
          br_sequence_gaps = sequence_gaps (pi_transport s), br_late_packets = late_packets (pi_transport s),
          sim_duration_ns = pi_now_ns s,
          recovery_actions = (case pi_recovery s of Some r \<Rightarrow> word_of_nat (length (applied r)) | None \<Rightarrow> 0),
          ring_occupancy_peak = pi_ring_peak s\<rparr>)"

text \<open>
  \<open>create_log\<close> is the result of creating the event file.  The export of the traces at the end is left out: the
  source ignores its result.  So is the panic of \<^verbatim>\<open>Vec::with_capacity\<close> for a number of packets whose latencies do not fit
  the address space.
\<close>

definition run ::
    "(nat \<Rightarrow> u64) \<Rightarrow> (f32 \<Rightarrow> f32) \<Rightarrow> (f32 \<Rightarrow> f32) \<Rightarrow> (string \<Rightarrow> string + EventLogger) \<Rightarrow> PipeConfig
     \<Rightarrow> PipelineBenchError + (BenchReport \<times> MetricsEngine)" where
  "run clock cos32 sin32 create_log c =
     (if to_ascii_lowercase (gpu_backend (pc_profile c)) = ''cuda'' \<and> \<not> pc_cuda_feature c
      then Inl (PipelineConfigError ''gpu_backend=cuda requires benchmark/cli `--features cuda`'')
      else case link_up (Sim_new (pc_deadline c)) of
        (Inl e, _) \<Rightarrow> Inl (RuntimeTransport e)
      | (Inr _, t) \<Rightarrow>
          (case setup_streams c (stream_numbers c) t of
             (Inl e, _) \<Rightarrow> Inl e
           | (Inr fpgas, t) \<Rightarrow>
               (case create_log (bp_events_path (pc_profile c)) of
                  Inl e \<Rightarrow> Inl (PipelineIoError e)
                | Inr events \<Rightarrow>
                    (case symbol_rounds clock cos32 sin32 c (unat (symbol_count (pc_profile c))) fpgas
                            (FaultInjector_new (pc_fault c)) (initial_pipe c t events) of
                       (Inl e, _) \<Rightarrow> Inl e
                     | (Inr (_, fi), s) \<Rightarrow>
                         (case flush_loop clock c fi s of
                            (Inl e, _) \<Rightarrow> Inl e
                          | (Inr fi, s) \<Rightarrow>
                              let s = account_drops clock fi s
                              in Inr (make_report s, pi_metrics s))))))"

end
