(* ===== verification/Pipeline_Props.thy ===== *)
theory Pipeline_Props
  imports Pipeline
begin

text \<open>
  Properties of the end-to-end bench: what one packet does to every stage, that no packet is lost
  or counted twice between the FPGA and the report, and that a run over a sound configuration
  always ends with a report, the one that a simple timeline of the packets gives.
\<close>

section \<open>What the bookkeeping leaves alone\<close>

lemma apply_recovery_frame [simp]:
  "pi_now_ns (apply_recovery clock f s) = pi_now_ns s" "pi_metrics (apply_recovery clock f s) = pi_metrics s"
  "pi_transport (apply_recovery clock f s) = pi_transport s" "pi_nic (apply_recovery clock f s) = pi_nic s"
  "pi_ring (apply_recovery clock f s) = pi_ring s" "pi_latencies (apply_recovery clock f s) = pi_latencies s"
  "pi_bytes (apply_recovery clock f s) = pi_bytes s" "pi_packets (apply_recovery clock f s) = pi_packets s"
  "pi_tracer (apply_recovery clock f s) = pi_tracer s"
  "pi_symbol_miss (apply_recovery clock f s) = pi_symbol_miss s" "pi_cuda (apply_recovery clock f s) = pi_cuda s"
  by (simp_all add: apply_recovery_def split: option.split prod.split)

lemma mutate_packet_keeps [simp]:
  "stream_id (mutate_packet cfg p) = stream_id p" "payload (mutate_packet cfg p) = payload p"
  by (simp_all add: mutate_packet_def Let_def)

lemma metrics_drop_count [simp]:
  "drop_count (transport (layered (record_rx m))) = drop_count (transport (layered m))"
  "drop_count (transport (layered (record_tx m))) = drop_count (transport (layered m))"
  "drop_count (transport (layered (record_rx_bytes m b))) = drop_count (transport (layered m))"
  "drop_count (transport (layered (record_sequence_gap m))) = drop_count (transport (layered m))"
  "drop_count (transport (layered (record_late_packet m))) = drop_count (transport (layered m))"
  "drop_count (transport (layered (record_deadline_miss m))) = drop_count (transport (layered m))"
  "drop_count (transport (layered (set_ring_occupancy m b))) = drop_count (transport (layered m))"
  "drop_count (transport (layered (set_memory_buffers m b b'))) = drop_count (transport (layered m))"
  "drop_count (transport (layered (record_buffer_full m))) = drop_count (transport (layered m))"
  "drop_count (transport (layered (record_latency_ns m b))) = drop_count (transport (layered m))"
  "drop_count (transport (layered (record_symbol m))) = drop_count (transport (layered m))"
  "drop_count (transport (layered (record_kernel_ns m b))) = drop_count (transport (layered m))"
  "drop_count (transport (layered (set_link_up m up g))) = drop_count (transport (layered m))"
  by (simp_all add: record_rx_def record_tx_def record_rx_bytes_def record_sequence_gap_def record_late_packet_def
      record_deadline_miss_def set_ring_occupancy_def set_memory_buffers_def record_buffer_full_def
      record_latency_ns_def record_latency_sample_def latency_sample_def record_symbol_def record_kernel_ns_def
      set_link_up_def Let_def)

lemma record_drops: "drop_count (transport (layered ((record_drop ^^ n) m))) = drop_count (transport (layered m)) + of_nat n"
  by (induction n) (simp_all add: record_drop_def)

section \<open>The stages\<close>

text \<open>The GPU stage drives the ring through the same cycle as \<^verbatim>\<open>process_packet\<close>.\<close>

lemma gpu_stage_off: "\<not> include_gpu_kernel (pc_profile c) \<Longrightarrow> gpu_stage clock c tid d s = (Inr 0, s)"
  by (simp add: gpu_stage_def)

lemma begin_receive_full:
  assumes "begin_receive r t = (Inl e, r')"
  shows "e = RingFull \<and> r' = r"
proof (cases "find_state r Free")
  case (Some i)
  then show ?thesis using assms begin_receive_ok [OF Some] by simp
qed (use assms in \<open>simp add: begin_receive_def\<close>)

text \<open>What the GPU stage may not touch.\<close>

definition gpu_frame :: "Pipe \<Rightarrow> Pipe \<Rightarrow> bool" where
  "gpu_frame s s' \<longleftrightarrow>
     pi_now_ns s' = pi_now_ns s \<and> pi_transport s' = pi_transport s \<and> pi_nic s' = pi_nic s
     \<and> pi_latencies s' = pi_latencies s \<and> pi_bytes s' = pi_bytes s \<and> pi_packets s' = pi_packets s
     \<and> pi_symbol_miss s' = pi_symbol_miss s
     \<and> drop_count (transport (layered (pi_metrics s'))) = drop_count (transport (layered (pi_metrics s)))"

lemma ring_stage_full:
  assumes "count_state (pi_ring s) Free = 0"
  shows "\<exists>s'. ring_stage clock d s = (Inr 0, s') \<and> gpu_frame s s' \<and> pi_ring s' = pi_ring s \<and> pi_cuda s' = pi_cuda s"
proof -
  have "begin_receive (pi_ring s) (pi_now_ns s) = (Inl RingFull, pi_ring s)"
    using assms by (simp add: begin_receive_def find_state_None [symmetric])
  then show ?thesis by (simp add: ring_stage_def gpu_frame_def)
qed

lemma ring_stage_process:
  assumes "process_packet (pi_ring s) (payload d) (pi_now_ns s) = (Inr l, r)"
  shows "\<exists>s'. ring_stage clock d s = (Inr l, s') \<and> gpu_frame s s' \<and> pi_ring s' = r \<and> pi_cuda s' = pi_cuda s"
  using assms
  by (auto simp: ring_stage_def gpu_frame_def process_packet_def Let_def split: sum.splits prod.splits)

lemma later_not_full:
  "complete_receive r i data \<noteq> (Inl RingFull, r')" "begin_process r t \<noteq> (Inl RingFull, r')"
  "complete_process r i t \<noteq> (Inl RingFull, r')" "release r i \<noteq> (Inl RingFull, r')"
  by (auto simp: complete_receive_def begin_process_def complete_process_def release_def transition_def Let_def
      split: option.splits)

lemma ring_stage_is_process_packet:
  "(case ring_stage clock d s of (res, s') \<Rightarrow>
     case process_packet (pi_ring s) (payload d) (pi_now_ns s) of (r, ring) \<Rightarrow>
       pi_ring s' = ring \<and> res = (case r of Inr l \<Rightarrow> Inr l | Inl RingFull \<Rightarrow> Inr 0 | Inl e \<Rightarrow> Inl (RuntimeGpu e)))"
proof (cases "begin_receive (pi_ring s) (pi_now_ns s)")
  case (Pair r1 ring1)
  show ?thesis
  proof (cases r1)
    case (Inl e)
    then have "e = RingFull" using begin_receive_full Pair by blast
    then show ?thesis using Inl Pair by (simp add: ring_stage_def process_packet_def Let_def)
  next
    case (Inr i)
    then show ?thesis using Pair
      by (auto simp: ring_stage_def process_packet_def Let_def later_not_full split: sum.splits prod.splits GpuError.splits)
  qed
qed

text \<open>
  C18: the GPU stage does what the components it stands for do.  Without a device the steps of the ring
  that the pipeline takes one by one are those of \<^verbatim>\<open>process_packet\<close>: the ring ends in the same state and the
  latency is the same; only a full ring is no error for the pipeline but counts as no latency.  With a device
  the ring is left alone, and the result is that of \<^verbatim>\<open>process_bytes\<close> with the time of the kernel as latency.
  Without a kernel the stage does nothing.
\<close>

theorem gpu_stage_is_process_packet:
  "(case gpu_stage clock c tid d s of (res, s') \<Rightarrow>
     if \<not> include_gpu_kernel (pc_profile c) then res = Inr 0 \<and> s' = s
     else case pi_cuda s of
       None \<Rightarrow> (case process_packet (pi_ring s) (payload d) (pi_now_ns s) of (r, ring) \<Rightarrow>
             pi_ring s' = ring
             \<and> res = (case r of Inr l \<Rightarrow> Inr l | Inl RingFull \<Rightarrow> Inr 0 | Inl e \<Rightarrow> Inl (RuntimeGpu e)))
     | Some (drv, g) \<Rightarrow> (case process_bytes drv g (payload d) of (r, g') \<Rightarrow>
             pi_ring s' = pi_ring s \<and> pi_cuda s' = Some (drv, g')
             \<and> res = (case r of Inr _ \<Rightarrow> Inr (kernel_ns_of g') | Inl e \<Rightarrow> Inl (RuntimeCuda e))))"
  using ring_stage_is_process_packet [of s d clock]
  by (auto simp: gpu_stage_def Let_def split: option.split prod.split sum.split)

text \<open>A ring with every slot free stays so.\<close>

definition ring_quiet :: "GpuRingConfig \<Rightarrow> GpuRingBuffer \<Rightarrow> bool" where
  "ring_quiet cfg r \<longleftrightarrow>
     length (slots r) = slot_count cfg \<and> slot_bytes r = cfg_slot_bytes cfg
     \<and> ring_kernel_delay_ns r = cfg_kernel_delay_ns cfg \<and> map slot_state (slots r) = replicate (slot_count cfg) Free"

lemma ring_quiet_new: "ring_quiet cfg (GpuRingBuffer_new cfg)"
  by (simp add: ring_quiet_def GpuRingBuffer_new_def RingSlot_empty_def map_replicate_trivial list_eq_iff_nth_eq)

lemma ring_quiet_counts:
  assumes "ring_quiet cfg r"
  shows "count_state r Free = slot_count cfg" "count_state r Ready = 0"
proof -
  have "slot_state s = Free" if "s \<in> set (slots r)" for s
  proof -
    have "slot_state s \<in> set (map slot_state (slots r))" using that by simp
    then show ?thesis using assms unfolding ring_quiet_def by (metis in_set_replicate)
  qed
  then show "count_state r Free = slot_count cfg" "count_state r Ready = 0"
    using assms by (auto simp: count_state_def ring_quiet_def filter_id_conv filter_empty_conv)
qed

text \<open>
  Whether the GPU takes the payloads of the run: no kernel, or, on the ring, no slot at all or large enough
  slots, and on the device, symbols that are not empty.
\<close>

definition gpu_fits :: "PipeConfig \<Rightarrow> nat \<Rightarrow> bool" where
  "gpu_fits c n \<longleftrightarrow>
     \<not> include_gpu_kernel (pc_profile c)
     \<or> (if pc_gpu c = None then slot_count (pc_ring c) = 0 \<or> n \<le> cfg_slot_bytes (pc_ring c)
        else n = 8 * samples_per_symbol (pc_timing c) \<and> 0 < n \<and> n < 2 ^ 33)"

text \<open>The device of a run: there is one if one was opened, and all its buffers are of the size of a symbol.\<close>

definition cuda_ok :: "PipeConfig \<Rightarrow> (cuda_driver \<times> CudaGpu) option \<Rightarrow> bool" where
  "cuda_ok c gpu \<longleftrightarrow>
     (case gpu of
        None \<Rightarrow> pc_gpu c = None
      | Some (d, g) \<Rightarrow> pc_gpu c \<noteq> None \<and> driver_ok d \<and> uniform_gpu (2 * samples_per_symbol (pc_timing c)) g)"

lemma ring_quiet_process:
  assumes "ring_quiet cfg r" "slot_count cfg \<noteq> 0" "length data \<le> cfg_slot_bytes cfg"
  shows "\<exists>r'. process_packet r data now = (Inr (sat_sub (sat_add now (cfg_kernel_delay_ns cfg)) now), r') \<and> ring_quiet cfg r'"
proof -
  obtain i where i: "find_state r Free = Some i"
    using ring_quiet_counts(1) [OF assms(1)] assms(2) find_state_None [of r Free] by auto
  have fit: "length data \<le> slot_bytes r" using assms by (simp add: ring_quiet_def)
  note pp = process_packet_ok [OF i ring_quiet_counts(2) [OF assms(1)] fit, of now]
  have "ring_quiet cfg (snd (process_packet r data now))"
    using assms(1) find_state_SomeD(1,2) [OF i] unfolding pp
    by (auto simp: ring_quiet_def map_update list_update_same_conv)
  then show ?thesis using pp assms(1) by (fastforce simp: ring_quiet_def)
qed

text \<open>
  How long the kernel takes on the simulated ring, and when a packet that reaches the transport at time \<open>a\<close> is
  through if its kernel takes \<open>k\<close>.
\<close>

definition ring_kernel_ns :: "PipeConfig \<Rightarrow> u64" where
  "ring_kernel_ns c =
     (if include_gpu_kernel (pc_profile c) \<and> slot_count (pc_ring c) \<noteq> 0 then cfg_kernel_delay_ns (pc_ring c) else 0)"

definition completed_ns :: "PipeConfig \<Rightarrow> u64 \<Rightarrow> u64 \<Rightarrow> u64" where
  "completed_ns c a k =
     sat_add (sat_add a (if include_nic_dma (pc_profile c) then dma_latency_ns (pc_nic c) else 0))
       (sat_add k (kernel_delay_ns (pc_fault c)))"

text \<open>The time of the kernel is known without a device and is the device's own with one.\<close>

definition kernel_time :: "PipeConfig \<Rightarrow> u64 \<Rightarrow> bool" where
  "kernel_time c k \<longleftrightarrow> pc_gpu c \<noteq> None \<or> k = ring_kernel_ns c"

lemma sat_add_elapsed:
  fixes n :: "'a::len word"
  shows "sat_add n (sat_add (sat_sub (sat_add n k) n) d) = sat_add n (sat_add k d)"
proof -
  have "min (x + min (min (x + y) M - x + z) M) M = min (x + min (y + z) M) M" if "x \<le> M" for x y z M :: nat
    using that by (simp add: min_def)
  moreover have "unat n \<le> 2 ^ LENGTH('a) - 1" using unsigned_less [of n, where 'a = nat] by linarith
  ultimately show ?thesis by (simp add: word_unat_eq_iff unat_sat_add unat_sat_sub)
qed

lemma ring_stage_ok:
  assumes "ring_quiet cfg (pi_ring s)" "slot_count cfg = 0 \<or> length (payload d) \<le> cfg_slot_bytes cfg"
  shows "\<exists>s'. ring_stage clock d s =
      (Inr (if slot_count cfg = 0 then 0 else sat_sub (sat_add (pi_now_ns s) (cfg_kernel_delay_ns cfg)) (pi_now_ns s)), s')
    \<and> gpu_frame s s' \<and> ring_quiet cfg (pi_ring s') \<and> pi_cuda s' = pi_cuda s"
proof (cases "slot_count cfg = 0")
  case True
  then have "count_state (pi_ring s) Free = 0" using ring_quiet_counts(1) [OF assms(1)] by simp
  then show ?thesis using ring_stage_full [of s clock d] assms(1) True by auto
next
  case False
  then have fit: "length (payload d) \<le> cfg_slot_bytes cfg" using assms(2) by simp
  show ?thesis using ring_quiet_process [OF assms(1) False fit, of "pi_now_ns s"] ring_stage_process [of s d _ _ clock] False
    by fastforce
qed

lemma device_stage_ok:
  assumes "pi_cuda s = Some (drv, g)" "cuda_ok c (pi_cuda s)" "include_gpu_kernel (pc_profile c)" "gpu_fits c (length (payload d))"
  shows "\<exists>l s'. gpu_stage clock c tid d s = (Inr l, s') \<and> gpu_frame s s' \<and> pi_ring s' = pi_ring s \<and> cuda_ok c (pi_cuda s')"
proof -
  let ?n = "2 * samples_per_symbol (pc_timing c)"
  have "length (words_of (payload d)) = ?n" "0 < ?n" "?n < 2 ^ 31" "driver_ok drv" "uniform_gpu ?n g" "pc_gpu c \<noteq> None"
    using assms by (auto simp: cuda_ok_def gpu_fits_def length_words_of simp flip: length_greater_0_conv)
  then show ?thesis using process_bytes_uniform [of drv ?n g "payload d"] assms(1,3)
    by (auto simp: gpu_stage_def gpu_frame_def cuda_ok_def Let_def)
qed

lemma gpu_stage_ok:
  assumes "ring_quiet (pc_ring c) (pi_ring s)" "cuda_ok c (pi_cuda s)" "gpu_fits c (length (payload d))"
  shows "\<exists>l k s'. gpu_stage clock c tid d s = (Inr l, s') \<and> gpu_frame s s' \<and> ring_quiet (pc_ring c) (pi_ring s')
    \<and> cuda_ok c (pi_cuda s') \<and> kernel_time c k \<and> (\<forall>e. sat_add (pi_now_ns s) (sat_add l e) = sat_add (pi_now_ns s) (sat_add k e))"
proof (cases "include_gpu_kernel (pc_profile c)")
  case False
  then show ?thesis using assms(1,2) by (auto simp: gpu_stage_off gpu_frame_def kernel_time_def ring_kernel_ns_def)
next
  case kernel: True
  show ?thesis
  proof (cases "pi_cuda s")
    case None
    then have "pc_gpu c = None" using assms(2) by (simp add: cuda_ok_def)
    then have "kernel_time c (ring_kernel_ns c)" "slot_count (pc_ring c) = 0 \<or> length (payload d) \<le> cfg_slot_bytes (pc_ring c)"
      using assms(3) kernel by (auto simp: kernel_time_def gpu_fits_def)
    then show ?thesis using ring_stage_ok [OF assms(1), of d clock] None kernel assms(2)
      by (fastforce simp: gpu_stage_def ring_kernel_ns_def sat_add_elapsed)
  next
    case (Some x)
    then have "pc_gpu c \<noteq> None" using assms(2) by (auto simp: cuda_ok_def split: prod.splits)
    then show ?thesis using device_stage_ok [OF _ assms(2) kernel assms(3), of "fst x" "snd x" clock tid] assms(1) Some
      by (fastforce simp: kernel_time_def)
  qed
qed

definition nic_quiet :: "NicDmaConfig \<Rightarrow> Cx5Nic \<Rightarrow> bool" where
  "nic_quiet cfg n \<longleftrightarrow> nic_cfg n = cfg \<and> pending n = [] \<and> rx_ready n = []"

lemma nic_quiet_advance: "nic_quiet cfg n \<Longrightarrow> nic_quiet cfg (advance_time n t) \<and> nic_now_ns (advance_time n t) = t"
  by (simp add: nic_quiet_def advance_time_def poll_completions_eq)

text \<open>A packet handed to an idle NIC is ready by the time the pipeline polls it, and alone.\<close>

lemma nic_quiet_burst:
  assumes "nic_cfg n = cfg" "pending n = []" "rx_ready n = [p]"
  shows "\<exists>n'. Cx5Nic_rx_burst n 32 = ([p], n') \<and> nic_quiet cfg n'"
  using assms by (simp add: Cx5Nic_rx_burst_def drain_front_def poll_completions_eq nic_quiet_def Let_def)

lemma nic_quiet_submit:
  assumes "nic_quiet cfg n" "0 < rx_queue_depth cfg"
  shows "\<exists>n1 n2. submit_rx (advance_time n now) p = (Inr (), n1) \<and> nic_cfg n1 = cfg
    \<and> Cx5Nic_rx_burst (advance_time n1 (sat_add now (dma_latency_ns cfg))) 32 = ([p], n2) \<and> nic_quiet cfg n2"
proof -
  let ?t = "sat_add now (dma_latency_ns cfg)" and ?n = "advance_time n now"
  have n: "nic_cfg ?n = cfg" "pending ?n = []" "rx_ready ?n = []" "nic_now_ns ?n = now"
    using nic_quiet_advance [OF assms(1), of now] by (simp_all add: nic_quiet_def)
  let ?n1 = "poll_completions (?n\<lparr>pending := [\<lparr>ready_at_ns = ?t, pr_packet = p\<rparr>]\<rparr>)"
  have "submit_rx ?n p = (Inr (), ?n1)"
    using assms(2) n by (simp add: submit_rx_def submit_rx_ready_at_def)
  moreover have "nic_cfg ?n1 = cfg" using n by (simp add: poll_completions_eq)
  moreover have "\<exists>n2. Cx5Nic_rx_burst (advance_time ?n1 ?t) 32 = ([p], n2) \<and> nic_quiet cfg n2"
    using n by (intro nic_quiet_burst) (auto simp: advance_time_def poll_completions_eq)
  ultimately show ?thesis by blast
qed

lemma nic_stage_ok:
  assumes "nic_quiet (pc_nic c) (pi_nic s)" "0 < rx_queue_depth (pc_nic c)"
  shows "\<exists>n n'. nic_stage c p s = (Inr (), s\<lparr>pi_now_ns := sat_add (pi_now_ns s)
        (if include_nic_dma (pc_profile c) then dma_latency_ns (pc_nic c) else 0), pi_nic := n\<rparr>)
    \<and> Cx5Nic_rx_burst n 32 = ([p], n') \<and> nic_quiet (pc_nic c) n'"
proof (cases "include_nic_dma (pc_profile c)")
  case True
  let ?t = "sat_add (pi_now_ns s) (dma_latency_ns (pc_nic c))"
  obtain n1 n2 where n1: "submit_rx (advance_time (pi_nic s) (pi_now_ns s)) p = (Inr (), n1)" "nic_cfg n1 = pc_nic c"
      "Cx5Nic_rx_burst (advance_time n1 ?t) 32 = ([p], n2)" "nic_quiet (pc_nic c) n2"
    using nic_quiet_submit [OF assms, of "pi_now_ns s" p] by blast
  then have "nic_stage c p s = (Inr (), s\<lparr>pi_now_ns := ?t, pi_nic := advance_time n1 ?t\<rparr>)"
    using True by (simp add: nic_stage_def)
  then show ?thesis using n1 True by auto
next
  case False
  define n where "n = advance_time (pi_nic s) (pi_now_ns s)"
  have n: "nic_cfg n = pc_nic c" "pending n = []" "rx_ready n = []" "nic_now_ns n = pi_now_ns s"
    using nic_quiet_advance [OF assms(1), of "pi_now_ns s"] by (simp_all add: n_def nic_quiet_def)
  let ?n = "poll_completions (n\<lparr>pending := [\<lparr>ready_at_ns = pi_now_ns s, pr_packet = p\<rparr>]\<rparr>)"
  have "nic_stage c p s = (Inr (), s\<lparr>pi_now_ns := pi_now_ns s, pi_nic := ?n\<rparr>)"
    using False assms(2) n by (simp add: nic_stage_def n_def [symmetric] submit_rx_ready_at_def)
  moreover have "\<exists>n'. Cx5Nic_rx_burst ?n 32 = ([p], n') \<and> nic_quiet (pc_nic c) n'"
    using n by (intro nic_quiet_burst) (auto simp: poll_completions_eq)
  ultimately show ?thesis using False by auto
qed

definition transport_ready :: "StreamId set \<Rightarrow> SimTransportEngine \<Rightarrow> bool" where
  "transport_ready K t \<longleftrightarrow>
     inbox t = [] \<and> link t = Link_Running \<and> (\<forall>i\<in>K. \<exists>s. streams t i = Some s \<and> rt_state s = Stream_Running)"

lemma transport_ready_recover: "transport_ready K t \<Longrightarrow> transport_ready K (recover_sequence t i n)"
  by (auto simp: transport_ready_def recover_sequence_def split: option.split)

text \<open>What a stage does to the engine: it is late or it is the only packet of the inbox.\<close>

definition transport_effect :: "StreamId set \<Rightarrow> Packet \<Rightarrow> bool \<Rightarrow> SimTransportEngine \<Rightarrow> SimTransportEngine \<Rightarrow> bool" where
  "transport_effect K p accepted t t' \<longleftrightarrow>
     inbox t' = (if accepted then [p] else []) \<and> link t' = Link_Running \<and> ts t' = ts t
     \<and> (\<forall>i\<in>K. \<exists>s. streams t' i = Some s \<and> rt_state s = Stream_Running)
     \<and> late_packets t' = late_packets t + (if accepted then 0 else 1)"

lemma ingest_effect:
  assumes "transport_ready K t" "stream_id p \<in> K"
  obtains (ok) t' where "ts_check (ts t) p (now_ns t) = Inr ()" "ingest t p = (Inr (), t')" "transport_effect K p True t t'"
  | (gap) a t' t'' where "ts_check (ts t) p (now_ns t) = Inr ()" "ingest t p = (Inl (SequenceGap a (seqno (sequence p))), t')"
      "ingest (recover_sequence t' (stream_id p) (seqno (sequence p))) p = (Inr (), t'')" "transport_effect K p True t t''"
  | (late) l m where "ts_check (ts t) p (now_ns t) = Inl (LatePacket l m)"
      "ingest t p = (Inl (LatePacket l m), t\<lparr>late_packets := late_packets t + 1\<rparr>)"
proof -
  obtain r where run: "inbox t = []" "link t = Link_Running" "streams t (stream_id p) = Some r" "rt_state r = Stream_Running"
    using assms by (auto simp: transport_ready_def)
  show thesis
  proof (cases "ts_check (ts t) p (now_ns t)")
    case (Inl err)
    then obtain l m where "err = LatePacket l m" using ts_check_error by blast
    then show thesis using late [of l m] Inl run by (simp add: ingest_def)
  next
    case (Inr u)
    then have can: "can_ingest t p" using run by (auto simp: can_ingest_def ts_check_Inr_iff)
    show thesis
    proof (cases "seqno (sequence p) = expected_seq (seq t) (stream_id p)")
      case True
      then show thesis using ok ingest_accept [OF can True] Inr run assms(1)
        by (simp add: transport_effect_def transport_ready_def)
    next
      case False
      then have gap_fst: "fst (ingest t p) = Inl (SequenceGap (expected_seq (seq t) (stream_id p)) (seqno (sequence p)))"
        using run Inr by (auto simp: ingest_def seq_check_def Let_def)
      note rec = gap_then_recover [OF gap_fst]
      let ?t' = "snd (ingest t p)"
      let ?r = "recover_sequence ?t' (stream_id p) (seqno (sequence p))"
      have "transport_effect K p True t (?r\<lparr>seq := resync (seq ?r) (stream_id p) (seqno (sequence p) + 1), inbox := [p]\<rparr>)"
        using assms(1) rec(3) transport_ready_recover [of K "?t'\<lparr>inbox := []\<rparr>" "stream_id p" "seqno (sequence p)"]
        by (auto simp: transport_effect_def transport_ready_def recover_sequence_def split: option.splits)
      moreover have "ingest ?r p = (Inr (), ?r\<lparr>seq := resync (seq ?r) (stream_id p) (seqno (sequence p) + 1), inbox := [p]\<rparr>)"
        using rec(1) run(1) by simp
      moreover have "ingest t p = (Inl (SequenceGap (expected_seq (seq t) (stream_id p)) (seqno (sequence p))), ?t')"
        using gap_fst by (simp add: prod_eq_iff)
      ultimately show thesis using gap Inr by simp
    qed
  qed
qed

abbreviation drops :: "Pipe \<Rightarrow> u64" where
  "drops s \<equiv> drop_count (transport (layered (pi_metrics s)))"

text \<open>The parts of the pipeline the transport stage leaves alone.\<close>

definition transport_frame :: "Pipe \<Rightarrow> Pipe \<Rightarrow> bool" where
  "transport_frame s s' \<longleftrightarrow>
     pi_now_ns s' = pi_now_ns s \<and> pi_nic s' = pi_nic s \<and> pi_ring s' = pi_ring s \<and> pi_cuda s' = pi_cuda s
     \<and> pi_latencies s' = pi_latencies s \<and> pi_bytes s' = pi_bytes s \<and> pi_packets s' = pi_packets s
     \<and> drops s' = drops s"

lemma transport_stage_ok:
  assumes "transport_ready K (pi_transport s)" "stream_id p \<in> K"
  defines "accepted \<equiv> ts_check (ts (pi_transport s)) p (now_ns (pi_transport s)) = Inr ()"
  shows "\<exists>s'. transport_stage clock p s = (Inr accepted, s') \<and> transport_frame s s'
    \<and> transport_effect K p accepted (pi_transport s) (pi_transport s')"
proof (cases rule: ingest_effect [OF assms(1,2)])
  case (1 t')
  then show ?thesis by (simp add: transport_stage_def accepted_def transport_frame_def)
next
  case (2 a t' t'')
  then show ?thesis by (simp add: transport_stage_def accepted_def transport_frame_def Let_def)
next
  case (3 l m)
  then show ?thesis using assms(1)
    by (simp add: transport_stage_def accepted_def transport_frame_def Let_def transport_effect_def transport_ready_def)
qed

lemma miss_stage_effect [simp]:
  "pi_now_ns (miss_stage clock c stream q e s) = pi_now_ns s" "pi_transport (miss_stage clock c stream q e s) = pi_transport s"
  "pi_nic (miss_stage clock c stream q e s) = pi_nic s" "pi_ring (miss_stage clock c stream q e s) = pi_ring s"
  "pi_latencies (miss_stage clock c stream q e s) = pi_latencies s" "pi_bytes (miss_stage clock c stream q e s) = pi_bytes s"
  "pi_packets (miss_stage clock c stream q e s) = pi_packets s" "drops (miss_stage clock c stream q e s) = drops s"
  "pi_cuda (miss_stage clock c stream q e s) = pi_cuda s"
  by (simp_all add: miss_stage_def Let_def)

lemma account_stage_effect:
  "pi_now_ns (account_stage clock c stream q n e s) = pi_now_ns s"
  "pi_transport (account_stage clock c stream q n e s) = pi_transport s"
  "pi_nic (account_stage clock c stream q n e s) = pi_nic s" "pi_ring (account_stage clock c stream q n e s) = pi_ring s"
  "pi_latencies (account_stage clock c stream q n e s) = pi_latencies s @ [e]"
  "pi_bytes (account_stage clock c stream q n e s) = pi_bytes s + n"
  "pi_packets (account_stage clock c stream q n e s) = pi_packets s + 1"
  "drops (account_stage clock c stream q n e s) = drops s" "pi_cuda (account_stage clock c stream q n e s) = pi_cuda s"
  by (simp_all add: account_stage_def Let_def)

lemma deliver_one_ok:
  assumes "ring_quiet (pc_ring c) (pi_ring s)" "cuda_ok c (pi_cuda s)" "gpu_fits c (length (payload d))"
  shows "\<exists>s'. deliver_one clock c stream q tid d s = (Inr (), s') \<and> ring_quiet (pc_ring c) (pi_ring s') \<and> cuda_ok c (pi_cuda s')
    \<and> pi_transport s' = pi_transport s \<and> pi_nic s' = pi_nic s \<and> drops s' = drops s
    \<and> (\<exists>k. kernel_time c k \<and> pi_now_ns s' = sat_add (pi_now_ns s) (sat_add k (kernel_delay_ns (pc_fault c))))
    \<and> pi_packets s' = pi_packets s + 1 \<and> pi_bytes s' = pi_bytes s + word_of_nat (length (payload d))
    \<and> pi_latencies s' = pi_latencies s @ [sat_sub (pi_now_ns s') (tstamp (timestamp d))]"
proof -
  let ?n = "word_of_nat (length (payload d))"
  let ?s1 = "stamp_now tid GpuEnqueue (stamp_now tid HostReady (on_metrics (\<lambda>m. record_rx_bytes (record_rx m) ?n) s))"
  obtain l k s2 where s2: "gpu_stage clock c tid d ?s1 = (Inr l, s2)" "gpu_frame ?s1 s2" "ring_quiet (pc_ring c) (pi_ring s2)"
      "cuda_ok c (pi_cuda s2)" "kernel_time c k" "\<And>e. sat_add (pi_now_ns s) (sat_add l e) = sat_add (pi_now_ns s) (sat_add k e)"
    using gpu_stage_ok [of c ?s1 d clock tid] assms by auto
  show ?thesis using s2
    by (auto simp: deliver_one_def gpu_frame_def Let_def account_stage_effect)
qed

section \<open>One packet through the pipeline\<close>

text \<open>When the packet reaches the transport, and whether that is too late.\<close>

definition arrival_ns :: "PipeConfig \<Rightarrow> u64 \<Rightarrow> Packet \<Rightarrow> u64" where
  "arrival_ns c now p =
     sat_add (sat_add (max now (tstamp (timestamp p))) (wire_ns c p)) (extra_latency_ns (pc_fault c))"

definition is_late :: "PipeConfig \<Rightarrow> u64 \<Rightarrow> Packet \<Rightarrow> bool" where
  "is_late c now p \<longleftrightarrow>
     unat (tstamp (timestamp p)) + unat (max_latency_ns (pc_deadline c)) < unat (arrival_ns c now p)"

text \<open>The pipeline between two packets: every queue is empty and every known stream is running.\<close>

definition pipe_ok :: "StreamId set \<Rightarrow> PipeConfig \<Rightarrow> Pipe \<Rightarrow> bool" where
  "pipe_ok K c s \<longleftrightarrow>
     transport_ready K (pi_transport s) \<and> tc_max_latency_ns (ts (pi_transport s)) = max_latency_ns (pc_deadline c)
     \<and> nic_quiet (pc_nic c) (pi_nic s) \<and> ring_quiet (pc_ring c) (pi_ring s) \<and> cuda_ok c (pi_cuda s)"

text \<open>The configuration and packet conditions under which no stage refuses the packet.\<close>

definition admissible :: "StreamId set \<Rightarrow> PipeConfig \<Rightarrow> Packet \<Rightarrow> bool" where
  "admissible K c p \<longleftrightarrow>
     stream_id p \<in> K \<and> 0 < rx_queue_depth (pc_nic c) \<and> gpu_fits c (length (payload p))"

definition packet_effect :: "PipeConfig \<Rightarrow> Packet \<Rightarrow> Pipe \<Rightarrow> Pipe \<Rightarrow> bool" where
  "packet_effect c p s s' \<longleftrightarrow>
     drops s' = drops s
     \<and> (if is_late c (pi_now_ns s) p
        then late_packets (pi_transport s') = late_packets (pi_transport s) + 1 \<and> pi_now_ns s' = arrival_ns c (pi_now_ns s) p
          \<and> pi_packets s' = pi_packets s \<and> pi_bytes s' = pi_bytes s \<and> pi_latencies s' = pi_latencies s
        else late_packets (pi_transport s') = late_packets (pi_transport s)
          \<and> (\<exists>k. kernel_time c k \<and> pi_now_ns s' = completed_ns c (arrival_ns c (pi_now_ns s) p) k)
          \<and> pi_packets s' = pi_packets s + 1 \<and> pi_bytes s' = pi_bytes s + word_of_nat (length (payload p))
          \<and> pi_latencies s' = pi_latencies s @ [sat_sub (pi_now_ns s') (tstamp (timestamp p))])"

lemma wire_stage_effect:
  "\<exists>tid tr. wire_stage c p s = (tid, s\<lparr>pi_now_ns := arrival_ns c (pi_now_ns s) p, pi_tracer := tr,
     pi_transport := (pi_transport s)\<lparr>now_ns := arrival_ns c (pi_now_ns s) p\<rparr>\<rparr>)"
  by (simp add: wire_stage_def arrival_ns_def Let_def split_beta) blast

lemma host_stage_ok:
  assumes "inbox (pi_transport s) = [p]" "nic_quiet (pc_nic c) (pi_nic s)" "ring_quiet (pc_ring c) (pi_ring s)"
    "cuda_ok c (pi_cuda s)" "admissible K c p"
  shows "\<exists>s'. host_stage clock c p tid s = (Inr (), s') \<and> ring_quiet (pc_ring c) (pi_ring s') \<and> cuda_ok c (pi_cuda s')
    \<and> pi_transport s' = (pi_transport s)\<lparr>inbox := []\<rparr> \<and> nic_quiet (pc_nic c) (pi_nic s') \<and> drops s' = drops s
    \<and> (\<exists>k. kernel_time c k \<and> pi_now_ns s' = completed_ns c (pi_now_ns s) k) \<and> pi_packets s' = pi_packets s + 1
    \<and> pi_bytes s' = pi_bytes s + word_of_nat (length (payload p))
    \<and> pi_latencies s' = pi_latencies s @ [sat_sub (pi_now_ns s') (tstamp (timestamp p))]"
proof -
  define s3 where "s3 = s\<lparr>pi_transport := (pi_transport s)\<lparr>inbox := []\<rparr>\<rparr>"
  have adm: "0 < rx_queue_depth (pc_nic c)" "gpu_fits c (length (payload p))" using assms(5) by (simp_all add: admissible_def)
  have "receive (pi_transport s) = (Inr (Some p), (pi_transport s)\<lparr>inbox := []\<rparr>)"
    using assms(1) by (simp add: receive_def)
  moreover define t where "t = sat_add (pi_now_ns s) (if include_nic_dma (pc_profile c) then dma_latency_ns (pc_nic c) else 0)"
  moreover obtain n n' where nic: "nic_stage c p s3 = (Inr (), s3\<lparr>pi_now_ns := t, pi_nic := n\<rparr>)"
      "Cx5Nic_rx_burst n 32 = ([p], n')" "nic_quiet (pc_nic c) n'"
    using nic_stage_ok [of c s3 p] assms(2) adm unfolding t_def by (auto simp: s3_def)
  ultimately obtain tr where host: "host_stage clock c p tid s =
      deliver_all clock c (sid (stream_id p)) (seqno (sequence p)) tid [p] (s3\<lparr>pi_now_ns := t, pi_tracer := tr, pi_nic := n'\<rparr>)"
    by (simp add: host_stage_def s3_def [symmetric] Let_def)
  let ?s4 = "s3\<lparr>pi_now_ns := t, pi_tracer := tr, pi_nic := n'\<rparr>"
  have "ring_quiet (pc_ring c) (pi_ring ?s4)" "cuda_ok c (pi_cuda ?s4)" using assms(3,4) by (simp_all add: s3_def)
  from deliver_one_ok [OF this adm(2), of clock "sid (stream_id p)" "seqno (sequence p)" tid]
  show ?thesis using host nic(3) by (auto simp: s3_def t_def completed_ns_def)
qed

lemma process_one_ok:
  assumes "pipe_ok K c s" "admissible K c p"
  shows "\<exists>s'. process_one clock c p s = (Inr (), s') \<and> pipe_ok K c s' \<and> packet_effect c p s s'"
proof -
  let ?now = "arrival_ns c (pi_now_ns s) p"
  obtain tid tr where wire: "wire_stage c p s =
      (tid, s\<lparr>pi_now_ns := ?now, pi_tracer := tr, pi_transport := (pi_transport s)\<lparr>now_ns := ?now\<rparr>\<rparr>)"
    using wire_stage_effect by blast
  define s1 where "s1 = s\<lparr>pi_now_ns := ?now, pi_tracer := tr, pi_transport := (pi_transport s)\<lparr>now_ns := ?now\<rparr>\<rparr>"
  have ready: "transport_ready K (pi_transport s1)" "stream_id p \<in> K"
    using assms by (simp_all add: s1_def pipe_ok_def transport_ready_def admissible_def)
  define accepted where "accepted \<longleftrightarrow> ts_check (ts (pi_transport s1)) p (now_ns (pi_transport s1)) = Inr ()"
  have acc: "accepted \<longleftrightarrow> \<not> is_late c (pi_now_ns s) p"
    using assms(1) by (simp add: accepted_def s1_def ts_check_Inr_iff is_late_def pipe_ok_def not_less)
  obtain s2 where s2: "transport_stage clock p s1 = (Inr accepted, s2)" "transport_frame s1 s2"
      "transport_effect K p accepted (pi_transport s1) (pi_transport s2)"
    using transport_stage_ok [OF ready, of clock] unfolding accepted_def by blast
  show ?thesis
  proof (cases accepted)
    case False
    then show ?thesis using s2 acc assms(1)
      by (simp add: process_one_def wire s1_def transport_frame_def transport_effect_def packet_effect_def pipe_ok_def
          transport_ready_def)
  next
    case True
    then have "inbox (pi_transport s2) = [p]" "nic_quiet (pc_nic c) (pi_nic s2)" "ring_quiet (pc_ring c) (pi_ring s2)"
        "cuda_ok c (pi_cuda s2)"
      using s2 assms(1) by (simp_all add: s1_def transport_frame_def transport_effect_def pipe_ok_def)
    from host_stage_ok [OF this assms(2), of clock tid] obtain s3 where
      s3: "host_stage clock c p tid s2 = (Inr (), s3)" "ring_quiet (pc_ring c) (pi_ring s3)" "cuda_ok c (pi_cuda s3)"
        "pi_transport s3 = (pi_transport s2)\<lparr>inbox := []\<rparr>" "nic_quiet (pc_nic c) (pi_nic s3)" "drops s3 = drops s2"
        "\<exists>k. kernel_time c k \<and> pi_now_ns s3 = completed_ns c (pi_now_ns s2) k" "pi_packets s3 = pi_packets s2 + 1"
        "pi_bytes s3 = pi_bytes s2 + word_of_nat (length (payload p))"
        "pi_latencies s3 = pi_latencies s2 @ [sat_sub (pi_now_ns s3) (tstamp (timestamp p))]" by blast
    have "process_one clock c p s = (Inr (), s3)"
      using s2(1) s3(1) True by (simp add: process_one_def wire s1_def [symmetric])
    moreover have "pipe_ok K c s3 \<and> packet_effect c p s s3"
      using s2(2,3) s3(2-) acc True assms(1)
      by (simp add: s1_def transport_frame_def transport_effect_def packet_effect_def pipe_ok_def transport_ready_def)
    ultimately show ?thesis by blast
  qed
qed

section \<open>The timeline of a run\<close>

text \<open>
  The reference for what a run measures: one server with a clock.  Of each packet, with the time \<open>k\<close> its kernel takes, it
  says whether it is late or with which latency it is delivered; the clock moves to its arrival or to its completion.
  There is no transport, NIC, ring, trace or metrics in it.
\<close>

fun passage :: "PipeConfig \<Rightarrow> u64 \<Rightarrow> (Packet \<times> u64) list \<Rightarrow> u64 \<times> u64 option list" where
  "passage c now [] = (now, [])"
| "passage c now ((p, k) # xs) =
     (let a = arrival_ns c now p in
      if is_late c now p
      then let (t, fates) = passage c a xs in (t, None # fates)
      else let d = completed_ns c a k; (t, fates) = passage c d xs
           in (t, Some (sat_sub d (tstamp (timestamp p))) # fates))"

definition latencies_of :: "u64 option list \<Rightarrow> u64 list" where
  "latencies_of fates = map the (filter (\<lambda>f. f \<noteq> None) fates)"

definition late_of :: "u64 option list \<Rightarrow> nat" where
  "late_of fates = length (filter (\<lambda>f. f = None) fates)"

lemma fates_append [simp]:
  "latencies_of (xs @ ys) = latencies_of xs @ latencies_of ys" "late_of (xs @ ys) = late_of xs + late_of ys"
  "latencies_of [] = []" "late_of [] = 0"
  by (simp_all add: latencies_of_def late_of_def)

lemma passage_append:
  "passage c now (xs @ ys) =
     (case passage c now xs of (t, fs) \<Rightarrow> case passage c t ys of (t', gs) \<Rightarrow> (t', fs @ gs))"
  by (induction c now xs rule: passage.induct) (auto simp: Let_def split_beta)

text \<open>The pipeline after the packets \<open>ps\<close> is where the timeline says.\<close>

definition followed :: "PipeConfig \<Rightarrow> Packet list \<Rightarrow> Pipe \<Rightarrow> bool" where
  "followed c ps s \<longleftrightarrow>
     (\<exists>ks fates. length ks = length ps \<and> list_all (kernel_time c) ks \<and> passage c 0 (zip ps ks) = (pi_now_ns s, fates)
        \<and> pi_latencies s = latencies_of fates \<and> late_packets (pi_transport s) = of_nat (late_of fates))"

lemma followed_step:
  assumes "followed c ps s" "packet_effect c p s s'"
  shows "followed c (ps @ [p]) s'"
proof -
  obtain ks fates where ks: "length ks = length ps" "list_all (kernel_time c) ks" "passage c 0 (zip ps ks) = (pi_now_ns s, fates)"
      "pi_latencies s = latencies_of fates" "late_packets (pi_transport s) = of_nat (late_of fates)"
    using assms(1) by (auto simp: followed_def)
  obtain k f where "kernel_time c k" "passage c (pi_now_ns s) [(p, k)] = (pi_now_ns s', [f])"
      "pi_latencies s' = pi_latencies s @ latencies_of [f]" "late_packets (pi_transport s') = late_packets (pi_transport s) + of_nat (late_of [f])"
  proof (cases "is_late c (pi_now_ns s) p")
    case True
    have "kernel_time c (ring_kernel_ns c)" by (simp add: kernel_time_def)
    then show ?thesis using True assms(2) that [of "ring_kernel_ns c" None]
      by (simp add: packet_effect_def latencies_of_def late_of_def)
  next
    case False
    then obtain k where "kernel_time c k" "pi_now_ns s' = completed_ns c (arrival_ns c (pi_now_ns s) p) k"
      using assms(2) by (auto simp: packet_effect_def)
    then show ?thesis using False assms(2) that [of k "Some (sat_sub (pi_now_ns s') (tstamp (timestamp p)))"]
      by (simp add: packet_effect_def latencies_of_def late_of_def Let_def)
  qed
  then show ?thesis using ks unfolding followed_def
    by (intro exI [of _ "ks @ [k]"] exI [of _ "fates @ [f]"]) (simp add: passage_append)
qed

text \<open>\<open>sent\<close> went into the injector, and what came out of it through the pipeline.\<close>

definition traced :: "PipeConfig \<Rightarrow> Packet list \<Rightarrow> FaultInjector \<Rightarrow> Pipe \<Rightarrow> bool" where
  "traced c sent fi s \<longleftrightarrow>
     (\<exists>out. push_all (FaultInjector_new (pc_fault c)) sent = (out, fi) \<and> followed c out s)"

lemma push_all_snoc: "push_all fi (ps @ [p]) =
  (case push_all fi ps of (out, fi') \<Rightarrow> case push fi' p of (o', fi'') \<Rightarrow> (out @ o', fi''))"
  by (induction ps arbitrary: fi) (auto simp: Let_def split_beta)

section \<open>A whole run\<close>

text \<open>
  The books of a run: every symbol that was emitted is delivered, late, still held by the injector
  or dropped by it.
\<close>

definition accounted :: "FaultInjector \<Rightarrow> Pipe \<Rightarrow> u64" where
  "accounted fi s =
     pi_packets s + late_packets (pi_transport s) + of_nat (length (held_list fi)) + fi_dropped fi"

definition run_ok :: "StreamId set \<Rightarrow> PipeConfig \<Rightarrow> FaultInjector \<Rightarrow> Pipe \<Rightarrow> bool" where
  "run_ok K c fi s \<longleftrightarrow>
     pipe_ok K c s \<and> fi_cfg fi = pc_fault c \<and> (\<forall>p\<in>set (held_list fi). admissible K c p)
     \<and> drops s = 0 \<and> pi_packets s = of_nat (length (pi_latencies s))"

lemma process_all_ok:
  assumes "pipe_ok K c s" "\<forall>p\<in>set ps. admissible K c p" "pi_packets s = of_nat (length (pi_latencies s))"
  shows "\<exists>s'. process_all clock c ps s = (Inr (), s') \<and> pipe_ok K c s' \<and> drops s' = drops s
    \<and> pi_packets s' = of_nat (length (pi_latencies s')) \<and> (\<forall>qs. followed c qs s \<longrightarrow> followed c (qs @ ps) s')
    \<and> pi_packets s' + late_packets (pi_transport s') = pi_packets s + late_packets (pi_transport s) + of_nat (length ps)"
  using assms
proof (induction ps arbitrary: s)
  case Nil
  then show ?case by simp
next
  case (Cons p ps)
  then obtain s1 where s1: "process_one clock c p s = (Inr (), s1)" "pipe_ok K c s1" "packet_effect c p s s1"
    using process_one_ok [of K c s p clock] by auto
  have "pi_packets s1 = of_nat (length (pi_latencies s1))"
    using s1(3) Cons.prems(3) by (auto simp: packet_effect_def split: if_splits)
  then obtain s2 where s2: "process_all clock c ps s1 = (Inr (), s2)" "pipe_ok K c s2" "drops s2 = drops s1"
      "pi_packets s2 = of_nat (length (pi_latencies s2))" "\<And>qs. followed c qs s1 \<Longrightarrow> followed c (qs @ ps) s2"
      "pi_packets s2 + late_packets (pi_transport s2) = pi_packets s1 + late_packets (pi_transport s1) + of_nat (length ps)"
    using Cons.IH [OF s1(2)] Cons.prems(2) by auto
  have "followed c (qs @ p # ps) s2" if "followed c qs s" for qs
    using s2(5) [OF followed_step [OF that s1(3)]] by simp
  then show ?case using s1 s2 by (auto simp: packet_effect_def algebra_simps split: if_splits)
qed

lemma push_accounts:
  "of_nat (length (fst (push fi p))) + of_nat (length (held_list (snd (push fi p)))) + fi_dropped (snd (push fi p))
     = of_nat (length (held_list fi)) + fi_dropped fi + (1 :: u64)"
  "set (fst (push fi p)) \<union> set (held_list (snd (push fi p))) \<subseteq> insert (mutate_packet (fi_cfg fi) p) (set (held_list fi))"
  "fi_cfg (snd (push fi p)) = fi_cfg fi"
  by (cases rule: push_cases [of fi p]; simp)+

lemma push_process_ok:
  assumes "run_ok K c fi s" "admissible K c p"
  shows "\<exists>s'. process_all clock c (fst (push fi p)) s = (Inr (), s') \<and> run_ok K c (snd (push fi p)) s'
    \<and> accounted (snd (push fi p)) s' = accounted fi s + 1
    \<and> (\<forall>sent. traced c sent fi s \<longrightarrow> traced c (sent @ [p]) (snd (push fi p)) s')"
proof -
  have "admissible K c (mutate_packet (fi_cfg fi) p)" using assms(2) by (simp add: admissible_def)
  then have adm: "\<forall>q\<in>set (fst (push fi p)) \<union> set (held_list (snd (push fi p))). admissible K c q"
    using push_accounts(2) [of fi p] assms(1) by (auto simp: run_ok_def)
  then obtain s' where s': "process_all clock c (fst (push fi p)) s = (Inr (), s')" "pipe_ok K c s'" "drops s' = drops s"
      "pi_packets s' = of_nat (length (pi_latencies s'))" "\<forall>qs. followed c qs s \<longrightarrow> followed c (qs @ fst (push fi p)) s'"
      "pi_packets s' + late_packets (pi_transport s') =
         pi_packets s + late_packets (pi_transport s) + of_nat (length (fst (push fi p)))"
    using process_all_ok [of K c s "fst (push fi p)" clock] assms(1) by (auto simp: run_ok_def)
  have "accounted (snd (push fi p)) s' = accounted fi s + 1"
    using s'(6) push_accounts(1) [of fi p] unfolding accounted_def by (simp add: algebra_simps)
  moreover have "traced c (sent @ [p]) (snd (push fi p)) s'" if "traced c sent fi s" for sent
    using that s'(5) by (auto simp: traced_def push_all_snoc split_beta)
  ultimately show ?thesis using s' adm assms(1) by (auto simp: run_ok_def push_accounts(3))
qed

text \<open>The emulators after \<open>k\<close> rounds; each emits its \<open>k\<close>-th symbol next.\<close>

abbreviation fpgas_at :: "PipeConfig \<Rightarrow> StreamId list \<Rightarrow> nat \<Rightarrow> FpgaEmulator list" where
  "fpgas_at c is k \<equiv> map (\<lambda>i. fpga_after (pc_timing c) i k) is"

lemma symbol_round_ok:
  assumes "run_ok K c fi s" "set is \<subseteq> K" "0 < rx_queue_depth (pc_nic c)" "gpu_fits c (8 * samples_per_symbol (pc_timing c))"
  shows "\<exists>fi' s'. symbol_round clock cos32 sin32 c (fpgas_at c is k) fi s = (Inr (fpgas_at c is (Suc k), fi'), s')
    \<and> run_ok K c fi' s' \<and> accounted fi' s' = accounted fi s + of_nat (length is)
    \<and> (\<forall>sent. traced c sent fi s \<longrightarrow> traced c (sent @ map (\<lambda>i. emitted cos32 sin32 (pc_timing c) i k) is) fi' s')"
  using assms(1,2)
proof (induction "is" arbitrary: fi s)
  case Nil
  then show ?case by simp
next
  case (Cons i js)
  let ?p = "emitted cos32 sin32 (pc_timing c) i k"
  have "admissible K c ?p" using Cons.prems assms(3,4) by (simp add: admissible_def)
  then obtain s1 where s1: "process_all clock c (fst (push fi ?p)) s = (Inr (), s1)" "run_ok K c (snd (push fi ?p)) s1"
      "accounted (snd (push fi ?p)) s1 = accounted fi s + 1" "\<forall>sent. traced c sent fi s \<longrightarrow> traced c (sent @ [?p]) (snd (push fi ?p)) s1"
    using push_process_ok [OF Cons.prems(1)] by blast
  then obtain fi' s' where "symbol_round clock cos32 sin32 c (fpgas_at c js k) (snd (push fi ?p)) s1 =
        (Inr (fpgas_at c js (Suc k), fi'), s')" "run_ok K c fi' s'"
      "accounted fi' s' = accounted (snd (push fi ?p)) s1 + of_nat (length js)"
      "\<forall>sent. traced c sent (snd (push fi ?p)) s1
         \<longrightarrow> traced c (sent @ map (\<lambda>i. emitted cos32 sin32 (pc_timing c) i k) js) fi' s'"
    using Cons.IH [OF s1(2)] Cons.prems(2) by auto
  then show ?case using s1 by (fastforce simp: emit_symbol_after split_beta)
qed

lemma symbol_rounds_ok:
  assumes "run_ok K c fi s" "set is \<subseteq> K" "0 < rx_queue_depth (pc_nic c)" "gpu_fits c (8 * samples_per_symbol (pc_timing c))"
  shows "\<exists>fi' s'. symbol_rounds clock cos32 sin32 c n (fpgas_at c is k) fi s = (Inr (fpgas_at c is (k + n), fi'), s')
    \<and> run_ok K c fi' s' \<and> accounted fi' s' = accounted fi s + of_nat (n * length is)
    \<and> (\<forall>sent. traced c sent fi s
         \<longrightarrow> traced c (sent @ concat (map (\<lambda>j. map (\<lambda>i. emitted cos32 sin32 (pc_timing c) i j) is) [k..<k + n])) fi' s')"
  using assms(1)
proof (induction n arbitrary: fi s k)
  case 0
  then show ?case by simp
next
  case (Suc n)
  obtain fi1 s1 where s1: "symbol_round clock cos32 sin32 c (fpgas_at c is k) fi s = (Inr (fpgas_at c is (Suc k), fi1), s1)"
      "run_ok K c fi1 s1" "accounted fi1 s1 = accounted fi s + of_nat (length is)"
      "\<forall>sent. traced c sent fi s \<longrightarrow> traced c (sent @ map (\<lambda>i. emitted cos32 sin32 (pc_timing c) i k) is) fi1 s1"
    using symbol_round_ok [OF Suc.prems assms(2-4)] by blast
  have "[k..<k + Suc n] = k # [Suc k..<Suc k + n]" by (simp add: upt_conv_Cons)
  then show ?case using Suc.IH [OF s1(2), of "Suc k"] s1(1,3,4) by (fastforce simp: algebra_simps simp del: upt_Suc)
qed

lemma flush_loop_ok:
  assumes "run_ok K c fi s"
  shows "\<exists>fi' s'. flush_loop clock c fi s = (Inr fi', s') \<and> run_ok K c fi' s' \<and> held fi' = None
    \<and> accounted fi' s' = accounted fi s \<and> fi_dropped fi' = fi_dropped fi
    \<and> (\<forall>ps. followed c ps s \<longrightarrow> followed c (ps @ held_list fi) s')"
proof -
  have idle: "flush_loop clock c fi s = (Inr (fi\<lparr>held_countdown := 0, held := None\<rparr>), s)" if "held fi = None" for fi s
    using that by (subst flush_loop.simps) (simp add: flush_def)
  show ?thesis
  proof (cases "held fi")
    case None
    then show ?thesis using idle [OF None] assms by (simp add: run_ok_def accounted_def)
  next
    case (Some p)
    then have "pipe_ok K c s" "admissible K c p" using assms by (simp_all add: run_ok_def)
    then obtain s1 where s1: "process_one clock c p s = (Inr (), s1)" "pipe_ok K c s1" "packet_effect c p s s1"
      using process_one_ok by blast
    have "flush_loop clock c fi s = (Inr (fi\<lparr>held_countdown := 0, held := None\<rparr>), s1)"
      using Some s1(1) by (subst flush_loop.simps) (simp add: flush_def idle)
    then show ?thesis using s1(2,3) assms Some followed_step [OF _ s1(3)]
      by (auto simp: run_ok_def accounted_def packet_effect_def split: if_splits)
  qed
qed

lemma setup_streams_ok:
  assumes "transport_ready K t" "distinct ss" "\<forall>s\<in>set ss. streams t (StreamId s) = None"
  shows "\<exists>t'. setup_streams c ss t = (Inr (map (\<lambda>s. FpgaEmulator_new (pc_timing c) (StreamId s)) ss), t')
    \<and> transport_ready (K \<union> StreamId ` set ss) t' \<and> ts t' = ts t \<and> late_packets t' = late_packets t"
  using assms
proof (induction ss arbitrary: t K)
  case Nil
  then show ?case by simp
next
  case (Cons s ss)
  let ?cfg = "\<lparr>cfg_stream_id = StreamId s, carrier = ucast ((s - 1) mod 4), antenna = ucast ((s - 1) div 4),
      qos = 0, deadline_ns = latency_budget_ns (pc_profile c)\<rparr>"
  let ?t = "t\<lparr>seq := register_stream (seq t) (StreamId s),
      streams := (streams t)(StreamId s \<mapsto> \<lparr>rt_cfg = ?cfg, rt_state = Stream_Running\<rparr>)\<rparr>"
  have ready: "transport_ready (insert (StreamId s) K) ?t"
    using Cons.prems(1) by (simp add: transport_ready_def)
  have "\<forall>s'\<in>set ss. streams ?t (StreamId s') = None" using Cons.prems(2,3) by auto
  then obtain t' where "setup_streams c ss ?t = (Inr (map (\<lambda>s. FpgaEmulator_new (pc_timing c) (StreamId s)) ss), t')"
      "transport_ready (insert (StreamId s) K \<union> StreamId ` set ss) t'" "ts t' = ts ?t" "late_packets t' = late_packets ?t"
    using Cons.IH [OF ready] Cons.prems(2) by auto
  then show ?case using Cons.prems(3)
    by (simp add: create_stream_def start_stream_def set_stream_state_def Let_def)
qed

lemma stream_numbers_props:
  "distinct (stream_numbers c)" "length (stream_numbers c) = unat (max (bp_streams (pc_profile c)) 1)"
proof -
  let ?n = "unat (max (bp_streams (pc_profile c)) 1)"
  have "inj_on (word_of_nat :: nat \<Rightarrow> u32) {1..<Suc ?n}"
    using unsigned_less [of "max (bp_streams (pc_profile c)) 1", where 'a = nat]
    by (intro inj_onI) (simp add: word_of_nat_eq_iff take_bit_nat_eq_self)
  then show "distinct (stream_numbers c)" by (simp add: stream_numbers_def distinct_map del: upt_Suc)
  show "length (stream_numbers c) = ?n" by (simp add: stream_numbers_def del: upt_Suc)
qed

lemma start_ok:
  assumes "link_up (Sim_new (pc_deadline c)) = (Inr u, t0)" "cuda_ok c (pc_gpu c)"
  shows "\<exists>t. setup_streams c (stream_numbers c) t0 = (Inr (fpgas_at c (map StreamId (stream_numbers c)) 0), t)
    \<and> run_ok (StreamId ` set (stream_numbers c)) c (FaultInjector_new (pc_fault c)) (initial_pipe c t events)
    \<and> accounted (FaultInjector_new (pc_fault c)) (initial_pipe c t events) = 0
    \<and> traced c [] (FaultInjector_new (pc_fault c)) (initial_pipe c t events)"
proof -
  have t0: "transport_ready {} t0" "\<forall>s\<in>set (stream_numbers c). streams t0 (StreamId s) = None"
    "tc_max_latency_ns (ts t0) = max_latency_ns (pc_deadline c)" "late_packets t0 = 0"
    using assms(1) by (auto simp: link_up_def Sim_new_def transport_ready_def TimestampChecker_from_config_def
        TimestampChecker_new_def)
  from setup_streams_ok [OF t0(1) stream_numbers_props(1) t0(2)] obtain t where
    t: "setup_streams c (stream_numbers c) t0 = (Inr (map (\<lambda>s. FpgaEmulator_new (pc_timing c) (StreamId s)) (stream_numbers c)), t)"
      "transport_ready (StreamId ` set (stream_numbers c)) t" "ts t = ts t0" "late_packets t = late_packets t0" by auto
  then show ?thesis using t0(3,4) ring_quiet_new assms(2)
    by (simp add: fpga_after_0 run_ok_def pipe_ok_def initial_pipe_def Let_def FaultInjector_new_def nic_quiet_def
        Cx5Nic_new_def accounted_def traced_def followed_def set_memory_buffers_def set_link_up_def MetricsEngine_new_def
        LayeredMetricsSnapshot_default_def TransportLayerMetrics_default_def)
qed

lemma cuda_ok_fresh:
  assumes "pc_gpu c = None \<or> (\<exists>d g. pc_gpu c = Some (d, g) \<and> driver_ok d \<and> device_bufs g = [] \<and> lengths g = [])"
  shows "cuda_ok c (pc_gpu c)"
  using assms by (auto simp: cuda_ok_def uniform_gpu_def)

text \<open>What the emulators send in a run: symbol by symbol, and stream by stream.\<close>

definition sent_symbols :: "(f32 \<Rightarrow> f32) \<Rightarrow> (f32 \<Rightarrow> f32) \<Rightarrow> PipeConfig \<Rightarrow> Packet list" where
  "sent_symbols cos32 sin32 c =
     concat (map (\<lambda>k. map (\<lambda>i. emitted cos32 sin32 (pc_timing c) i k) (map StreamId (stream_numbers c)))
       [0..<unat (symbol_count (pc_profile c))])"

lemma run_timeline:
  assumes "to_ascii_lowercase (gpu_backend (pc_profile c)) \<noteq> ''cuda'' \<or> pc_cuda_feature c"
    "pc_gpu c = None \<or> (\<exists>d g. pc_gpu c = Some (d, g) \<and> driver_ok d \<and> device_bufs g = [] \<and> lengths g = [])"
    "create_log (bp_events_path (pc_profile c)) = Inr events"
    "0 < rx_queue_depth (pc_nic c)" "gpu_fits c (8 * samples_per_symbol (pc_timing c))"
  shows "\<exists>report m kernels. run clock cos32 sin32 create_log c = Inr (report, m)
    \<and> br_packets report + br_late_packets report + drop_count (transport (layered m))
        = symbol_count (pc_profile c) * ucast (max (bp_streams (pc_profile c)) 1)
    \<and> (case push_all (FaultInjector_new (pc_fault c)) (sent_symbols cos32 sin32 c) of (out, fi) \<Rightarrow>
         let entered = out @ held_list fi; (finish, fates) = passage c 0 (zip entered kernels)
         in length kernels = length entered \<and> list_all (kernel_time c) kernels
            \<and> br_packets report = of_nat (length (latencies_of fates)) \<and> br_late_packets report = of_nat (late_of fates)
            \<and> drop_count (transport (layered m)) = fi_dropped fi
            \<and> br_latency report = from_sorted_ns (sort (latencies_of fates)) \<and> sim_duration_ns report = finish)"
proof -
  obtain t0 where t0: "link_up (Sim_new (pc_deadline c)) = (Inr (), t0)" by (simp add: link_up_def)
  let ?K = "StreamId ` set (stream_numbers c)" and ?n = "unat (symbol_count (pc_profile c))"
  let ?fi = "FaultInjector_new (pc_fault c)"
  obtain t where t: "setup_streams c (stream_numbers c) t0 = (Inr (fpgas_at c (map StreamId (stream_numbers c)) 0), t)"
      "run_ok ?K c ?fi (initial_pipe c t events)" "accounted ?fi (initial_pipe c t events) = 0" "traced c [] ?fi (initial_pipe c t events)"
    using start_ok [OF t0 cuda_ok_fresh [OF assms(2)]] by blast
  have sub: "set (map StreamId (stream_numbers c)) \<subseteq> ?K" by simp
  from symbol_rounds_ok [OF t(2) sub assms(4,5), of clock cos32 sin32 ?n 0] obtain fi1 s1 where
    1: "symbol_rounds clock cos32 sin32 c ?n (fpgas_at c (map StreamId (stream_numbers c)) 0) ?fi (initial_pipe c t events)
        = (Inr (fpgas_at c (map StreamId (stream_numbers c)) (0 + ?n), fi1), s1)" "run_ok ?K c fi1 s1"
      "accounted fi1 s1 = of_nat (?n * length (stream_numbers c))" "traced c (sent_symbols cos32 sin32 c) fi1 s1"
    using t(3,4) by (fastforce simp: sent_symbols_def)
  then obtain out where out: "push_all ?fi (sent_symbols cos32 sin32 c) = (out, fi1)" "followed c out s1" by (auto simp: traced_def)
  from flush_loop_ok [OF 1(2), of clock] obtain fi2 s2 where
    2: "flush_loop clock c fi1 s1 = (Inr fi2, s2)" "run_ok ?K c fi2 s2" "held fi2 = None" "accounted fi2 s2 = accounted fi1 s1"
      "fi_dropped fi2 = fi_dropped fi1" "followed c (out @ held_list fi1) s2"
    using out(2) by blast
  then obtain ks fates where ks: "length ks = length (out @ held_list fi1)" "list_all (kernel_time c) ks"
      "passage c 0 (zip (out @ held_list fi1) ks) = (pi_now_ns s2, fates)"
      "pi_latencies s2 = latencies_of fates" "late_packets (pi_transport s2) = of_nat (late_of fates)"
    unfolding followed_def by blast
  let ?s = "account_drops clock fi2 s2"
  have s: "pi_packets ?s = pi_packets s2" "pi_transport ?s = pi_transport s2" "pi_latencies ?s = pi_latencies s2"
      "drops ?s = fi_dropped fi2" "pi_now_ns ?s = pi_now_ns s2"
    using 2(2) by (simp_all add: account_drops_def Let_def record_drops run_ok_def)
  have "run clock cos32 sin32 create_log c = Inr (make_report ?s, pi_metrics ?s)"
    unfolding run_def using assms(1,3) t0 t(1) 1(1) 2(1) by (simp add: Let_def)
  moreover have "of_nat (?n * length (stream_numbers c)) = symbol_count (pc_profile c) * ucast (max (bp_streams (pc_profile c)) 1)"
    by (simp add: stream_numbers_props(2))
  then have "br_packets (make_report ?s) + br_late_packets (make_report ?s) + drops ?s
      = symbol_count (pc_profile c) * ucast (max (bp_streams (pc_profile c)) 1)"
    using s 1(3) 2(3,4) by (simp add: make_report_def Let_def accounted_def)
  moreover have "br_packets (make_report ?s) = of_nat (length (latencies_of fates))"
      "br_late_packets (make_report ?s) = of_nat (late_of fates)" "drops ?s = fi_dropped fi1"
      "br_latency (make_report ?s) = from_sorted_ns (sort (latencies_of fates))" "sim_duration_ns (make_report ?s) = pi_now_ns s2"
    using s 2(2,5) ks(4,5) by (simp_all add: make_report_def Let_def run_ok_def)
  ultimately show ?thesis using ks(1-3) out(1)
    by (intro exI [of _ "make_report ?s"] exI [of _ "pi_metrics ?s"] exI [of _ ks]) simp
qed

lemma run_conserves:
  assumes "to_ascii_lowercase (gpu_backend (pc_profile c)) \<noteq> ''cuda'' \<or> pc_cuda_feature c"
    "pc_gpu c = None \<or> (\<exists>d g. pc_gpu c = Some (d, g) \<and> driver_ok d \<and> device_bufs g = [] \<and> lengths g = [])"
    "create_log (bp_events_path (pc_profile c)) = Inr events"
    "0 < rx_queue_depth (pc_nic c)" "gpu_fits c (8 * samples_per_symbol (pc_timing c))"
  shows "\<exists>report m latencies. run clock cos32 sin32 create_log c = Inr (report, m)
    \<and> br_packets report + br_late_packets report + drop_count (transport (layered m))
        = symbol_count (pc_profile c) * ucast (max (bp_streams (pc_profile c)) 1)
    \<and> br_packets report = of_nat (length latencies) \<and> br_latency report = from_sorted_ns (sort latencies)"
  using run_timeline [where c = c and create_log = create_log, OF assms, of clock cos32 sin32]
  by (auto simp: Let_def split_beta)

text \<open>
  C1: what a run reports.  If the build can serve the requested GPU back end (and a device, if one is used, was just
  opened and reports no error), the event file can be created, the NIC has at least one receive descriptor and the GPU
  takes one symbol, then \<^verbatim>\<open>run\<close> ends with a report, whatever the faults, delays and deadlines configured.  In it the
  delivered, the late and the dropped packets add up to one packet per symbol and stream (as \<^verbatim>\<open>u64\<close>).  The report is
  that of the timeline \<open>passage\<close>, which knows no transport, NIC, ring or metrics: the symbols the emulators send go
  through the fault injector, each packet that comes out arrives at its time on the wire, is late or is delivered after
  DMA and kernel, and the counts, the latency statistics and the duration are those of the timeline.  The time of a kernel
  is the configured one on the simulated ring; on a device it is whatever the device reports.
\<close>

theorem run_accounts_for_every_symbol:
  assumes "to_ascii_lowercase (gpu_backend (pc_profile c)) \<noteq> ''cuda'' \<or> pc_cuda_feature c"
    "pc_gpu c = None \<or> (\<exists>d g. pc_gpu c = Some (d, g) \<and> driver_ok d \<and> device_bufs g = [] \<and> lengths g = [])"
    "create_log (bp_events_path (pc_profile c)) = Inr events"
    "0 < rx_queue_depth (pc_nic c)" "gpu_fits c (8 * samples_per_symbol (pc_timing c))"
  shows "\<exists>report m kernels. run clock cos32 sin32 create_log c = Inr (report, m)
    \<and> br_packets report + br_late_packets report + drop_count (transport (layered m))
        = symbol_count (pc_profile c) * ucast (max (bp_streams (pc_profile c)) 1)
    \<and> (case push_all (FaultInjector_new (pc_fault c)) (sent_symbols cos32 sin32 c) of (out, fi) \<Rightarrow>
         let entered = out @ held_list fi; (finish, fates) = passage c 0 (zip entered kernels)
         in length kernels = length entered \<and> list_all (kernel_time c) kernels
            \<and> br_packets report = of_nat (length (latencies_of fates)) \<and> br_late_packets report = of_nat (late_of fates)
            \<and> drop_count (transport (layered m)) = fi_dropped fi
            \<and> br_latency report = from_sorted_ns (sort (latencies_of fates)) \<and> sim_duration_ns report = finish)"
  using assms by (rule run_timeline)

definition sample_profile :: BenchProfile where
  "sample_profile = \<lparr>bp_version = ''1.0.0'', bp_id = ''bench-default'', symbol_count = 8, bp_streams = 2,
     latency_budget_ns = 50000, include_ethernet_delay = True, include_nic_dma = True, include_gpu_kernel = True,
     gpu_backend = ''simulation'', bp_report_path = ''data/reports/bench_report.json'',
     bp_events_path = ''data/reports/bench_events.jsonl'', bp_observability_config = ''configs/ops/observability.yaml'',
     bp_radio_timing_config = ''configs/radio_timing.yaml'', bp_transport_deadline_config = ''configs/transport_deadline.yaml'',
     bp_ethernet_config = ''configs/ethernet_model.yaml'', bp_nic_config = ''configs/nic.yaml'',
     bp_gpu_ring_config = ''configs/gpu_ring.yaml'', bp_fault_config = ''configs/fault_injection.yaml'', bp_gpu_cuda_config = None\<rparr>"

definition sample_profile_doc :: BenchProfileDoc where
  "sample_profile_doc = \<lparr>bd_version = ''1.0.0'', bd_id = ''bench-default'', bd_symbol_count = 8, bd_streams = 2,
     bd_latency_budget_ns = 50000, bd_include_ethernet_delay = True, bd_include_nic_dma = True, bd_include_gpu_kernel = True,
     bd_gpu_backend = None, bd_report_path = ''data/reports/bench_report.json'', bd_events_path = None, bd_observability_config = None,
     bd_radio_timing_config = ''configs/radio_timing.yaml'', bd_transport_deadline_config = ''configs/transport_deadline.yaml'',
     bd_ethernet_config = ''configs/ethernet_model.yaml'', bd_nic_config = ''configs/nic.yaml'',
     bd_gpu_ring_config = ''configs/gpu_ring.yaml'', bd_fault_config = ''configs/fault_injection.yaml'', bd_gpu_cuda_config = None\<rparr>"

lemma sample_profile_of: "BenchProfile_of sample_profile_doc = sample_profile"
  by (simp add: BenchProfile_of_def sample_profile_doc_def sample_profile_def default_gpu_backend_def bench_default_events_path_def
      default_ops_config_def)

definition sample_timing :: RadioTimingConfig where
  "sample_timing = \<lparr>rtc_version = ''1.0.0'', rtc_id = ''radio-timing'', slots_per_sfn = 20, symbols_per_slot = 14,
     symbol_duration_ns = 35714, samples_per_symbol = 16, max_antennas = 4, max_carriers = 4\<rparr>"

definition sample_pipe_config :: PipeConfig where
  "sample_pipe_config = \<lparr>pc_profile = sample_profile, pc_timing = sample_timing, pc_eth = sample_ethernet,
     pc_deadline = sample_deadline, pc_nic = sample_nic_config, pc_ring = sample_ring_config, pc_fault = sample_fault 3,
     pc_trace_enabled = True, pc_trace_capacity = 16, pc_trace_path = ''traces.jsonl'', pc_recovery = None,
     pc_cuda_feature = False, pc_gpu = None\<rparr>"

lemma sample_backend: "to_ascii_lowercase ''simulation'' \<noteq> ''cuda''"
  by code_simp

theorem run_accounts_for_every_symbol_witness:
  "\<exists>report m kernels. run (\<lambda>_. 0) (\<lambda>x. x) (\<lambda>x. x) (\<lambda>p. Inr \<lparr>ev_log = [], ev_path = p\<rparr>) sample_pipe_config = Inr (report, m)
    \<and> br_packets report + br_late_packets report + drop_count (transport (layered m))
        = symbol_count (pc_profile sample_pipe_config) * ucast (max (bp_streams (pc_profile sample_pipe_config)) 1)
    \<and> (case push_all (FaultInjector_new (pc_fault sample_pipe_config)) (sent_symbols (\<lambda>x. x) (\<lambda>x. x) sample_pipe_config) of (out, fi) \<Rightarrow>
         let entered = out @ held_list fi; (finish, fates) = passage sample_pipe_config 0 (zip entered kernels)
         in length kernels = length entered \<and> list_all (kernel_time sample_pipe_config) kernels
            \<and> br_packets report = of_nat (length (latencies_of fates)) \<and> br_late_packets report = of_nat (late_of fates)
            \<and> drop_count (transport (layered m)) = fi_dropped fi
            \<and> br_latency report = from_sorted_ns (sort (latencies_of fates)) \<and> sim_duration_ns report = finish)"
  by (rule run_accounts_for_every_symbol)
    (simp_all add: sample_pipe_config_def sample_profile_def sample_timing_def sample_nic_config_def sample_ring_config_def
      gpu_fits_def sample_backend)

section \<open>The latency report\<close>

lemma f_mul_mono_right:
  assumes "f_nonneg a" "f_le a b" "f_nonneg k" "0 < prec F"
  shows "f_to_u64 (f_mul F a k) \<le> f_to_u64 (f_mul F b k)"
proof (cases k)
  case (Fin z)
  show ?thesis
  proof (cases "z = 0")
    case True
    then have "f_to_u64 (f_mul F x k) = 0" if "f_nonneg x" for x
      using that Fin by (cases x) (simp_all add: rnd_def rnd_unbounded_def Let_def not_le)
    then show ?thesis using assms(1) by simp
  next
    case False
    then have "0 < z" using assms(3) Fin by simp
    then show ?thesis unfolding Fin using assms(1,2,4)
      by (intro f_to_u64_mono f_mul_mono_left f_mul_nonneg)
  qed
next
  case PInf
  show ?thesis unfolding PInf
    by (cases rule: f_le_nonneg_cases [OF assms(1,2)]) (auto simp: inf_of_def)
qed (use assms(3) in simp_all)

lemma pct_mono:
  assumes "sorted xs" "xs \<noteq> []" "0 \<le> p" "p \<le> q"
  shows "pct xs (f64_lit p) \<le> pct xs (f64_lit q)"
proof -
  have "f_to_u64 (f64_mul (f64_lit p) (f64_of_nat (length xs - 1)))
      \<le> f_to_u64 (f64_mul (f64_lit q) (f64_of_nat (length xs - 1)))"
    using assms(3,4) by (intro f_mul_mono_right rnd_nonneg rnd_mono f_of_nat_nonneg) simp_all
  then show ?thesis using assms(1,2) unfolding pct_def
    by (intro sorted_nth_mono) (auto simp: word_le_nat_alt length_greater_0_conv [symmetric] simp del: length_greater_0_conv)
qed

lemma sorted_list_ends:
  fixes xs :: "'a::linorder list"
  assumes "sorted xs" "xs \<noteq> []"
  shows "xs ! 0 = Min (set xs)" "last xs = Max (set xs)"
proof -
  show "xs ! 0 = Min (set xs)"
    using assms by (cases xs) (auto intro!: Min_eqI [symmetric])
  show "last xs = Max (set xs)"
    using assms by (cases xs rule: rev_cases) (auto intro!: Max_eqI [symmetric] simp: sorted_append)
qed

lemma pct_within: "xs \<noteq> [] \<Longrightarrow> pct xs p \<in> set xs"
  unfolding pct_def by (intro nth_mem) (cases xs, auto)

text \<open>
  The latency report.  Over the delivered packets of a run, in whatever order they came, the
  reported minimum, percentiles and maximum are values that were measured, they are in order, and
  minimum and maximum are the true ones.
\<close>

theorem latency_report_ordered:
  assumes "latencies \<noteq> []"
  shows "(let st = from_sorted_ns (sort latencies) in
      min_ns st = Min (set latencies) \<and> max_ns st = Max (set latencies)
      \<and> min_ns st \<le> p50_ns st \<and> p50_ns st \<le> p99_ns st \<and> p99_ns st \<le> p999_ns st \<and> p999_ns st \<le> max_ns st
      \<and> {p50_ns st, p99_ns st, p999_ns st} \<subseteq> set latencies)"
proof -
  let ?xs = "sort latencies"
  have ne: "?xs \<noteq> []" and so: "sorted ?xs" using assms by (auto simp: set_empty [symmetric] simp del: set_empty)
  have ends: "?xs ! 0 = Min (set latencies)" "last ?xs = Max (set latencies)"
    using sorted_list_ends [OF so ne] by simp_all
  have "pct ?xs p \<in> set latencies" for p using pct_within [OF ne, of p] by simp
  then show ?thesis using ne ends pct_mono [OF so ne, of "50 / 100" "99 / 100"] pct_mono [OF so ne, of "99 / 100" "999 / 1000"]
    by (simp add: from_sorted_ns_def Let_def)
qed

theorem latency_report_ordered_witness:
  "(let st = from_sorted_ns (sort [5, 3, 9]) in
      min_ns st = Min (set [5, 3, 9]) \<and> max_ns st = Max (set [5, 3, 9])
      \<and> min_ns st \<le> p50_ns st \<and> p50_ns st \<le> p99_ns st \<and> p99_ns st \<le> p999_ns st \<and> p999_ns st \<le> max_ns st
      \<and> {p50_ns st, p99_ns st, p999_ns st} \<subseteq> set [5, 3, 9])"
  by (rule latency_report_ordered) simp

end
