(* ===== verification/Bench_Timing.thy ===== *)
theory Bench_Timing
  imports Pipeline_Props
begin

text \<open>
  The bench without injected faults, in closed form.  When the packets of one symbol pass through the pipeline
  before the next symbol is due and the deadline covers the last of them, every packet of every stream is
  delivered, in sequence, and its latency is known: the packet of the \<open>j\<close>-th stream takes \<open>j\<close> times the cost of
  one packet.
\<close>

section \<open>What a packet costs\<close>

definition wire_cost :: "PipeConfig \<Rightarrow> nat" where
  "wire_cost c =
     (if include_ethernet_delay (pc_profile c)
      then unat (sat_add (serialize_delay_ns (pc_eth c) (8 * samples_per_symbol (pc_timing c))) (wire_delay_ns (pc_eth c)))
      else 0)"

definition nic_cost :: "PipeConfig \<Rightarrow> nat" where
  "nic_cost c = (if include_nic_dma (pc_profile c) then unat (dma_latency_ns (pc_nic c)) else 0)"

definition kernel_cost :: "PipeConfig \<Rightarrow> nat" where
  "kernel_cost c =
     (if include_gpu_kernel (pc_profile c) \<and> slot_count (pc_ring c) \<noteq> 0 then unat (cfg_kernel_delay_ns (pc_ring c)) else 0)"

definition packet_cost :: "PipeConfig \<Rightarrow> nat" where
  "packet_cost c = wire_cost c + nic_cost c + kernel_cost c"

text \<open>A configuration without faults and without a device.\<close>

definition ideal :: "PipeConfig \<Rightarrow> bool" where
  "ideal c \<longleftrightarrow> \<not> enabled (pc_fault c) \<and> pc_gpu c = None \<and> 0 < rx_queue_depth (pc_nic c)
     \<and> gpu_fits c (8 * samples_per_symbol (pc_timing c)) \<and> start_sequence (pc_deadline c) = 0"

lemma ideal_faults [simp]: "ideal c \<Longrightarrow> extra_latency_ns (pc_fault c) = 0" "ideal c \<Longrightarrow> kernel_delay_ns (pc_fault c) = 0"
  by (simp_all add: ideal_def extra_latency_ns_def kernel_delay_ns_def)

lemma wire_ns_cost: "length (payload p) = 8 * samples_per_symbol (pc_timing c) \<Longrightarrow> unat (wire_ns c p) = wire_cost c"
  by (simp add: wire_ns_def wire_cost_def)

lemma unat_sat_add_exact: "unat a + unat b < 2 ^ LENGTH('a) \<Longrightarrow> unat (sat_add a b :: 'a::len word) = unat a + unat b"
  by (simp add: unat_sat_add)

lemma unat_sat_sub_exact: "unat (sat_sub a b) = unat a - unat b"
  by (simp add: word_nat)

section \<open>The time of each stage\<close>

lemma gpu_stage_time:
  assumes "ideal c" "ring_quiet (pc_ring c) (pi_ring s)" "pi_cuda s = None" "length (payload d) = 8 * samples_per_symbol (pc_timing c)"
    and "unat (pi_now_ns s) + kernel_cost c < 2 ^ 64"
  obtains l s' where "gpu_stage clock c tid d s = (Inr l, s')" "unat l = kernel_cost c" "gpu_frame s s'"
    "ring_quiet (pc_ring c) (pi_ring s')" "pi_cuda s' = None"
proof -
  have fits: "gpu_fits c (length (payload d))" "pc_gpu c = None" using assms(1,4) by (simp_all add: ideal_def)
  have cuda: "cuda_ok c (pi_cuda s)" using assms(3) fits(2) by (simp add: cuda_ok_def)
  obtain l s' where stage: "gpu_stage clock c tid d s = (Inr l, s')" "gpu_frame s s'" "ring_quiet (pc_ring c) (pi_ring s')" "cuda_ok c (pi_cuda s')"
    using gpu_stage_ok [OF assms(2) cuda fits(1)] by blast
  have none: "pi_cuda s' = None" using stage(4) fits(2) by (auto simp: cuda_ok_def split: option.splits)
  have "unat l = kernel_cost c"
  proof (cases "include_gpu_kernel (pc_profile c) \<and> slot_count (pc_ring c) \<noteq> 0")
    case True
    then obtain i where i: "find_state (pi_ring s) Free = Some i"
      using ring_quiet_counts(1) [OF assms(2)] find_state_None [of "pi_ring s" Free] by auto
    have "length (payload d) \<le> slot_bytes (pi_ring s)" using fits True assms(2) by (simp add: gpu_fits_def ring_quiet_def)
    note pp = process_packet_ok [OF i ring_quiet_counts(2) [OF assms(2)] this, of "pi_now_ns s"]
    have "gpu_stage clock c tid d s = ring_stage clock d s" using True assms(3) by (simp add: gpu_stage_def)
    then have "l = sat_sub (sat_add (pi_now_ns s) (ring_kernel_delay_ns (pi_ring s))) (pi_now_ns s)"
      using ring_stage_process [OF pp, of clock] stage(1) by auto
    then show ?thesis using True assms(2,5) by (simp add: kernel_cost_def ring_quiet_def unat_sat_sub_exact unat_sat_add_exact)
  next
    case False
    then have "l = 0"
    proof (cases "include_gpu_kernel (pc_profile c)")
      case True
      then have "count_state (pi_ring s) Free = 0" using False ring_quiet_counts(1) [OF assms(2)] by simp
      then show ?thesis using ring_stage_full [of s clock d] stage(1) True assms(3) by (auto simp: gpu_stage_def)
    qed (use stage(1) gpu_stage_off in simp)
    then show ?thesis using False by (auto simp: kernel_cost_def)
  qed
  then show ?thesis using that stage none by blast
qed

lemma nic_stage_time:
  assumes "ideal c" "nic_quiet (pc_nic c) (pi_nic s)" "unat (pi_now_ns s) + nic_cost c < 2 ^ 64"
  obtains t n n' where "nic_stage c p s = (Inr (), s\<lparr>pi_now_ns := t, pi_nic := n\<rparr>)" "unat t = unat (pi_now_ns s) + nic_cost c"
    "Cx5Nic_rx_burst n 32 = ([p], n')" "nic_quiet (pc_nic c) n'"
proof -
  have depth: "0 < rx_queue_depth (pc_nic c)" using assms(1) by (simp add: ideal_def)
  obtain t n n' where stage: "nic_stage c p s = (Inr (), s\<lparr>pi_now_ns := t, pi_nic := n\<rparr>)" "Cx5Nic_rx_burst n 32 = ([p], n')"
      "nic_quiet (pc_nic c) n'" using nic_stage_ok [OF assms(2) depth, of p] by blast
  have t: "t = pi_now_ns (snd (nic_stage c p s))" using stage(1) by simp
  have "unat t = unat (pi_now_ns s) + nic_cost c"
  proof (cases "include_nic_dma (pc_profile c)")
    case True
    obtain n1 where "submit_rx (advance_time (pi_nic s) (pi_now_ns s)) p = (Inr (), n1)" "nic_cfg n1 = pc_nic c"
      using nic_quiet_submit [OF assms(2) depth, of "pi_now_ns s" p] by blast
    then have "t = sat_add (pi_now_ns s) (dma_latency_ns (pc_nic c))" unfolding t using True by (simp add: nic_stage_def Let_def)
    then show ?thesis using True assms(3) by (simp add: nic_cost_def unat_sat_add_exact)
  next
    case False
    have "t = pi_now_ns s" unfolding t using False by (simp add: nic_stage_def Let_def split: sum.split prod.split)
    then show ?thesis using False by (simp add: nic_cost_def)
  qed
  then show ?thesis using that stage by blast
qed

lemma account_stage_miss:
  "pi_symbol_miss (account_stage clock c stream q n e s) =
     pi_symbol_miss s + (if latency_budget_ns (pc_profile c) < e then 1 else 0)"
  by (simp add: account_stage_def miss_stage_def Let_def)

lemma deliver_one_time:
  assumes "ideal c" "ring_quiet (pc_ring c) (pi_ring s)" "pi_cuda s = None" "length (payload d) = 8 * samples_per_symbol (pc_timing c)"
    and "unat (pi_now_ns s) + kernel_cost c < 2 ^ 64"
  obtains s' where "deliver_one clock c stream q tid d s = (Inr (), s')" "ring_quiet (pc_ring c) (pi_ring s')" "pi_cuda s' = None"
    "pi_transport s' = pi_transport s" "pi_nic s' = pi_nic s" "drops s' = drops s" "pi_packets s' = pi_packets s + 1"
    "unat (pi_now_ns s') = unat (pi_now_ns s) + kernel_cost c"
    "pi_latencies s' = pi_latencies s @ [sat_sub (pi_now_ns s') (tstamp (timestamp d))]"
    "pi_symbol_miss s' = pi_symbol_miss s
       + (if latency_budget_ns (pc_profile c) < sat_sub (pi_now_ns s') (tstamp (timestamp d)) then 1 else 0)"
proof -
  let ?n = "word_of_nat (length (payload d))"
  let ?s1 = "stamp_now tid GpuEnqueue (stamp_now tid HostReady (on_metrics (\<lambda>m. record_rx_bytes (record_rx m) ?n) s))"
  have s1: "ring_quiet (pc_ring c) (pi_ring ?s1)" "pi_cuda ?s1 = None" "unat (pi_now_ns ?s1) + kernel_cost c < 2 ^ 64"
    using assms(2,3,5) by simp_all
  obtain l s2 where s2: "gpu_stage clock c tid d ?s1 = (Inr l, s2)" "unat l = kernel_cost c" "gpu_frame ?s1 s2"
      "ring_quiet (pc_ring c) (pi_ring s2)" "pi_cuda s2 = None"
    by (rule gpu_stage_time [OF assms(1) s1(1,2) assms(4) s1(3)])
  have now: "unat (sat_add (pi_now_ns s) l) = unat (pi_now_ns s) + kernel_cost c" using assms(5) s2(2) by (simp add: unat_sat_add_exact)
  define s3 where "s3 = stamp_now tid CudaDone (s2\<lparr>pi_now_ns := sat_add (pi_now_ns s) l\<rparr>)"
  define e where "e = sat_sub (pi_now_ns s3) (tstamp (timestamp d))"
  have "sat_add l 0 = l" by (simp add: word_unat_eq_iff unat_sat_add)
  then have "deliver_one clock c stream q tid d s = (Inr (), account_stage clock c stream q ?n e s3)"
    using s2(1,3) assms(1) by (simp add: deliver_one_def s3_def e_def gpu_frame_def Let_def)
  then show ?thesis
    by (rule that) (use s2 now in \<open>simp_all add: gpu_frame_def account_stage_effect account_stage_miss s3_def e_def\<close>)
qed

lemma host_stage_time:
  assumes "ideal c" "inbox (pi_transport s) = [p]" "nic_quiet (pc_nic c) (pi_nic s)" "ring_quiet (pc_ring c) (pi_ring s)"
    and "pi_cuda s = None" "length (payload p) = 8 * samples_per_symbol (pc_timing c)"
    and "unat (pi_now_ns s) + nic_cost c + kernel_cost c < 2 ^ 64"
  obtains s' where "host_stage clock c p tid s = (Inr (), s')" "ring_quiet (pc_ring c) (pi_ring s')" "pi_cuda s' = None"
    "pi_transport s' = (pi_transport s)\<lparr>inbox := []\<rparr>" "nic_quiet (pc_nic c) (pi_nic s')" "drops s' = drops s"
    "pi_packets s' = pi_packets s + 1" "unat (pi_now_ns s') = unat (pi_now_ns s) + nic_cost c + kernel_cost c"
    "pi_latencies s' = pi_latencies s @ [sat_sub (pi_now_ns s') (tstamp (timestamp p))]"
    "pi_symbol_miss s' = pi_symbol_miss s
       + (if latency_budget_ns (pc_profile c) < sat_sub (pi_now_ns s') (tstamp (timestamp p)) then 1 else 0)"
proof -
  define s3 where "s3 = s\<lparr>pi_transport := (pi_transport s)\<lparr>inbox := []\<rparr>\<rparr>"
  have s3: "nic_quiet (pc_nic c) (pi_nic s3)" "unat (pi_now_ns s3) + nic_cost c < 2 ^ 64" using assms(3,7) by (simp_all add: s3_def)
  obtain t n n' where nic: "nic_stage c p s3 = (Inr (), s3\<lparr>pi_now_ns := t, pi_nic := n\<rparr>)" "unat t = unat (pi_now_ns s3) + nic_cost c"
      "Cx5Nic_rx_burst n 32 = ([p], n')" "nic_quiet (pc_nic c) n'"
    by (rule nic_stage_time [OF assms(1) s3])
  have "receive (pi_transport s) = (Inr (Some p), (pi_transport s)\<lparr>inbox := []\<rparr>)" using assms(2) by (simp add: receive_def)
  then obtain tr where host: "host_stage clock c p tid s =
      deliver_all clock c (sid (stream_id p)) (seqno (sequence p)) tid [p] (s3\<lparr>pi_now_ns := t, pi_tracer := tr, pi_nic := n'\<rparr>)"
    using nic(1,3) by (simp add: host_stage_def s3_def [symmetric] Let_def)
  let ?s4 = "s3\<lparr>pi_now_ns := t, pi_tracer := tr, pi_nic := n'\<rparr>"
  have s4: "ring_quiet (pc_ring c) (pi_ring ?s4)" "pi_cuda ?s4 = None" "unat (pi_now_ns ?s4) + kernel_cost c < 2 ^ 64"
    using assms(4,5,7) nic(2) by (simp_all add: s3_def)
  obtain s' where s': "deliver_one clock c (sid (stream_id p)) (seqno (sequence p)) tid p ?s4 = (Inr (), s')"
    "ring_quiet (pc_ring c) (pi_ring s')" "pi_cuda s' = None"
    "pi_transport s' = pi_transport ?s4" "pi_nic s' = pi_nic ?s4" "drops s' = drops ?s4" "pi_packets s' = pi_packets ?s4 + 1"
    "unat (pi_now_ns s') = unat (pi_now_ns ?s4) + kernel_cost c"
    "pi_latencies s' = pi_latencies ?s4 @ [sat_sub (pi_now_ns s') (tstamp (timestamp p))]"
    "pi_symbol_miss s' = pi_symbol_miss ?s4
       + (if latency_budget_ns (pc_profile c) < sat_sub (pi_now_ns s') (tstamp (timestamp p)) then 1 else 0)"
    by (rule deliver_one_time [OF assms(1) s4(1,2) assms(6) s4(3)])
  show ?thesis by (rule that [of s']) (use host s' nic(2,4) in \<open>simp_all add: s3_def\<close>)
qed

section \<open>One packet\<close>

text \<open>
  The pipeline between two packets of a run without faults: all queues are empty, no packet was late or out of
  sequence, and the transport expects the numbers \<open>expect\<close>.
\<close>

definition quiet :: "StreamId set \<Rightarrow> PipeConfig \<Rightarrow> (StreamId \<Rightarrow> u64) \<Rightarrow> Pipe \<Rightarrow> bool" where
  "quiet K c expect s \<longleftrightarrow>
     transport_ready K (pi_transport s) \<and> tc_max_latency_ns (ts (pi_transport s)) = max_latency_ns (pc_deadline c)
     \<and> nic_quiet (pc_nic c) (pi_nic s) \<and> ring_quiet (pc_ring c) (pi_ring s) \<and> pi_cuda s = None \<and> drops s = 0
     \<and> late_packets (pi_transport s) = 0 \<and> sequence_gaps (pi_transport s) = 0
     \<and> (\<forall>i\<in>K. expected_seq (seq (pi_transport s)) i = expect i)
     \<and> pi_packets s = of_nat (length (pi_latencies s))
     \<and> pi_symbol_miss s = of_nat (length (filter (\<lambda>e. latency_budget_ns (pc_profile c) < e) (pi_latencies s)))"

lemma process_one_time:
  assumes "ideal c" "quiet K c expect s" "stream_id p \<in> K" "seqno (sequence p) = expect (stream_id p)"
    and "length (payload p) = 8 * samples_per_symbol (pc_timing c)"
    and "max (unat (pi_now_ns s)) (unat (tstamp (timestamp p))) = unat (tstamp (timestamp p)) + a"
    and "a + wire_cost c \<le> unat (max_latency_ns (pc_deadline c))" "unat (tstamp (timestamp p)) + a + packet_cost c < 2 ^ 64"
  obtains s' where "process_one clock c p s = (Inr (), s')" "quiet K c (expect(stream_id p := seqno (sequence p) + 1)) s'"
    "unat (pi_now_ns s') = unat (tstamp (timestamp p)) + a + packet_cost c"
    "pi_latencies s' = pi_latencies s @ [word_of_nat (a + packet_cost c)]"
proof -
  let ?now = "arrival_ns c (pi_now_ns s) p" and ?t = "tstamp (timestamp p)"
  have "unat (max (pi_now_ns s) ?t) = unat ?t + a" using assms(6) by (simp add: max_def word_le_nat_alt split: if_splits)
  then have now: "unat ?now = unat ?t + a + wire_cost c"
    using assms(1,8) wire_ns_cost [OF assms(5)] by (simp add: arrival_ns_def unat_sat_add packet_cost_def)
  obtain tid tr where wire: "wire_stage c p s =
      (tid, s\<lparr>pi_now_ns := ?now, pi_tracer := tr, pi_transport := (pi_transport s)\<lparr>now_ns := ?now\<rparr>\<rparr>)"
    using wire_stage_effect by blast
  define s1 where "s1 = s\<lparr>pi_now_ns := ?now, pi_tracer := tr, pi_transport := (pi_transport s)\<lparr>now_ns := ?now\<rparr>\<rparr>"
  obtain r where "streams (pi_transport s) (stream_id p) = Some r" "rt_state r = Stream_Running"
    using assms(2,3) by (auto simp: quiet_def transport_ready_def)
  then have can: "can_ingest (pi_transport s1) p" using assms(2,7) now
    by (auto simp: can_ingest_def s1_def quiet_def transport_ready_def)
  have "seqno (sequence p) = expected_seq (seq (pi_transport s1)) (stream_id p)" using assms(2-4) by (simp add: s1_def quiet_def)
  note acc = ingest_accept [OF can this]
  define s2 where "s2 = s1\<lparr>pi_transport := (pi_transport s1)\<lparr>seq := resync (seq (pi_transport s1)) (stream_id p) (seqno (sequence p) + 1), inbox := [p]\<rparr>\<rparr>"
  have stage: "transport_stage clock p s1 = (Inr True, s2)"
    using acc assms(2) by (simp add: transport_stage_def s2_def s1_def quiet_def transport_ready_def)
  have s2: "inbox (pi_transport s2) = [p]" "nic_quiet (pc_nic c) (pi_nic s2)" "ring_quiet (pc_ring c) (pi_ring s2)" "pi_cuda s2 = None"
    "unat (pi_now_ns s2) + nic_cost c + kernel_cost c < 2 ^ 64"
    using assms(2,8) now by (simp_all add: s2_def s1_def quiet_def packet_cost_def)
  obtain s' where s': "host_stage clock c p tid s2 = (Inr (), s')" "ring_quiet (pc_ring c) (pi_ring s')" "pi_cuda s' = None"
    "pi_transport s' = (pi_transport s2)\<lparr>inbox := []\<rparr>" "nic_quiet (pc_nic c) (pi_nic s')" "drops s' = drops s2"
    "pi_packets s' = pi_packets s2 + 1" "unat (pi_now_ns s') = unat (pi_now_ns s2) + nic_cost c + kernel_cost c"
    "pi_latencies s' = pi_latencies s2 @ [sat_sub (pi_now_ns s') ?t]"
    "pi_symbol_miss s' = pi_symbol_miss s2 + (if latency_budget_ns (pc_profile c) < sat_sub (pi_now_ns s') ?t then 1 else 0)"
    by (rule host_stage_time [OF assms(1) s2(1-4) assms(5) s2(5)])
  have "unat (word_of_nat (a + packet_cost c) :: u64) = a + packet_cost c" using assms(8) by (simp add: unat_of_nat del: of_nat_add)
  moreover have "unat (sat_sub (pi_now_ns s') ?t) = a + packet_cost c"
    using s'(8) now by (simp add: unat_sat_sub_exact s2_def s1_def packet_cost_def)
  ultimately have e: "sat_sub (pi_now_ns s') ?t = word_of_nat (a + packet_cost c)" by (simp only: word_unat_eq_iff)
  show ?thesis
  proof (rule that)
    show "process_one clock c p s = (Inr (), s')" using stage s'(1) by (simp add: process_one_def wire s1_def [symmetric])
    show "unat (pi_now_ns s') = unat ?t + a + packet_cost c" using s'(8) now by (simp add: s2_def s1_def packet_cost_def)
    show "pi_latencies s' = pi_latencies s @ [word_of_nat (a + packet_cost c)]" using s'(9) e by (simp add: s2_def s1_def)
    show "quiet K c (expect(stream_id p := seqno (sequence p) + 1)) s'"
      using assms(2) s'(2-7,9,10) by (simp add: quiet_def transport_ready_def s2_def s1_def resync_def)
  qed
qed

section \<open>Rounds of symbols\<close>

lemma push_disabled: "\<not> enabled (fi_cfg fi) \<Longrightarrow> held fi = None \<Longrightarrow> push fi p = ([p], fi)"
  by (simp add: push_def mutate_packet_def should_drop_def should_drop_deterministic_def should_drop_burst_def tick_hold_def Let_def)

lemma quiet_cong: "quiet K c f s \<Longrightarrow> (\<And>i. i \<in> K \<Longrightarrow> f i = g i) \<Longrightarrow> quiet K c g s"
  by (simp add: quiet_def)

abbreviation symbol_ns :: "PipeConfig \<Rightarrow> nat" where
  "symbol_ns c \<equiv> unat (symbol_duration_ns (pc_timing c))"

lemma symbol_time: "k * symbol_ns c < 2 ^ 64 \<Longrightarrow> unat (tg_ns (tg_spec (pc_timing c) k)) = k * symbol_ns c"
  using tg_spec_values(4) [of "pc_timing c" k] by simp

lemma symbol_round_time:
  assumes ideal: "ideal c" and fi: "fi_cfg fi = pc_fault c" "held fi = None"
    and "quiet K c expect s" "set is \<subseteq> K" "distinct is" "\<forall>i\<in>set is. expect i = word_of_nat k"
    and "max (unat (pi_now_ns s)) (k * symbol_ns c) = k * symbol_ns c + j * packet_cost c"
    and "(j + length is) * packet_cost c + wire_cost c \<le> unat (max_latency_ns (pc_deadline c)) + packet_cost c"
    and "k * symbol_ns c + (j + length is) * packet_cost c < 2 ^ 64"
  shows "\<exists>s'. symbol_round clock cos32 sin32 c (fpgas_at c is k) fi s = (Inr (fpgas_at c is (Suc k), fi), s')
    \<and> quiet K c (\<lambda>i. if i \<in> set is then word_of_nat (Suc k) else expect i) s'
    \<and> max (unat (pi_now_ns s')) (k * symbol_ns c) = k * symbol_ns c + (j + length is) * packet_cost c
    \<and> pi_latencies s' = pi_latencies s @ map (\<lambda>m. word_of_nat (m * packet_cost c)) [Suc j..<Suc (j + length is)]"
  using assms(4-)
proof (induction "is" arbitrary: expect s j)
  case Nil
  then show ?case by simp
next
  case (Cons i js)
  let ?p = "emitted cos32 sin32 (pc_timing c) i k" and ?T = "k * symbol_ns c" and ?D = "packet_cost c"
  have T: "unat (tstamp (timestamp ?p)) = ?T" using symbol_time [of k c] Cons.prems(7) by simp
  have le: "(Suc j + length js) * ?D = j * ?D + ?D + length js * ?D" by (simp add: algebra_simps)
  have first: "stream_id ?p \<in> K" "seqno (sequence ?p) = expect (stream_id ?p)" "length (payload ?p) = 8 * samples_per_symbol (pc_timing c)"
    "max (unat (pi_now_ns s)) (unat (tstamp (timestamp ?p))) = unat (tstamp (timestamp ?p)) + j * ?D"
    "j * ?D + wire_cost c \<le> unat (max_latency_ns (pc_deadline c))" "unat (tstamp (timestamp ?p)) + j * ?D + ?D < 2 ^ 64"
    using Cons.prems T le by simp_all
  obtain s1 where s1: "process_one clock c ?p s = (Inr (), s1)" "quiet K c (expect(stream_id ?p := seqno (sequence ?p) + 1)) s1"
    "unat (pi_now_ns s1) = unat (tstamp (timestamp ?p)) + j * ?D + ?D" "pi_latencies s1 = pi_latencies s @ [word_of_nat (j * ?D + ?D)]"
    by (rule process_one_time [OF ideal Cons.prems(1) first])
  have "\<exists>s'. symbol_round clock cos32 sin32 c (fpgas_at c js k) fi s1 = (Inr (fpgas_at c js (Suc k), fi), s')
      \<and> quiet K c (\<lambda>x. if x \<in> set js then word_of_nat (Suc k) else (expect(stream_id ?p := seqno (sequence ?p) + 1)) x) s'
      \<and> max (unat (pi_now_ns s')) ?T = ?T + (Suc j + length js) * ?D
      \<and> pi_latencies s' = pi_latencies s1 @ map (\<lambda>m. word_of_nat (m * ?D)) [Suc (Suc j)..<Suc (Suc j + length js)]"
    using Cons.prems s1(2,3) T by (intro Cons.IH) (auto simp: fun_upd_def)
  then obtain s2 where s2: "symbol_round clock cos32 sin32 c (fpgas_at c js k) fi s1 = (Inr (fpgas_at c js (Suc k), fi), s2)"
      "quiet K c (\<lambda>x. if x \<in> set js then word_of_nat (Suc k) else (expect(stream_id ?p := seqno (sequence ?p) + 1)) x) s2"
      "max (unat (pi_now_ns s2)) ?T = ?T + (Suc j + length js) * ?D"
      "pi_latencies s2 = pi_latencies s1 @ map (\<lambda>m. word_of_nat (m * ?D)) [Suc (Suc j)..<Suc (Suc j + length js)]" by blast
  have "push fi ?p = ([?p], fi)" using fi ideal by (intro push_disabled) (simp_all add: ideal_def)
  then have "symbol_round clock cos32 sin32 c (fpgas_at c (i # js) k) fi s = (Inr (fpgas_at c (i # js) (Suc k), fi), s2)"
    using s1(1) s2(1) by (simp add: emit_symbol_after)
  moreover have "quiet K c (\<lambda>x. if x \<in> set (i # js) then word_of_nat (Suc k) else expect x) s2"
    using s2(2) by (rule quiet_cong) (simp add: add.commute)
  moreover have "[Suc j..<Suc (j + length (i # js))] = Suc j # [Suc (Suc j)..<Suc (Suc j + length js)]" by (simp add: upt_conv_Cons del: upt_Suc)
  then have "pi_latencies s2 = pi_latencies s @ map (\<lambda>m. word_of_nat (m * ?D)) [Suc j..<Suc (j + length (i # js))]"
    using s2(4) s1(4) by (simp add: algebra_simps del: upt_Suc)
  ultimately show ?case using s2(3) by (auto simp del: upt_Suc)
qed

lemma symbol_rounds_time:
  assumes ideal: "ideal c" and fi: "fi_cfg fi = pc_fault c" "held fi = None" and streams: "distinct is"
    and fits: "length is * packet_cost c \<le> symbol_ns c"
      "length is * packet_cost c + wire_cost c \<le> unat (max_latency_ns (pc_deadline c)) + packet_cost c"
    and "quiet (set is) c (\<lambda>_. word_of_nat k) s" "unat (pi_now_ns s) \<le> k * symbol_ns c"
    and "(k + n) * symbol_ns c + length is * packet_cost c < 2 ^ 64"
  shows "\<exists>s'. symbol_rounds clock cos32 sin32 c n (fpgas_at c is k) fi s = (Inr (fpgas_at c is (k + n), fi), s')
    \<and> quiet (set is) c (\<lambda>_. word_of_nat (k + n)) s'
    \<and> pi_latencies s' = pi_latencies s @ concat (replicate n (map (\<lambda>m. word_of_nat (m * packet_cost c)) [1..<Suc (length is)]))"
  using assms(7-)
proof (induction n arbitrary: k s)
  case 0
  then show ?case by simp
next
  case (Suc n)
  let ?D = "packet_cost c" and ?L = "map (\<lambda>m. word_of_nat (m * packet_cost c)) [1..<Suc (length is)]"
  have bound: "Suc (k + n) * symbol_ns c + length is * ?D < 2 ^ 64" "k * symbol_ns c \<le> Suc (k + n) * symbol_ns c"
    using Suc.prems(3) by (simp, intro mult_le_mono1) simp
  have "\<exists>s'. symbol_round clock cos32 sin32 c (fpgas_at c is k) fi s = (Inr (fpgas_at c is (Suc k), fi), s')
    \<and> quiet (set is) c (\<lambda>i. if i \<in> set is then word_of_nat (Suc k) else word_of_nat k) s'
    \<and> max (unat (pi_now_ns s')) (k * symbol_ns c) = k * symbol_ns c + (0 + length is) * ?D
    \<and> pi_latencies s' = pi_latencies s @ map (\<lambda>m. word_of_nat (m * ?D)) [Suc 0..<Suc (0 + length is)]"
    using fits Suc.prems bound by (intro symbol_round_time ideal fi streams) auto
  then obtain s1 where s1: "symbol_round clock cos32 sin32 c (fpgas_at c is k) fi s = (Inr (fpgas_at c is (Suc k), fi), s1)"
    "quiet (set is) c (\<lambda>i. if i \<in> set is then word_of_nat (Suc k) else word_of_nat k) s1"
    "max (unat (pi_now_ns s1)) (k * symbol_ns c) = k * symbol_ns c + length is * ?D" "pi_latencies s1 = pi_latencies s @ ?L"
    by (auto simp del: upt_Suc)
  have "quiet (set is) c (\<lambda>_. word_of_nat (Suc k)) s1" using s1(2) by (rule quiet_cong) simp
  moreover have "unat (pi_now_ns s1) \<le> Suc k * symbol_ns c" using s1(3) fits(1) by simp
  moreover have "(Suc k + n) * symbol_ns c + length is * ?D < 2 ^ 64" using bound(1) by simp
  ultimately show ?case using Suc.IH [of "Suc k" s1] s1(1,4) by (auto simp del: upt_Suc)
qed

section \<open>The run and its report\<close>

lemma setup_streams_numbers:
  "setup_streams c ss t = (Inr fs, t') \<Longrightarrow>
     sequence_gaps t' = sequence_gaps t \<and> (\<forall>i. expected_seq (seq t') i = expected_seq (seq t) i)"
proof (induction ss arbitrary: t fs)
  case (Cons s ss)
  then show ?case
    by (auto simp: create_stream_def start_stream_def set_stream_state_def Let_def split: if_splits option.splits sum.splits prod.splits)
qed simp

lemma start_quiet:
  assumes "ideal c" "link_up (Sim_new (pc_deadline c)) = (Inr u, t0)"
  shows "\<exists>t. setup_streams c (stream_numbers c) t0 = (Inr (fpgas_at c (map StreamId (stream_numbers c)) 0), t)
    \<and> quiet (set (map StreamId (stream_numbers c))) c (\<lambda>_. word_of_nat 0) (initial_pipe c t events)"
proof -
  have "cuda_ok c (pc_gpu c)" using assms(1) by (simp add: ideal_def cuda_ok_def)
  from start_ok [OF assms(2) this, of events] obtain t where
    t: "setup_streams c (stream_numbers c) t0 = (Inr (fpgas_at c (map StreamId (stream_numbers c)) 0), t)"
      "run_ok (StreamId ` set (stream_numbers c)) c (FaultInjector_new (pc_fault c)) (initial_pipe c t events)"
      "accounted (FaultInjector_new (pc_fault c)) (initial_pipe c t events) = 0" by blast
  have t0: "sequence_gaps t0 = 0" "expected_seq (seq t0) i = 0" for i
    using assms by (auto simp: link_up_def Sim_new_def SequenceChecker_from_config_def SequenceChecker_new_def expected_seq_def ideal_def)
  have "late_packets t = 0" using t(3) by (simp add: accounted_def initial_pipe_def FaultInjector_new_def Let_def)
  moreover have "sequence_gaps t = 0" "expected_seq (seq t) i = 0" for i
    using setup_streams_numbers [OF t(1)] t0 by simp_all
  ultimately have "quiet (set (map StreamId (stream_numbers c))) c (\<lambda>_. word_of_nat 0) (initial_pipe c t events)"
    using t(2) assms(1) by (simp add: quiet_def run_ok_def pipe_ok_def initial_pipe_def ideal_def Let_def)
  then show ?thesis using t(1) by blast
qed

definition ideal_latencies :: "PipeConfig \<Rightarrow> u64 list" where
  "ideal_latencies c =
     concat (replicate (unat (symbol_count (pc_profile c)))
       (map (\<lambda>j. word_of_nat (j * packet_cost c)) [1..<Suc (unat (max (bp_streams (pc_profile c)) 1))]))"

definition in_time :: "PipeConfig \<Rightarrow> bool" where
  "in_time c \<longleftrightarrow>
     (let S = unat (max (bp_streams (pc_profile c)) 1); n = unat (symbol_count (pc_profile c)) in
      S * packet_cost c \<le> symbol_ns c
      \<and> S * packet_cost c + wire_cost c \<le> unat (max_latency_ns (pc_deadline c)) + packet_cost c
      \<and> n * symbol_ns c + S * packet_cost c < 2 ^ 64)"

lemma length_ideal_latencies:
  "word_of_nat (length (ideal_latencies c)) = symbol_count (pc_profile c) * ucast (max (bp_streams (pc_profile c)) 1)"
  by (simp add: ideal_latencies_def length_concat sum_list_replicate del: upt_Suc)

lemma run_ideal:
  assumes "to_ascii_lowercase (gpu_backend (pc_profile c)) \<noteq> ''cuda''" "create_log (bp_events_path (pc_profile c)) = Inr events"
    and "ideal c" "in_time c"
  shows "\<exists>s. run clock cos32 sin32 create_log c = Inr (make_report s, pi_metrics s) \<and> pi_latencies s = ideal_latencies c
    \<and> pi_packets s = word_of_nat (length (ideal_latencies c)) \<and> drops s = 0
    \<and> late_packets (pi_transport s) = 0 \<and> sequence_gaps (pi_transport s) = 0
    \<and> pi_symbol_miss s = word_of_nat (length (filter (\<lambda>e. latency_budget_ns (pc_profile c) < e) (ideal_latencies c)))"
proof -
  let ?is = "map StreamId (stream_numbers c)" and ?n = "unat (symbol_count (pc_profile c))" and ?fi = "FaultInjector_new (pc_fault c)"
  obtain t0 where t0: "link_up (Sim_new (pc_deadline c)) = (Inr (), t0)" by (simp add: link_up_def)
  obtain t where t: "setup_streams c (stream_numbers c) t0 = (Inr (fpgas_at c ?is 0), t)"
      "quiet (set ?is) c (\<lambda>_. word_of_nat 0) (initial_pipe c t events)"
    using start_quiet [OF assms(3) t0] by blast
  have len: "length ?is = unat (max (bp_streams (pc_profile c)) 1)" "distinct ?is"
    using stream_numbers_props [of c] by (simp_all add: distinct_map inj_on_def)
  have fi: "fi_cfg ?fi = pc_fault c" "held ?fi = None" "fi_dropped ?fi = 0" by (simp_all add: FaultInjector_new_def)
  have now: "unat (pi_now_ns (initial_pipe c t events)) \<le> 0 * symbol_ns c" "pi_latencies (initial_pipe c t events) = []"
    by (simp_all add: initial_pipe_def Let_def)
  have "\<exists>s'. symbol_rounds clock cos32 sin32 c ?n (fpgas_at c ?is 0) ?fi (initial_pipe c t events) = (Inr (fpgas_at c ?is (0 + ?n), ?fi), s')
    \<and> quiet (set ?is) c (\<lambda>_. word_of_nat (0 + ?n)) s'
    \<and> pi_latencies s' = pi_latencies (initial_pipe c t events)
        @ concat (replicate ?n (map (\<lambda>m. word_of_nat (m * packet_cost c)) [1..<Suc (length ?is)]))"
    using assms(4) len unfolding in_time_def Let_def
    by (intro symbol_rounds_time [OF assms(3) fi(1,2) len(2) _ _ t(2) now(1)]) simp_all
  then obtain s where s: "symbol_rounds clock cos32 sin32 c ?n (fpgas_at c ?is 0) ?fi (initial_pipe c t events) = (Inr (fpgas_at c ?is ?n, ?fi), s)"
      "quiet (set ?is) c (\<lambda>_. word_of_nat ?n) s" "pi_latencies s = ideal_latencies c"
    using len(1) now(2) by (auto simp: ideal_latencies_def simp del: upt_Suc)
  have flush: "flush_loop clock c ?fi s = (Inr ?fi, s)"
    by (subst flush_loop.simps) (simp add: flush_def FaultInjector_new_def)
  have drops: "account_drops clock ?fi s = s" using fi(3) by (simp add: account_drops_def)
  have "run clock cos32 sin32 create_log c = Inr (make_report s, pi_metrics s)"
    unfolding run_def using assms(1,2) t0 t(1) s(1) flush drops by (simp add: Let_def)
  then show ?thesis using s(2,3) by (auto simp: quiet_def)
qed

lemma ideal_latency_ends:
  assumes "in_time c" "0 < symbol_count (pc_profile c)"
  shows "min_ns (from_sorted_ns (sort (ideal_latencies c))) = word_of_nat (packet_cost c)"
    "max_ns (from_sorted_ns (sort (ideal_latencies c))) = word_of_nat (unat (max (bp_streams (pc_profile c)) 1) * packet_cost c)"
proof -
  let ?S = "unat (max (bp_streams (pc_profile c)) 1)" and ?f = "\<lambda>j. word_of_nat (j * packet_cost c) :: u64"
  have "1 \<le> max (bp_streams (pc_profile c)) 1" by simp
  then have S: "1 \<le> ?S" by (simp add: word_le_nat_alt)
  have n: "unat (symbol_count (pc_profile c)) \<noteq> 0" using assms(2) by (simp add: unat_eq_zero word_neq_0_conv)
  have set: "set (ideal_latencies c) = ?f ` {1..?S}"
    using n by (auto simp: ideal_latencies_def atLeastLessThanSuc_atLeastAtMost simp del: upt_Suc)
  have unat: "unat (?f j) = j * packet_cost c" if "j \<le> ?S" for j
  proof -
    have "j * packet_cost c \<le> ?S * packet_cost c" using that by (rule mult_le_mono1)
    also have "\<dots> < 2 ^ 64" using assms(1) by (simp add: in_time_def Let_def)
    finally show ?thesis by (simp add: unat_of_nat del: of_nat_mult)
  qed
  have le: "?f i \<le> ?f j" if "i \<le> j" "j \<le> ?S" for i j
    using that unat [of i] unat [of j] by (simp add: word_le_nat_alt del: of_nat_mult)
  have ends: "?f 1 \<in> ?f ` {1..?S}" "?f ?S \<in> ?f ` {1..?S}" using S by (intro imageI; simp)+
  then have ne: "sort (ideal_latencies c) \<noteq> []" using set by (metis empty_iff empty_set set_sort)
  note first_last = sorted_list_ends [OF sorted_sort ne]
  have "Min (?f ` {1..?S}) = ?f 1"
  proof (rule Min_eqI)
    show "?f 1 \<le> y" if "y \<in> ?f ` {1..?S}" for y using that le [of 1] by (auto simp del: of_nat_mult mult_1 mult_1s One_nat_def)
  qed (use ends in simp_all)
  then show "min_ns (from_sorted_ns (sort (ideal_latencies c))) = word_of_nat (packet_cost c)"
    using first_last(1) ne set by (simp add: from_sorted_ns_def)
  have "Max (?f ` {1..?S}) = ?f ?S"
  proof (rule Max_eqI)
    show "y \<le> ?f ?S" if "y \<in> ?f ` {1..?S}" for y using that le by (auto simp del: of_nat_mult)
  qed (use ends in simp_all)
  then show "max_ns (from_sorted_ns (sort (ideal_latencies c))) = word_of_nat (?S * packet_cost c)"
    using first_last(2) ne set by (simp add: from_sorted_ns_def)
qed

text \<open>
  C2: the bench without faults.  If no fault is configured, the simulated ring takes the symbols, the NIC
  has at least one receive descriptor, the streams start at sequence number 0, there is at least one symbol, the event file
  can be created, and the pipeline keeps up (the packets of all streams of one symbol pass within the duration of a symbol, the last one
  reaches the transport before the deadline, and the simulated time stays below 2 to the 64), then the report of the
  run is known: every symbol of every stream is delivered, none is late, dropped or out of sequence; the packet of
  the \<open>j\<close>-th stream takes \<open>j\<close> times the cost of one packet (wire, DMA and kernel), so the smallest latency is that cost
  and the largest the number of streams times it; and the symbols that miss the budget are exactly those above it.
\<close>

theorem bench_without_faults:
  assumes "to_ascii_lowercase (gpu_backend (pc_profile c)) \<noteq> ''cuda''" "create_log (bp_events_path (pc_profile c)) = Inr events"
    and "ideal c" "in_time c" "0 < symbol_count (pc_profile c)"
  shows "\<exists>report m. run clock cos32 sin32 create_log c = Inr (report, m)
    \<and> br_packets report = symbol_count (pc_profile c) * ucast (max (bp_streams (pc_profile c)) 1)
    \<and> br_late_packets report = 0 \<and> br_sequence_gaps report = 0 \<and> drop_count (transport (layered m)) = 0
    \<and> br_latency report = from_sorted_ns (sort (ideal_latencies c))
    \<and> min_ns (br_latency report) = word_of_nat (packet_cost c)
    \<and> max_ns (br_latency report) = word_of_nat (unat (max (bp_streams (pc_profile c)) 1) * packet_cost c)
    \<and> rds_symbol_miss (br_radio report)
        = word_of_nat (length (filter (\<lambda>e. latency_budget_ns (pc_profile c) < e) (ideal_latencies c)))"
proof -
  obtain s where "run clock cos32 sin32 create_log c = Inr (make_report s, pi_metrics s)" "pi_latencies s = ideal_latencies c"
    "pi_packets s = word_of_nat (length (ideal_latencies c))" "drops s = 0"
    "late_packets (pi_transport s) = 0" "sequence_gaps (pi_transport s) = 0"
    "pi_symbol_miss s = word_of_nat (length (filter (\<lambda>e. latency_budget_ns (pc_profile c) < e) (ideal_latencies c)))"
    using run_ideal [where c = c and create_log = create_log, OF assms(1-4)] by blast
  then show ?thesis using ideal_latency_ends [OF assms(4,5)] length_ideal_latencies [of c]
    by (simp add: make_report_def Let_def)
qed

text \<open>
  The numbers of the configuration files of the repository, with the eight symbols of two streams of the bench's
  own test.  A symbol of 512 bytes takes 40 ns on the wire, 1000 ns to arrive, 2000 ns of DMA and 1000 ns of kernel.
\<close>

definition repo_bench :: PipeConfig where
  "repo_bench = \<lparr>pc_profile = sample_profile\<lparr>latency_budget_ns := 10000\<rparr>,
     pc_timing = sample_timing\<lparr>symbol_duration_ns := 714286, samples_per_symbol := 64\<rparr>, pc_eth = sample_ethernet,
     pc_deadline = sample_deadline\<lparr>max_latency_ns := 10000, start_sequence := 0\<rparr>,
     pc_nic = sample_nic_config\<lparr>nic_dma_latency_us := f64_lit 2, rx_queue_depth := 1024, tx_queue_depth := 1024,
       completion_queue_depth := 1024\<rparr>,
     pc_ring = sample_ring_config\<lparr>slot_count := 8, cfg_slot_bytes := 4096, gr_kernel_delay_us := f64_lit 1\<rparr>,
     pc_fault = (sample_fault 0)\<lparr>enabled := False\<rparr>, pc_trace_enabled = True, pc_trace_capacity = 16, pc_trace_path = ''traces.jsonl'',
     pc_recovery = None, pc_cuda_feature = False, pc_gpu = None\<rparr>"

lemma rnd_seconds_512: "rnd f64_format (1 / 24414062500000 * 1000000) = Fin (6189700196426901 * pow2 (- 77))"
  using rnd_f64_certificate [of "- 25" "4096 / 100000000000" 6189700196426901] by (simp add: pow2_def)

lemma rnd_ns_512: "rnd f64_format (6189700196426901 * pow2 (- 77) * 1000000000) = Fin (5764607523034235 * pow2 (- 47))"
  using rnd_f64_certificate [of 5 "6189700196426901 * pow2 (- 77) * 1000000000" 5764607523034235] by (simp add: pow2_def)

lemma serialize_delay_512: "serialize_delay_ns sample_ethernet 512 = 40"
proof -
  have bits: "f64_mul (f64_of_nat 512) (Fin 8) = Fin 4096" by (simp add: f64_of_nat_exact)
  have div: "f64_mul (Fin 100) (Fin 1000000000) = Fin 100000000000" by simp
  have sec: "f64_div (Fin 4096) (Fin 100000000000) = Fin (6189700196426901 * pow2 (- 77))" using rnd_seconds_512 by simp
  have ns: "f64_mul (Fin (6189700196426901 * pow2 (- 77))) (Fin 1000000000) = Fin (5764607523034235 * pow2 (- 47))"
    by (simp only: f_mul.simps rnd_ns_512)
  have "\<lfloor>5764607523034235 * pow2 (- 47)\<rfloor> = 40" by (simp add: floor_eq_iff pow2_def)
  moreover have "\<not> 18446744073709551616 \<le> 5764607523034235 * pow2 (- 47)" "\<not> pow2 (- 47) \<le> 0" by (simp_all add: pow2_def)
  ultimately have whole: "f_to_u64 (Fin (5764607523034235 * pow2 (- 47))) = 40" by simp
  show ?thesis
    unfolding serialize_delay_ns_def sample_ethernet_def Let_def
    by (simp only: EthernetModelConfig.simps rnd_f64_numeral, simp del: f_mul.simps f_div.simps f_to_u64.simps add: bits div sec ns whole)
qed

lemma repo_costs: "wire_cost repo_bench = 1040" "packet_cost repo_bench = 4040"
proof -
  have eth: "pc_eth repo_bench = sample_ethernet" "include_ethernet_delay (pc_profile repo_bench)" "samples_per_symbol (pc_timing repo_bench) = 64"
    by (simp_all add: repo_bench_def sample_profile_def)
  show wire: "wire_cost repo_bench = 1040"
    unfolding wire_cost_def eth using eth serialize_delay_512 by (simp add: wire_delay_ns_def sample_ethernet_def sat_add_def)
  have "nic_cost repo_bench = 2000" "kernel_cost repo_bench = 1000"
    by (simp_all add: nic_cost_def kernel_cost_def repo_bench_def sample_profile_def dma_latency_ns_def cfg_kernel_delay_ns_def)
  then show "packet_cost repo_bench = 4040" using wire by (simp add: packet_cost_def)
qed

lemma repo_bench_ideal: "ideal repo_bench"
  by (simp add: ideal_def gpu_fits_def repo_bench_def sample_profile_def)

lemma repo_bench_in_time: "in_time repo_bench"
  unfolding in_time_def Let_def repo_costs by (simp add: repo_bench_def sample_profile_def)

lemma repo_bench_numbers:
  "symbol_count (pc_profile repo_bench) = 8" "bp_streams (pc_profile repo_bench) = 2"
  "latency_budget_ns (pc_profile repo_bench) = 10000"
  by (simp_all add: repo_bench_def sample_profile_def)

lemma repo_bench_latencies: "ideal_latencies repo_bench = concat (replicate 8 [4040, 8080])"
  unfolding ideal_latencies_def repo_costs repo_bench_numbers by (simp add: upt_rec)

text \<open>
  The bench's own test as the instance: 16 symbols delivered, latencies of 4040 and 8080 ns, and no symbol above the
  budget of 10000 ns.
\<close>

theorem bench_without_faults_witness:
  "\<exists>report m. run (\<lambda>_. 0) (\<lambda>x. x) (\<lambda>x. x) (\<lambda>p. Inr \<lparr>ev_log = [], ev_path = p\<rparr>) repo_bench = Inr (report, m)
    \<and> br_packets report = 16 \<and> br_late_packets report = 0 \<and> br_sequence_gaps report = 0 \<and> drop_count (transport (layered m)) = 0
    \<and> min_ns (br_latency report) = 4040 \<and> max_ns (br_latency report) = 8080 \<and> rds_symbol_miss (br_radio report) = 0"
  using bench_without_faults [of repo_bench "\<lambda>p. Inr \<lparr>ev_log = [], ev_path = p\<rparr>", OF _ _ repo_bench_ideal repo_bench_in_time,
      of _ "\<lambda>_. 0" "\<lambda>x. x" "\<lambda>x. x"]
  unfolding repo_bench_latencies repo_bench_numbers repo_costs
  by (fastforce simp: repo_bench_def sample_profile_def to_ascii_lowercase_def)

end
