(* ===== verification/Ops_Config.thy ===== *)
theory Ops_Config
  imports Ops
begin

text \<open>
  The configuration of the operations plane: \<^verbatim>\<open>metrics-engine/src/config.rs\<close> and the loaders of
  \<^verbatim>\<open>health.rs\<close> and \<^verbatim>\<open>recovery.rs\<close>.  A YAML document is the record of the fields it has; the parser that
  produces it and the file system are parameters.  Absent fields are filled in as the \<^verbatim>\<open>serde\<close> attributes
  of the structs say.
\<close>

section \<open>Definitions\<close>

subsection \<open>The structs\<close>

record MetricsExportConfig =
  mx_enabled :: bool
  export_json :: bool
  export_prometheus_text :: bool
  snapshot_interval_ms :: u64

record LoggingConfig =
  default_level :: string
  structured_jsonl :: bool
  log_events_path :: string
  elevate_on_degraded :: bool
  elevated_level :: string

record TraceConfig =
  tcf_enabled :: bool
  ring_capacity :: usize
  tcf_export_path :: string

record HealthRefConfig =
  health_policy_path :: string

record RecoveryRefConfig =
  recovery_policy_path :: string

record PrometheusScrapeRefConfig =
  prom_config_path :: string

record ObservabilityConfig =
  ob_version :: string
  ob_id :: string
  ob_metrics :: MetricsExportConfig
  ob_logging :: LoggingConfig
  ob_trace :: TraceConfig
  ob_health :: HealthRefConfig
  ob_recovery :: RecoveryRefConfig
  ob_prometheus_scrape :: PrometheusScrapeRefConfig

subsection \<open>The implementations of \<open>Default\<close>\<close>

definition MetricsExportConfig_default :: MetricsExportConfig where
  "MetricsExportConfig_default = \<lparr>mx_enabled = True, export_json = True, export_prometheus_text = False,
     snapshot_interval_ms = 1000\<rparr>"

definition LoggingConfig_default :: LoggingConfig where
  "LoggingConfig_default = \<lparr>default_level = ''INFO'', structured_jsonl = True,
     log_events_path = ''data/reports/ops_events.jsonl'', elevate_on_degraded = True, elevated_level = ''DEBUG''\<rparr>"

definition TraceConfig_default :: TraceConfig where
  "TraceConfig_default = \<lparr>tcf_enabled = False, ring_capacity = 4096,
     tcf_export_path = ''data/reports/traces/packet_traces.jsonl''\<rparr>"

definition HealthRefConfig_default :: HealthRefConfig where
  "HealthRefConfig_default = \<lparr>health_policy_path = ''configs/ops/health_policy.yaml''\<rparr>"

definition RecoveryRefConfig_default :: RecoveryRefConfig where
  "RecoveryRefConfig_default = \<lparr>recovery_policy_path = ''configs/ops/recovery_policy.yaml''\<rparr>"

definition PrometheusScrapeRefConfig_default :: PrometheusScrapeRefConfig where
  "PrometheusScrapeRefConfig_default = \<lparr>prom_config_path = ''configs/ops/prometheus_scrape.yaml''\<rparr>"

subsection \<open>The default functions of the fields\<close>

definition default_true :: bool where "default_true = True"

definition default_snapshot_ms :: u64 where "default_snapshot_ms = 1000"

definition default_info :: string where "default_info = ''INFO''"

definition default_debug :: string where "default_debug = ''DEBUG''"

definition default_events_path :: string where "default_events_path = ''data/reports/ops_events.jsonl''"

definition default_ring :: usize where "default_ring = 4096"

definition default_trace_path :: string where "default_trace_path = ''data/reports/traces/packet_traces.jsonl''"

definition default_health_path :: string where "default_health_path = ''configs/ops/health_policy.yaml''"

definition default_recovery_path :: string where "default_recovery_path = ''configs/ops/recovery_policy.yaml''"

definition default_prom_scrape_path :: string where "default_prom_scrape_path = ''configs/ops/prometheus_scrape.yaml''"

subsection \<open>Documents and how a struct is read from one\<close>

record MetricsExportDoc =
  md_enabled :: "bool option"
  md_export_json :: "bool option"
  md_export_prometheus_text :: "bool option"
  md_snapshot_interval_ms :: "u64 option"

record LoggingDoc =
  ld_default_level :: "string option"
  ld_structured_jsonl :: "bool option"
  ld_events_path :: "string option"
  ld_elevate_on_degraded :: "bool option"
  ld_elevated_level :: "string option"

record TraceDoc =
  td_enabled :: "bool option"
  td_ring_capacity :: "usize option"
  td_export_path :: "string option"

record ObservabilityDoc =
  od_version :: string
  od_id :: string
  od_metrics :: "MetricsExportDoc option"
  od_logging :: "LoggingDoc option"
  od_trace :: "TraceDoc option"
  od_health :: "string option option"
  od_recovery :: "string option option"
  od_prometheus_scrape :: "string option option"

definition MetricsExportConfig_of :: "MetricsExportDoc \<Rightarrow> MetricsExportConfig" where
  "MetricsExportConfig_of d = \<lparr>mx_enabled = or_default (md_enabled d) default_true,
     export_json = or_default (md_export_json d) default_true,
     export_prometheus_text = or_default (md_export_prometheus_text d) False,
     snapshot_interval_ms = or_default (md_snapshot_interval_ms d) default_snapshot_ms\<rparr>"

definition LoggingConfig_of :: "LoggingDoc \<Rightarrow> LoggingConfig" where
  "LoggingConfig_of d = \<lparr>default_level = or_default (ld_default_level d) default_info,
     structured_jsonl = or_default (ld_structured_jsonl d) default_true,
     log_events_path = or_default (ld_events_path d) default_events_path,
     elevate_on_degraded = or_default (ld_elevate_on_degraded d) default_true,
     elevated_level = or_default (ld_elevated_level d) default_debug\<rparr>"

definition TraceConfig_of :: "TraceDoc \<Rightarrow> TraceConfig" where
  "TraceConfig_of d = \<lparr>tcf_enabled = or_default (td_enabled d) False,
     ring_capacity = or_default (td_ring_capacity d) default_ring,
     tcf_export_path = or_default (td_export_path d) default_trace_path\<rparr>"

definition HealthRefConfig_of :: "string option \<Rightarrow> HealthRefConfig" where
  "HealthRefConfig_of d = \<lparr>health_policy_path = or_default d default_health_path\<rparr>"

definition RecoveryRefConfig_of :: "string option \<Rightarrow> RecoveryRefConfig" where
  "RecoveryRefConfig_of d = \<lparr>recovery_policy_path = or_default d default_recovery_path\<rparr>"

definition PrometheusScrapeRefConfig_of :: "string option \<Rightarrow> PrometheusScrapeRefConfig" where
  "PrometheusScrapeRefConfig_of d = \<lparr>prom_config_path = or_default d default_prom_scrape_path\<rparr>"

text \<open>An absent section is the \<open>Default\<close> of its struct; a present one is read field by field.\<close>

definition section_of :: "('d \<Rightarrow> 'c) \<Rightarrow> 'c \<Rightarrow> 'd option \<Rightarrow> 'c" where
  "section_of read d v = or_default (map_option read v) d"

definition ObservabilityConfig_of :: "ObservabilityDoc \<Rightarrow> ObservabilityConfig" where
  "ObservabilityConfig_of d = \<lparr>ob_version = od_version d, ob_id = od_id d,
     ob_metrics = section_of MetricsExportConfig_of MetricsExportConfig_default (od_metrics d),
     ob_logging = section_of LoggingConfig_of LoggingConfig_default (od_logging d),
     ob_trace = section_of TraceConfig_of TraceConfig_default (od_trace d),
     ob_health = section_of HealthRefConfig_of HealthRefConfig_default (od_health d),
     ob_recovery = section_of RecoveryRefConfig_of RecoveryRefConfig_default (od_recovery d),
     ob_prometheus_scrape = section_of PrometheusScrapeRefConfig_of PrometheusScrapeRefConfig_default (od_prometheus_scrape d)\<rparr>"

subsection \<open>Loaders\<close>

datatype OpsConfigError = OpsConfigError string

definition ObservabilityConfig_from_yaml_str ::
    "(string \<Rightarrow> string + ObservabilityDoc) \<Rightarrow> string \<Rightarrow> OpsConfigError + ObservabilityConfig" where
  "ObservabilityConfig_from_yaml_str yaml_parse s =
     map_err OpsConfigError (map_sum id ObservabilityConfig_of (yaml_parse s))"

definition ObservabilityConfig_load_path ::
    "(string \<Rightarrow> string + string) \<Rightarrow> (string \<Rightarrow> string + ObservabilityDoc) \<Rightarrow> string \<Rightarrow> OpsConfigError + ObservabilityConfig" where
  "ObservabilityConfig_load_path read_to_string yaml_parse path =
     and_then (map_err (\<lambda>e. OpsConfigError (''read: '' @ e)) (read_to_string path))
       (ObservabilityConfig_from_yaml_str yaml_parse)"

record HealthPolicyFile =
  hpf_version :: string
  hpf_id :: string
  hpf_thresholds :: HealthThresholds

datatype HealthError = HealthConfigError string

definition from_policy_yaml :: "(string \<Rightarrow> string + HealthPolicyFile) \<Rightarrow> string \<Rightarrow> HealthError + HealthThresholds" where
  "from_policy_yaml yaml_parse s =
     and_then (map_err HealthConfigError (yaml_parse s)) (\<lambda>file. Inr (hpf_thresholds file))"

definition HealthThresholds_load_path ::
    "(string \<Rightarrow> string + string) \<Rightarrow> (string \<Rightarrow> string + HealthPolicyFile) \<Rightarrow> string \<Rightarrow> HealthError + HealthThresholds" where
  "HealthThresholds_load_path read_to_string yaml_parse path =
     and_then (map_err (\<lambda>e. HealthConfigError (''read: '' @ e)) (read_to_string path)) (from_policy_yaml yaml_parse)"

definition RecoveryPolicy_load_path ::
    "(string \<Rightarrow> string + string) \<Rightarrow> (string \<Rightarrow> string + RecoveryPolicyFile) \<Rightarrow> string \<Rightarrow> RecoveryError + RecoveryPolicy" where
  "RecoveryPolicy_load_path read_to_string yaml_parse path =
     and_then (map_err (\<lambda>e. RecoveryConfigError (''read: '' @ e)) (read_to_string path))
       (RecoveryPolicy_from_yaml_str yaml_parse)"

section \<open>The two ways to leave something out\<close>

lemmas default_fn_defs = default_true_def default_snapshot_ms_def default_info_def default_debug_def
  default_events_path_def default_ring_def default_trace_path_def default_health_path_def
  default_recovery_path_def default_prom_scrape_path_def

lemmas section_defs = section_of_def MetricsExportConfig_of_def LoggingConfig_of_def TraceConfig_of_def
  HealthRefConfig_of_def RecoveryRefConfig_of_def PrometheusScrapeRefConfig_of_def MetricsExportConfig_default_def
  LoggingConfig_default_def TraceConfig_default_def HealthRefConfig_default_def RecoveryRefConfig_default_def
  PrometheusScrapeRefConfig_default_def default_fn_defs

definition empty_sections :: "ObservabilityDoc \<Rightarrow> ObservabilityDoc" where
  "empty_sections d = d\<lparr>od_metrics := Some \<lparr>md_enabled = None, md_export_json = None, md_export_prometheus_text = None,
       md_snapshot_interval_ms = None\<rparr>,
     od_logging := Some \<lparr>ld_default_level = None, ld_structured_jsonl = None, ld_events_path = None,
       ld_elevate_on_degraded = None, ld_elevated_level = None\<rparr>,
     od_trace := Some \<lparr>td_enabled = None, td_ring_capacity = None, td_export_path = None\<rparr>,
     od_health := Some None, od_recovery := Some None, od_prometheus_scrape := Some None\<rparr>"

definition no_sections :: "ObservabilityDoc \<Rightarrow> ObservabilityDoc" where
  "no_sections d = d\<lparr>od_metrics := None, od_logging := None, od_trace := None, od_health := None,
     od_recovery := None, od_prometheus_scrape := None\<rparr>"

text \<open>
  A document without the sections and a document with empty sections give the same configuration:
  the \<^verbatim>\<open>Default\<close> implementations and the default functions of the single fields, two copies of the same
  values in the source, agree.  In particular tracing is off and metrics are on.
\<close>

theorem defaults_agree:
  "ObservabilityConfig_of (empty_sections d) = ObservabilityConfig_of (no_sections d)
   \<and> mx_enabled (ob_metrics (ObservabilityConfig_of (no_sections d)))
   \<and> \<not> tcf_enabled (ob_trace (ObservabilityConfig_of (no_sections d)))"
  by (simp add: ObservabilityConfig_of_def empty_sections_def no_sections_def section_defs)

end
