(* ===== verification/Prometheus.thy ===== *)
theory Prometheus
  imports Ops
begin

text \<open>
  \<^verbatim>\<open>metrics-engine/src/prometheus.rs\<close>: the text exposition of the metrics, with the \<^verbatim>\<open>Display\<close> of floating
  point numbers it needs.  A scraper that reads the text back gets every metric with its value.
\<close>

section \<open>Printing floating point numbers\<close>

text \<open>
  \<^verbatim>\<open>Display for f64\<close> prints the shortest decimal that rounds to the number, without an exponent, and the
  closest of these.  \<open>log10_floor\<close> is the position of the leading digit.
\<close>

definition log10_floor :: "rat \<Rightarrow> int" where
  "log10_floor x =
     (if 1 \<le> x then int (length (show_nat (nat \<lfloor>x\<rfloor>))) - 1
      else - int (length (show_nat (nat (\<lceil>1 / x\<rceil> - 1)))))"

definition pow10 :: "int \<Rightarrow> rat" where
  "pow10 e = (if 0 \<le> e then 10 ^ nat e else 1 / 10 ^ nat (- e))"

text \<open>The candidates with digit unit \<open>10 ^ e\<close> that round to \<open>x\<close>, the closer one first.\<close>

definition decimals_at :: "rat \<Rightarrow> int \<Rightarrow> nat list" where
  "decimals_at x e =
     (let lo = nat \<lfloor>x / pow10 e\<rfloor>; hi = lo + 1;
          cs = (if x / pow10 e - of_nat lo \<le> of_nat hi - x / pow10 e then [lo, hi] else [hi, lo])
      in filter (\<lambda>d. rnd f64_format (of_nat d * pow10 e) = Fin x) cs)"

fun shortest_decimal :: "rat \<Rightarrow> int \<Rightarrow> nat \<Rightarrow> nat \<times> int" where
  "shortest_decimal x e 0 = (hd (decimals_at x e @ [nat \<lfloor>x / pow10 e\<rfloor>]), e)"
| "shortest_decimal x e (Suc n) =
     (case decimals_at x e of d # _ \<Rightarrow> (d, e) | [] \<Rightarrow> shortest_decimal x (e - 1) n)"

definition show_decimal :: "nat \<Rightarrow> int \<Rightarrow> string" where
  "show_decimal d e =
     (if 0 \<le> e then show_nat (d * 10 ^ nat e)
      else let m = nat (- e); frac = show_nat (d mod 10 ^ m)
           in show_nat (d div 10 ^ m) @ ''.'' @ replicate (m - length frac) (CHR ''0'') @ frac)"

fun show_f64 :: "f64 \<Rightarrow> string" where
  "show_f64 NaN = ''NaN''"
| "show_f64 PInf = ''inf''"
| "show_f64 NInf = ''-inf''"
| "show_f64 (Fin x) =
     (if x = 0 then ''0''
      else
        let (d, e) = shortest_decimal \<bar>x\<bar> (log10_floor \<bar>x\<bar>) 16
        in (if x < 0 then ''-'' else '''') @ show_decimal d e)"

section \<open>Definitions\<close>

definition label_char :: "char \<Rightarrow> bool" where
  "label_char c \<longleftrightarrow>
     (let n = of_char c :: nat in
      97 \<le> n \<and> n \<le> 122 \<or> 65 \<le> n \<and> n \<le> 90 \<or> 48 \<le> n \<and> n \<le> 57 \<or> n = 95 \<or> n = 45)"

text \<open>
  The source replaces scalar values, the model has their UTF-8 bytes: of a scalar value of several bytes the first
  becomes the underscore and the continuation bytes vanish.
\<close>

definition continuation_byte :: "char \<Rightarrow> bool" where
  "continuation_byte c \<longleftrightarrow> (let n = of_char c :: nat in 128 \<le> n \<and> n < 192)"

definition sanitize_label :: "string \<Rightarrow> string" where
  "sanitize_label s = map (\<lambda>c. if label_char c then c else CHR ''_'') (filter (\<lambda>c. \<not> continuation_byte c) s)"

text \<open>The two macros: the help line, the type line and the sample.\<close>

definition newline :: string where "newline = [CHR 0x0A]"

definition quote :: string where "quote = [CHR 0x22]"

definition sample_line :: "string \<Rightarrow> string \<Rightarrow> string \<Rightarrow> string" where
  "sample_line job name val = name @ ''{job='' @ quote @ job @ quote @ ''} '' @ val @ newline"

definition metric :: "string \<Rightarrow> string \<Rightarrow> string \<Rightarrow> string \<Rightarrow> string \<Rightarrow> string \<Rightarrow> string" where
  "metric kind job name help val out =
     out @ (''# HELP '' @ name @ '' '' @ help @ newline)
         @ (''# TYPE '' @ name @ '' '' @ kind @ newline) @ sample_line job name val"

definition gauge :: "string \<Rightarrow> string \<Rightarrow> string \<Rightarrow> string \<Rightarrow> string \<Rightarrow> string" where
  "gauge = metric ''gauge''"

definition counter :: "string \<Rightarrow> string \<Rightarrow> string \<Rightarrow> string \<Rightarrow> string \<Rightarrow> string" where
  "counter = metric ''counter''"

definition show_u64 :: "u64 \<Rightarrow> string" where
  "show_u64 w = show_nat (unat w)"

fun health_code :: "HealthState \<Rightarrow> nat" where
  "health_code Normal = 0"
| "health_code Warning = 1"
| "health_code Degraded = 2"
| "health_code Failed = 3"
| "health_code Recovery = 4"

definition render_prometheus_text :: "LayeredMetricsSnapshot \<Rightarrow> HealthState option \<Rightarrow> string \<Rightarrow> string" where
  "render_prometheus_text snap health job =
     (let job = sanitize_label job;
          out = [];
          out = gauge job ''aether_link_up'' ''Physical link up (1) or down (0)''
                  (show_nat (if link_is_up (physical snap) then 1 else 0)) out;
          out = gauge job ''aether_link_speed_gbps'' ''Configured or modelled link speed''
                  (show_f64 (link_speed_gbps (physical snap))) out;
          out = counter job ''aether_transport_rx_packets'' ''Transport RX packets'' (show_u64 (rx_packets (transport snap))) out;
          out = counter job ''aether_transport_tx_packets'' ''Transport TX packets'' (show_u64 (tx_packets (transport snap))) out;
          out = counter job ''aether_transport_rx_bytes'' ''Transport RX bytes'' (show_u64 (rx_bytes (transport snap))) out;
          out = counter job ''aether_transport_gap_count'' ''Sequence gap count'' (show_u64 (gap_count (transport snap))) out;
          out = counter job ''aether_transport_late_packets'' ''Late packet count'' (show_u64 (late_packet (transport snap))) out;
          out = counter job ''aether_transport_drop'' ''Dropped packets'' (show_u64 (drop_count (transport snap))) out;
          out = gauge job ''aether_transport_latency_last_ns'' ''Last e2e latency sample'' (show_u64 (latency_last_ns (transport snap))) out;
          out = gauge job ''aether_transport_latency_max_ns'' ''Max e2e latency sample'' (show_u64 (latency_max_ns (transport snap))) out;
          out = gauge job ''aether_transport_jitter_ns'' ''Last inter-sample jitter'' (show_u64 (tl_jitter_ns (transport snap))) out;
          out = counter job ''aether_radio_deadline_miss'' ''Radio deadline misses'' (show_u64 (deadline_miss (radio snap))) out;
          out = counter job ''aether_radio_symbol_received'' ''Symbols received'' (show_u64 (symbol_received (radio snap))) out;
          out = gauge job ''aether_memory_ring_occupancy'' ''GPU/host ring occupancy'' (show_u64 (ring_occupancy (memory snap))) out;
          out = gauge job ''aether_compute_kernel_latency_ns'' ''Last kernel latency'' (show_u64 (kernel_latency_ns (compute snap))) out;
          out = counter job ''aether_compute_kernel_executions'' ''Kernel execution count'' (show_u64 (kernel_executions (compute snap))) out
      in case health of
           None \<Rightarrow> out
         | Some h \<Rightarrow> gauge job ''aether_health_state''
             ''Health state code NORMAL=0 WARNING=1 DEGRADED=2 FAILED=3 RECOVERY=4'' (show_nat (health_code h)) out)"

section \<open>Reading the text back\<close>

text \<open>
  A scraper: the text is cut into lines and comment lines are skipped.  A sample is a name, a brace, one label with its
  value in quotes, the closing brace, a blank and the value; what is not of that form is reported as malformed.  The value
  of a label ends at the first quote; a backslash in it would start an escape, which the reader does not accept.
\<close>

fun lines_of :: "string \<Rightarrow> string list" where
  "lines_of [] = []"
| "lines_of (c # cs) =
     (if c = CHR 0x0A then [] # lines_of cs
      else case lines_of cs of [] \<Rightarrow> [[c]] | l # ls \<Rightarrow> (c # l) # ls)"

datatype sample = Sample string "string \<times> string" string | Malformed string

definition cut_at :: "(char \<Rightarrow> bool) \<Rightarrow> string \<Rightarrow> string \<times> string" where
  "cut_at stop l = (takeWhile (\<lambda>c. \<not> stop c) l, dropWhile (\<lambda>c. \<not> stop c) l)"

definition read_sample :: "string \<Rightarrow> sample" where
  "read_sample l =
     (let (name, r) = cut_at (\<lambda>c. c = CHR 0x7B) l;
          (key, r) = cut_at (\<lambda>c. c = CHR 0x3D) (drop 1 r)
      in if take 2 r \<noteq> [CHR 0x3D, CHR 0x22] then Malformed l
         else let (v, r) = cut_at (\<lambda>c. c = CHR 0x22 \<or> c = CHR 0x5C) (drop 2 r)
              in if take 3 r = [CHR 0x22, CHR 0x7D, CHR 0x20] then Sample name (key, v) (drop 3 r) else Malformed l)"

definition sample_of :: "string \<Rightarrow> sample option" where
  "sample_of l = (if take 1 l = ''#'' then None else Some (read_sample l))"

definition scrape :: "string \<Rightarrow> sample list" where
  "scrape text = List.map_filter sample_of (lines_of text)"

lemma lines_of_line:
  "CHR 0x0A \<notin> set l \<Longrightarrow> lines_of (l @ newline @ rest) = l # lines_of rest"
  by (induction l) (auto simp: newline_def)

lemma lines_of_nonempty: "s \<noteq> [] \<Longrightarrow> lines_of s \<noteq> []"
  by (cases s) (auto split: list.split)

lemma lines_of_append_newline: "lines_of ((out @ newline) @ rest) = lines_of (out @ newline) @ lines_of rest"
proof (induction out)
  case (Cons c cs)
  moreover have "lines_of (cs @ newline) \<noteq> []" by (rule lines_of_nonempty) (simp add: newline_def)
  ultimately show ?case by (cases "lines_of (cs @ newline)") (auto simp: newline_def)
qed (simp add: newline_def)

definition complete_lines :: "string \<Rightarrow> bool" where
  "complete_lines out \<longleftrightarrow> out = [] \<or> (\<exists>o1. out = o1 @ newline)"

lemma lines_of_complete: "complete_lines out \<Longrightarrow> lines_of (out @ rest) = lines_of out @ lines_of rest"
  using lines_of_append_newline by (auto simp: complete_lines_def)

text \<open>What a name, a help text and a value must not contain.\<close>

definition clean_name :: "string \<Rightarrow> bool" where
  "clean_name s \<longleftrightarrow> s \<noteq> [] \<and> CHR 0x0A \<notin> set s \<and> CHR 0x7B \<notin> set s \<and> hd s \<noteq> CHR 0x23"

definition one_line :: "string \<Rightarrow> bool" where
  "one_line s \<longleftrightarrow> CHR 0x0A \<notin> set s"

lemma one_line_simps [simp]: "one_line (a @ b) \<longleftrightarrow> one_line a \<and> one_line b" "one_line []"
  "one_line (c # s) \<longleftrightarrow> c \<noteq> CHR 0x0A \<and> one_line s"
  by (auto simp: one_line_def)

lemma sanitize_chars: "list_all label_char (sanitize_label s)"
  by (auto simp: sanitize_label_def list_all_iff label_char_def)

lemma sanitize_clean: "CHR 0x0A \<notin> set (sanitize_label s)" "CHR 0x22 \<notin> set (sanitize_label s)" "CHR 0x5C \<notin> set (sanitize_label s)"
  using sanitize_chars [of s] by (auto simp: list_all_iff label_char_def)

lemma cut_at_append: "\<forall>c\<in>set a. \<not> stop c \<Longrightarrow> stop c' \<Longrightarrow> cut_at stop (a @ c' # b) = (a, c' # b)"
  by (simp add: cut_at_def)

lemma sample_of_line:
  assumes "clean_name name" "CHR 0x22 \<notin> set job" "CHR 0x5C \<notin> set job"
  shows "sample_of (name @ ''{job='' @ quote @ job @ quote @ ''} '' @ val) = Some (Sample name (''job'', job) val)"
proof -
  let ?l = "name @ CHR 0x7B # ''job='' @ CHR 0x22 # job @ CHR 0x22 # ''} '' @ val"
  obtain c cs where name: "name = c # cs" and c: "c \<noteq> CHR 0x23" using assms(1) by (cases name) (auto simp: clean_name_def)
  have 1: "cut_at (\<lambda>c. c = CHR 0x7B) ?l = (name, CHR 0x7B # ''job='' @ CHR 0x22 # job @ CHR 0x22 # ''} '' @ val)"
    using assms(1) by (intro cut_at_append) (auto simp: clean_name_def)
  have 2: "cut_at (\<lambda>c. c = CHR 0x3D) (''job='' @ r) = (''job'', CHR 0x3D # r)" for r
    using cut_at_append [of "''job''" "\<lambda>c. c = CHR 0x3D" "CHR 0x3D" r] by simp
  have 3: "cut_at (\<lambda>c. c = CHR 0x22 \<or> c = CHR 0x5C) (job @ CHR 0x22 # r) = (job, CHR 0x22 # r)" for r
    using assms(2,3) by (intro cut_at_append) auto
  have "read_sample ?l = Sample name (''job'', job) val" unfolding read_sample_def 1 using 2 3 by simp
  then show ?thesis using c by (simp add: sample_of_def name quote_def)
qed

lemma scrape_metric:
  assumes "complete_lines out" "clean_name name" "one_line help" "one_line kind" "one_line val" "job = sanitize_label j"
  shows "scrape (metric kind job name help val out) = scrape out @ [Sample name (''job'', job) val]"
    "complete_lines (metric kind job name help val out)"
proof -
  have n: "CHR 0x0A \<notin> set name" using assms(2) by (simp add: clean_name_def)
  have h: "CHR 0x0A \<notin> set (''# HELP '' @ name @ '' '' @ help)" "CHR 0x0A \<notin> set (''# TYPE '' @ name @ '' '' @ kind)"
    "CHR 0x0A \<notin> set (name @ ''{job='' @ quote @ job @ quote @ ''} '' @ val)"
    using n assms(3-6) sanitize_clean(1) [of j] by (simp_all add: one_line_def quote_def)
  have "lines_of (metric kind job name help val out) = lines_of out
      @ [''# HELP '' @ name @ '' '' @ help, ''# TYPE '' @ name @ '' '' @ kind, name @ ''{job='' @ quote @ job @ quote @ ''} '' @ val]"
    using lines_of_complete [OF assms(1)] lines_of_line [OF h(1)] lines_of_line [OF h(2)] lines_of_line [OF h(3), of "[]"]
    by (simp add: metric_def sample_line_def)
  moreover have "sample_of (''# HELP '' @ name @ '' '' @ help) = None" "sample_of (''# TYPE '' @ name @ '' '' @ kind) = None"
    by (simp_all add: sample_of_def)
  moreover have "sample_of (name @ ''{job='' @ quote @ job @ quote @ ''} '' @ val) = Some (Sample name (''job'', job) val)"
    using assms(2,6) sanitize_clean(2,3) by (intro sample_of_line) simp_all
  ultimately show "scrape (metric kind job name help val out) = scrape out @ [Sample name (''job'', job) val]"
    by (simp add: scrape_def List.map_filter_def)
  show "complete_lines (metric kind job name help val out)"
    unfolding complete_lines_def metric_def sample_line_def by (intro disjI2 exI) simp
qed

lemma one_line_digit: "d < 10 \<Longrightarrow> one_line [digit_char d]"
  using of_digit_char [of d] by (auto simp: one_line_def dest!: arg_cong [where f = "of_char :: char \<Rightarrow> nat"])

lemma one_line_show_nat [simp]: "one_line (show_nat n)"
proof (induction n rule: show_nat.induct)
  case (1 n)
  show ?case
  proof (cases "n < 10")
    case True
    then show ?thesis using one_line_digit [of n] by (simp add: show_nat.simps [of n])
  next
    case False
    then show ?thesis using 1 one_line_digit [of "n mod 10"] by (simp add: show_nat.simps [of n])
  qed
qed

lemma one_line_replicate [simp]: "c \<noteq> CHR 0x0A \<Longrightarrow> one_line (replicate n c)"
  by (auto simp: one_line_def)

lemma one_line_show_f64 [simp]: "one_line (show_f64 x)"
  by (cases x) (simp_all add: show_decimal_def Let_def split_beta)

lemma one_line_show_u64 [simp]: "one_line (show_u64 w)"
  by (simp add: show_u64_def)

lemma scrape_macros:
  assumes "complete_lines out" "clean_name name" "one_line help" "one_line val"
  shows "scrape (gauge (sanitize_label j) name help val out) = scrape out @ [Sample name (''job'', sanitize_label j) val]"
    "complete_lines (gauge (sanitize_label j) name help val out)"
    "scrape (counter (sanitize_label j) name help val out) = scrape out @ [Sample name (''job'', sanitize_label j) val]"
    "complete_lines (counter (sanitize_label j) name help val out)"
  using scrape_metric [OF assms(1-3) _ assms(4) refl, of "''gauge''" j] scrape_metric [OF assms(1-3) _ assms(4) refl, of "''counter''" j]
  by (simp_all add: gauge_def counter_def)

lemma scrape_empty: "scrape [] = []" "complete_lines []"
  by (simp_all add: scrape_def List.map_filter_def complete_lines_def)

lemma scrape_render:
  "scrape (render_prometheus_text snap health job) =
     map (\<lambda>(name, val). Sample name (''job'', sanitize_label job) val)
     ([(''aether_link_up'', show_nat (if link_is_up (physical snap) then 1 else 0)),
      (''aether_link_speed_gbps'', show_f64 (link_speed_gbps (physical snap))),
      (''aether_transport_rx_packets'', show_u64 (rx_packets (transport snap))),
      (''aether_transport_tx_packets'', show_u64 (tx_packets (transport snap))),
      (''aether_transport_rx_bytes'', show_u64 (rx_bytes (transport snap))),
      (''aether_transport_gap_count'', show_u64 (gap_count (transport snap))),
      (''aether_transport_late_packets'', show_u64 (late_packet (transport snap))),
      (''aether_transport_drop'', show_u64 (drop_count (transport snap))),
      (''aether_transport_latency_last_ns'', show_u64 (latency_last_ns (transport snap))),
      (''aether_transport_latency_max_ns'', show_u64 (latency_max_ns (transport snap))),
      (''aether_transport_jitter_ns'', show_u64 (tl_jitter_ns (transport snap))),
      (''aether_radio_deadline_miss'', show_u64 (deadline_miss (radio snap))),
      (''aether_radio_symbol_received'', show_u64 (symbol_received (radio snap))),
      (''aether_memory_ring_occupancy'', show_u64 (ring_occupancy (memory snap))),
      (''aether_compute_kernel_latency_ns'', show_u64 (kernel_latency_ns (compute snap))),
      (''aether_compute_kernel_executions'', show_u64 (kernel_executions (compute snap)))]
     @ (case health of None \<Rightarrow> [] | Some h \<Rightarrow> [(''aether_health_state'', show_nat (health_code h))]))"
  by (cases health) (simp_all add: render_prometheus_text_def Let_def scrape_macros scrape_empty clean_name_def)

lemma read_show_u64: "read_digits 0 (show_u64 w) = unat w"
  by (simp add: show_u64_def read_show_nat)

text \<open>
  C26: what is exported is what was measured.  A scraper that reads the rendered text gets every metric exactly once, in
  order and under its name, and the decimal number it finds is the full 64-bit value of the counter; the state of health
  comes last, if there is one.  Every sample carries one label, \<^verbatim>\<open>job\<close>, whose value is the sanitized job name, made of
  letters, digits, underscores and hyphens only: no job name, whatever characters it has, can end a line or a label early
  or make a sample malformed.  The link speed is the only value that is not an integer, and it is printed as Rust prints it.
\<close>

theorem prometheus_roundtrip:
  "map (\<lambda>s. case s of
          Sample name label val \<Rightarrow> Some (name, label, if name = ''aether_link_speed_gbps'' then 0 else read_digits 0 val)
        | Malformed _ \<Rightarrow> None) (scrape (render_prometheus_text snap health job)) =
     map (\<lambda>(name, n). Some (name, (''job'', sanitize_label job), n))
     ([(''aether_link_up'', if link_is_up (physical snap) then 1 else 0),
      (''aether_link_speed_gbps'', 0),
      (''aether_transport_rx_packets'', unat (rx_packets (transport snap))),
      (''aether_transport_tx_packets'', unat (tx_packets (transport snap))),
      (''aether_transport_rx_bytes'', unat (rx_bytes (transport snap))),
      (''aether_transport_gap_count'', unat (gap_count (transport snap))),
      (''aether_transport_late_packets'', unat (late_packet (transport snap))),
      (''aether_transport_drop'', unat (drop_count (transport snap))),
      (''aether_transport_latency_last_ns'', unat (latency_last_ns (transport snap))),
      (''aether_transport_latency_max_ns'', unat (latency_max_ns (transport snap))),
      (''aether_transport_jitter_ns'', unat (tl_jitter_ns (transport snap))),
      (''aether_radio_deadline_miss'', unat (deadline_miss (radio snap))),
      (''aether_radio_symbol_received'', unat (symbol_received (radio snap))),
      (''aether_memory_ring_occupancy'', unat (ring_occupancy (memory snap))),
      (''aether_compute_kernel_latency_ns'', unat (kernel_latency_ns (compute snap))),
      (''aether_compute_kernel_executions'', unat (kernel_executions (compute snap)))]
     @ (case health of None \<Rightarrow> [] | Some h \<Rightarrow> [(''aether_health_state'', health_code h)]))
   \<and> list_all label_char (sanitize_label job)
   \<and> Sample ''aether_link_speed_gbps'' (''job'', sanitize_label job) (show_f64 (link_speed_gbps (physical snap)))
       \<in> set (scrape (render_prometheus_text snap health job))"
  unfolding scrape_render by (cases health) (simp_all add: read_show_u64 read_show_nat sanitize_chars)

lemma sanitize_idempotent: "sanitize_label (sanitize_label s) = sanitize_label s"
proof -
  have "sanitize_label t = t" if "list_all label_char t" for t
    using that by (induction t) (auto simp: sanitize_label_def label_char_def continuation_byte_def Let_def)
  then show ?thesis using sanitize_chars by blast
qed

lemma show_nat_100: "show_nat 100 = ''100''"
  by code_simp

lemma show_f64_100: "show_f64 (Fin 100) = ''100''"
proof -
  have "rnd f64_format 100 = Fin 100" "rnd f64_format 200 = Fin 200"
    using f64_of_nat_exact [of 100] f64_of_nat_exact [of 200] by (simp_all add: f_of_nat_def)
  then have "decimals_at 100 2 = [1]" by (simp add: decimals_at_def pow10_def Let_def)
  moreover have "log10_floor 100 = 2" by (simp add: log10_floor_def show_nat_100)
  moreover have "shortest_decimal x e 16 = (case decimals_at x e of d # _ \<Rightarrow> (d, e) | [] \<Rightarrow> shortest_decimal x (e - 1) 15)" for x e
    using shortest_decimal.simps(2) [of x e 15] by simp
  ultimately show ?thesis by (simp add: show_decimal_def show_nat_100)
qed

end
