(* ===== verification/Ops_Files.thy ===== *)
theory Ops_Files
  imports Ops_Config Prometheus
begin

text \<open>
  The files of the operations plane: the event log (\<^verbatim>\<open>events.rs\<close>) and the export of traces (\<^verbatim>\<open>trace.rs\<close>), with the
  operations on paths that they and the bench use.  Making a directory, opening a file for appending, appending
  to it and the JSON printer are parameters.
\<close>

section \<open>Definitions\<close>

text \<open>\<^verbatim>\<open>Path::join\<close> on a Unix system.\<close>

definition path_join :: "string \<Rightarrow> string \<Rightarrow> string" where
  "path_join base rel =
     (if take 1 rel = ''/'' then rel
      else if base = [] \<or> last base = CHR ''/'' then base @ rel
      else base @ ''/'' @ rel)"

text \<open>
  \<^verbatim>\<open>Path::parent\<close> and \<^verbatim>\<open>Path::file_stem\<close>.  The string is taken from its end: slashes at the end and
  components \<^verbatim>\<open>.\<close> other than a leading one are skipped, the root slash stays.
\<close>

function rtrim_path :: "string \<Rightarrow> string" where
  "rtrim_path [] = []"
| "rtrim_path (c # r) =
     (if c = CHR ''/'' \<and> r \<noteq> [] then rtrim_path r
      else if c = CHR ''.'' \<and> take 1 r = ''/'' then rtrim_path r
      else c # r)"
  by pat_completeness auto
termination by (relation "measure length") auto

definition path_parent :: "string \<Rightarrow> string option" where
  "path_parent s =
     (let r = rtrim_path (rev s) in
      if r = [] \<or> r = ''/'' then None
      else Some (rev (rtrim_path (dropWhile (\<lambda>c. c \<noteq> CHR ''/'') r))))"

definition file_name :: "string \<Rightarrow> string option" where
  "file_name s =
     (let n = rev (takeWhile (\<lambda>c. c \<noteq> CHR ''/'') (rtrim_path (rev s)))
      in if n = [] \<or> n = ''.'' \<or> n = ''..'' then None else Some n)"

definition stem_of :: "string \<Rightarrow> string" where
  "stem_of n =
     (let before = rev (drop 1 (dropWhile (\<lambda>c. c \<noteq> CHR ''.'') (rev n)))
      in if CHR ''.'' \<notin> set n \<or> before = [] then n else before)"

definition file_stem :: "string \<Rightarrow> string option" where
  "file_stem s = map_option stem_of (file_name s)"

text \<open>What both writers do first: make the parent directory, if the path has one, and open the file.\<close>

definition open_append :: "(string \<Rightarrow> string + unit) \<Rightarrow> (string \<Rightarrow> string + unit) \<Rightarrow> string \<Rightarrow> string + unit" where
  "open_append mkdir opn path =
     and_then (case path_parent path of None \<Rightarrow> Inr () | Some parent \<Rightarrow> mkdir parent) (\<lambda>_. opn path)"

definition EventLogger_create :: "(string \<Rightarrow> string + unit) \<Rightarrow> (string \<Rightarrow> string + unit) \<Rightarrow> string \<Rightarrow> string + EventLogger" where
  "EventLogger_create mkdir opn path =
     and_then (open_append mkdir opn path) (\<lambda>_. Inr \<lparr>ev_log = [], ev_path = path\<rparr>)"

text \<open>
  The lines of the export; the first trace that cannot be printed ends it with its error.  (The source may then have
  written the lines before it; the model has the result of the call, not the file, in this case.)
\<close>

fun jsonl :: "('a \<Rightarrow> string + string) \<Rightarrow> 'a list \<Rightarrow> string + string" where
  "jsonl json [] = Inr []"
| "jsonl json (t # ts) = and_then (json t) (\<lambda>line. and_then (jsonl json ts) (\<lambda>rest. Inr (line @ newline @ rest)))"

definition export_jsonl ::
    "(string \<Rightarrow> string + unit) \<Rightarrow> (string \<Rightarrow> string + unit) \<Rightarrow> (string \<Rightarrow> string \<Rightarrow> string + unit) \<Rightarrow> (PacketTrace \<Rightarrow> string + string)
     \<Rightarrow> TraceEngine \<Rightarrow> string \<Rightarrow> string + usize" where
  "export_jsonl mkdir opn app json e path =
     and_then (open_append mkdir opn path) (\<lambda>_.
     and_then (jsonl json (traces e)) (\<lambda>text.
     and_then (app path text) (\<lambda>_. Inr (length (traces e)))))"

definition export_configured ::
    "(string \<Rightarrow> string + unit) \<Rightarrow> (string \<Rightarrow> string + unit) \<Rightarrow> (string \<Rightarrow> string \<Rightarrow> string + unit) \<Rightarrow> (PacketTrace \<Rightarrow> string + string)
     \<Rightarrow> TraceEngine \<Rightarrow> string + usize" where
  "export_configured mkdir opn app json e =
     (case export_path e of
        Some p \<Rightarrow> if tr_enabled e then export_jsonl mkdir opn app json e p else Inr 0
      | None \<Rightarrow> Inr 0)"

section \<open>The exported traces\<close>

lemma jsonl_lines:
  assumes "\<And>t. t \<in> set ts \<Longrightarrow> json t = Inr (line t) \<and> CHR 0x0A \<notin> set (line t)"
  shows "\<exists>text. jsonl json ts = Inr text \<and> lines_of text = map line ts"
  using assms
proof (induction ts)
  case (Cons t ts)
  have t: "json t = Inr (line t)" "CHR 0x0A \<notin> set (line t)" using Cons.prems [of t] by simp_all
  obtain body where "jsonl json ts = Inr body" "lines_of body = map line ts" using Cons.IH Cons.prems by auto
  then show ?case using t lines_of_line [OF t(2)] by simp
qed simp

lemma trace_run_path: "export_path (trace_run e cs) = export_path e"
  by (induction e cs rule: trace_run.induct) (simp_all add: trace_start_def stamp_def Let_def)

lemma trace_run_disabled: "\<not> tr_enabled e \<Longrightarrow> trace_run e cs = e"
  by (induction e cs rule: trace_run.induct) (simp_all add: trace_start_def stamp_def)

lemma trace_spec_config: "trace_spec (max cap 1) 0 (TraceEngine_from_config True cap path)"
  by (simp add: trace_spec_def TraceEngine_from_config_def TraceEngine_new_def)

text \<open>
  C39: the export of traces.  If the JSON printer prints every retained trace on one line and the file can be opened, then whatever was
  traced, an enabled engine appends one text to its file, the lines of which are the retained traces, oldest
  first, and returns their number: the traces started, up to the capacity.  A parser that inverts the printer
  reads them back.  A disabled engine appends nothing and returns zero.
\<close>

theorem trace_export_readable:
  assumes "e = trace_run (TraceEngine_from_config on cap path) cs"
    and "\<And>t. t \<in> set (traces e) \<Longrightarrow> json t = Inr (line t) \<and> CHR 0x0A \<notin> set (line t) \<and> read_json (line t) = t"
    and "\<And>p. mkdir p = Inr ()" "opn path = Inr ()"
  shows "\<exists>text. map read_json (lines_of text) = traces e
    \<and> (if on
       then length (traces e) = min (starts cs) (max cap 1)
         \<and> export_configured mkdir opn app json e = and_then (app path text) (\<lambda>_. Inr (min (starts cs) (max cap 1)))
       else text = [] \<and> export_configured mkdir opn app json e = Inr 0)"
proof (cases on)
  case True
  have spec: "trace_spec (max cap 1) (starts cs) e"
    using trace_spec_run [OF trace_spec_config [of cap path], of cs] True assms(1) by simp
  then have ids: "map trace_id (traces e) = map word_of_nat [Suc (starts cs - max cap 1)..<Suc (starts cs)]"
    by (simp only: trace_spec_def)
  have len: "length (traces e) = min (starts cs) (max cap 1)"
    using arg_cong [OF ids, of length] by (simp del: upt_Suc)
  have path: "export_path e = Some path" "tr_enabled e"
    using spec by (simp_all add: assms(1) trace_run_path TraceEngine_from_config_def trace_spec_def)
  obtain body where body: "jsonl json (traces e) = Inr body" "lines_of body = map line (traces e)"
    using jsonl_lines [of "traces e" json line] assms(2) by blast
  have "open_append mkdir opn path = Inr ()" using assms(3,4) by (simp add: open_append_def split: option.split)
  moreover have "map read_json (lines_of body) = traces e" using body(2) assms(2) by (simp add: map_idI)
  ultimately show ?thesis using True len path body(1)
    by (auto simp: export_configured_def export_jsonl_def intro!: exI [of _ body])
next
  case False
  then show ?thesis
    by (simp add: assms(1) trace_run_disabled TraceEngine_from_config_def TraceEngine_new_def export_configured_def)
qed

definition sample_traces :: TraceEngine where
  "sample_traces = trace_run (TraceEngine_from_config True 1 ''traces.jsonl'') [Start 1 7 FpgaTx 0, Start 1 8 FpgaTx 5, Stamp 2 Cx5Rx 9]"

definition sample_trace :: PacketTrace where
  "sample_trace = \<lparr>trace_id = 2, tr_stream_id = 1, tr_sequence = 8,
     stages = [\<lparr>st_stage = FpgaTx, st_time_ns = 5\<rparr>, \<lparr>st_stage = Cx5Rx, st_time_ns = 9\<rparr>]\<rparr>"

lemma sample_traces_newest: "traces sample_traces = [sample_trace]"
  by (simp add: sample_traces_def sample_trace_def TraceEngine_from_config_def TraceEngine_new_def trace_start_def stamp_def Let_def)

theorem trace_export_readable_witness:
  "\<exists>text. map (\<lambda>_. sample_trace) (lines_of text) = traces sample_traces
    \<and> (if True
       then length (traces sample_traces) = min (starts [Start 1 7 FpgaTx 0, Start 1 8 FpgaTx 5, Stamp 2 Cx5Rx 9]) (max 1 1)
         \<and> export_configured (\<lambda>_. Inr ()) (\<lambda>_. Inr ()) (\<lambda>_ _. Inr ()) (\<lambda>t. Inr ''{2}'') sample_traces
             = and_then (Inr ()) (\<lambda>_. Inr (min (starts [Start 1 7 FpgaTx 0, Start 1 8 FpgaTx 5, Stamp 2 Cx5Rx 9]) (max 1 1)))
       else text = [] \<and> export_configured (\<lambda>_. Inr ()) (\<lambda>_. Inr ()) (\<lambda>_ _. Inr ()) (\<lambda>t. Inr ''{2}'') sample_traces = Inr 0)"
  by (rule trace_export_readable [where line = "\<lambda>t. ''{2}''" and path = "''traces.jsonl''", OF sample_traces_def])
    (simp_all add: sample_traces_newest)

end
