(* ===== verification/Bench_Load.thy ===== *)
theory Bench_Load
  imports Pipeline_Props Ops_Config Ops_Files
begin

text \<open>
  The file side of \<^verbatim>\<open>benchmark/src/pipeline.rs\<close>: reading and parsing the configuration files a profile
  names, in the order of \<^verbatim>\<open>PipelineBench::run\<close>, and the run on what was read.  The file system and the
  YAML parsers are the parameters in \<open>bench_env\<close>.
\<close>

section \<open>Definitions\<close>

record bench_env =
  read_to_string :: "string \<Rightarrow> string + string"
  parse_profile :: "string \<Rightarrow> string + BenchProfileDoc"
  parse_timing :: "string \<Rightarrow> string + RadioTimingConfig"
  parse_eth :: "string \<Rightarrow> string + EthernetModelConfig"
  parse_deadline :: "string \<Rightarrow> string + TransportDeadlineConfig"
  parse_nic :: "string \<Rightarrow> string + NicDmaConfig"
  parse_ring :: "string \<Rightarrow> string + GpuRingConfig"
  parse_fault :: "string \<Rightarrow> string + FaultInjectionConfig"
  parse_ops :: "string \<Rightarrow> string + ObservabilityDoc"
  parse_recovery :: "string \<Rightarrow> string + RecoveryPolicyFile"
  parse_health :: "string \<Rightarrow> string + HealthPolicyFile"
  create_log_file :: "string \<Rightarrow> string + unit"
  create_dir_all :: "string \<Rightarrow> string + unit"
  append_file :: "string \<Rightarrow> string \<Rightarrow> string + unit"
  json_trace :: "PacketTrace \<Rightarrow> string + string"
  write_file :: "string \<Rightarrow> string \<Rightarrow> string + unit"
  wall_clock :: "nat \<Rightarrow> u64"
  libm_cos :: "f32 \<Rightarrow> f32"
  libm_sin :: "f32 \<Rightarrow> f32"
  cuda_build :: "(cuda_driver \<times> (string \<Rightarrow> string + CudaBackendConfig)) option"

abbreviation open_log :: "bench_env \<Rightarrow> string \<Rightarrow> string + EventLogger" where
  "open_log env \<equiv> EventLogger_create (create_dir_all env) (create_log_file env)"

text \<open>The printed form of the errors the loaders report.\<close>

fun show_FpgaError :: "FpgaError \<Rightarrow> string" where
  "show_FpgaError (FpgaConfigError e) = show_config_error e"

fun show_EthernetError :: "EthernetError \<Rightarrow> string" where
  "show_EthernetError (EthernetConfigError e) = show_config_error e"

fun show_FaultError :: "FaultError \<Rightarrow> string" where
  "show_FaultError (FaultConfigError e) = show_config_error e"

definition show_StreamId :: "StreamId \<Rightarrow> string" where
  "show_StreamId i = ''StreamId('' @ show_nat (unat (sid i)) @ '')''"

fun show_TransportError :: "TransportError \<Rightarrow> string" where
  "show_TransportError (StreamNotFound i) = ''stream not found: '' @ show_StreamId i"
| "show_TransportError (StreamExists i) = ''stream already exists: '' @ show_StreamId i"
| "show_TransportError (StreamNotRunning i) = ''stream not running: '' @ show_StreamId i"
| "show_TransportError LinkNotReady = ''link not ready''"
| "show_TransportError (SequenceGap a b) =
     ''sequence gap: expected '' @ show_nat (unat a) @ '', got '' @ show_nat (unat b)"
| "show_TransportError (LatePacket l m) =
     ''late packet: latency_ns='' @ show_nat (unat l) @ '' max='' @ show_nat (unat m)"
| "show_TransportError (TransportConfigError e) = show_config_error e"

fun show_Cx5Error :: "Cx5Error \<Rightarrow> string" where
  "show_Cx5Error (Cx5ConfigError e) = show_config_error e"
| "show_Cx5Error QueueFull = ''queue full''"
| "show_Cx5Error (BackendUnavailable e) = ''backend unavailable: '' @ e"
| "show_Cx5Error MbufExhausted = ''mbuf pool exhausted''"

definition BenchProfile_from_yaml_str :: "bench_env \<Rightarrow> string \<Rightarrow> PipelineBenchError + BenchProfile" where
  "BenchProfile_from_yaml_str env s = map_err PipelineConfigError (map_sum id BenchProfile_of (parse_profile env s))"

definition BenchProfile_load_path :: "bench_env \<Rightarrow> string \<Rightarrow> PipelineBenchError + BenchProfile" where
  "BenchProfile_load_path env path =
     and_then (map_err (\<lambda>e. PipelineConfigError (''read '' @ path @ '': '' @ e)) (read_to_string env path))
       (BenchProfile_from_yaml_str env)"

definition read_rel :: "bench_env \<Rightarrow> string \<Rightarrow> string \<Rightarrow> PipelineBenchError + string" where
  "read_rel env base rel =
     (let path = path_join base rel in
      map_err (\<lambda>e. PipelineConfigError (''read '' @ path @ '': '' @ e)) (read_to_string env path))"

text \<open>\<^verbatim>\<open>X::from_yaml_str(&self.read_rel(rel)?).map_err(|e| Config(e.to_string()))?\<close>\<close>

definition load_yaml ::
    "bench_env \<Rightarrow> string \<Rightarrow> (string \<Rightarrow> 'e + 'c) \<Rightarrow> ('e \<Rightarrow> string) \<Rightarrow> string \<Rightarrow> PipelineBenchError + 'c" where
  "load_yaml env base from_yaml display rel =
     and_then (read_rel env base rel) (\<lambda>s. map_err (\<lambda>e. PipelineConfigError (display e)) (from_yaml s))"

definition ops_fallback :: ObservabilityConfig where
  "ops_fallback = \<lparr>ob_version = ''0'', ob_id = ''ops-fallback'', ob_metrics = MetricsExportConfig_default,
     ob_logging = LoggingConfig_default, ob_trace = TraceConfig_default, ob_health = HealthRefConfig_default,
     ob_recovery = RecoveryRefConfig_default, ob_prometheus_scrape = PrometheusScrapeRefConfig_default\<rparr>"

definition load_ops :: "bench_env \<Rightarrow> string \<Rightarrow> BenchProfile \<Rightarrow> ObservabilityConfig" where
  "load_ops env base p =
     unwrap_or (ObservabilityConfig_load_path (read_to_string env) (parse_ops env) (path_join base (bp_observability_config p)))
       ops_fallback"

definition load_config :: "bench_env \<Rightarrow> string \<Rightarrow> BenchProfile \<Rightarrow> PipelineBenchError + PipeConfig" where
  "load_config env base p =
     and_then (load_yaml env base (RadioTimingConfig_from_yaml_str (parse_timing env)) show_FpgaError (bp_radio_timing_config p)) (\<lambda>timing.
     and_then (load_yaml env base (EthernetModelConfig_from_yaml_str (parse_eth env)) show_EthernetError (bp_ethernet_config p)) (\<lambda>eth.
     and_then (load_yaml env base (TransportDeadlineConfig_from_yaml_str (parse_deadline env)) show_TransportError
                (bp_transport_deadline_config p)) (\<lambda>deadline.
     and_then (load_yaml env base (NicDmaConfig_from_yaml_str (parse_nic env)) show_Cx5Error (bp_nic_config p)) (\<lambda>nic.
     and_then (load_yaml env base (GpuRingConfig_from_yaml_str (parse_ring env)) show_GpuError (bp_gpu_ring_config p)) (\<lambda>ring.
     and_then (load_yaml env base (FaultInjectionConfig_from_yaml_str (parse_fault env)) show_FaultError (bp_fault_config p)) (\<lambda>fault.
     let ops = load_ops env base p in
     Inr \<lparr>pc_profile = p, pc_timing = timing, pc_eth = eth, pc_deadline = deadline, pc_nic = nic, pc_ring = ring,
          pc_fault = fault, pc_trace_enabled = tcf_enabled (ob_trace ops), pc_trace_capacity = ring_capacity (ob_trace ops),
          pc_trace_path = path_join base (tcf_export_path (ob_trace ops)),
          pc_recovery = ok (RecoveryPolicy_load_path (read_to_string env) (parse_recovery env)
                              (path_join base (recovery_policy_path (ob_recovery ops)))),
          pc_cuda_feature = (cuda_build env \<noteq> None), pc_gpu = None\<rparr>))))))"

text \<open>
  The device for a profile that asks for it, in the build with the feature \<^verbatim>\<open>cuda\<close>: \<open>cuda_build\<close> then has its
  driver and the parser of its configuration.  The other build refuses such a profile when it runs.
\<close>

definition open_cuda :: "bench_env \<Rightarrow> string \<Rightarrow> BenchProfile \<Rightarrow> PipelineBenchError + (cuda_driver \<times> CudaGpu) option" where
  "open_cuda env base p =
     (if to_ascii_lowercase (gpu_backend p) \<noteq> ''cuda'' then Inr None
      else case cuda_build env of
        None \<Rightarrow> Inr None
      | Some (d, yaml_parse) \<Rightarrow>
          and_then (read_rel env base (or_default (bp_gpu_cuda_config p) ''configs/backends/gpu_cuda.yaml'')) (\<lambda>yaml.
          and_then (map_err RuntimeCuda (CudaGpu_from_yaml d yaml_parse yaml)) (\<lambda>gpu. Inr (Some (d, gpu)))))"

definition PipelineBench_run :: "bench_env \<Rightarrow> string \<Rightarrow> BenchProfile \<Rightarrow> PipelineBenchError + (BenchReport \<times> MetricsEngine)" where
  "PipelineBench_run env base p =
     and_then (load_config env base p) (\<lambda>c.
     and_then (open_cuda env base p) (\<lambda>gpu.
     run (wall_clock env) (libm_cos env) (libm_sin env) (\<lambda>path. open_log env (path_join base path)) (c\<lparr>pc_gpu := gpu\<rparr>)))"

definition BenchReport_to_json :: "(BenchReport \<Rightarrow> string + string) \<Rightarrow> BenchReport \<Rightarrow> string" where
  "BenchReport_to_json json r = unwrap_or (json r) ''{}''"

definition write_report ::
    "bench_env \<Rightarrow> (BenchReport \<Rightarrow> string + string) \<Rightarrow> string \<Rightarrow> BenchProfile \<Rightarrow> BenchReport \<Rightarrow> PipelineBenchError + string" where
  "write_report env json base p report =
     (let path = path_join base (bp_report_path p) in
      and_then (case path_parent path of
          None \<Rightarrow> Inr ()
        | Some parent \<Rightarrow> map_err (\<lambda>e. PipelineIoError (''mkdir '' @ parent @ '': '' @ e)) (create_dir_all env parent)) (\<lambda>_.
      and_then (map_err (\<lambda>e. PipelineIoError (''write '' @ path @ '': '' @ e))
                  (write_file env path (BenchReport_to_json json report))) (\<lambda>_.
      Inr path)))"

section \<open>Which files a run needs\<close>

definition file_ok :: "bench_env \<Rightarrow> string \<Rightarrow> (string \<Rightarrow> string + 'c) \<Rightarrow> string \<Rightarrow> bool" where
  "file_ok env base parse rel \<longleftrightarrow>
     (case read_to_string env (path_join base rel) of Inl _ \<Rightarrow> False | Inr s \<Rightarrow> (case parse s of Inl _ \<Rightarrow> False | Inr _ \<Rightarrow> True))"

lemma load_yaml_ok:
  assumes "\<And>s. from_yaml s = map_err f (parse s)"
  shows "(\<exists>c. load_yaml env base from_yaml display rel = Inr c) \<longleftrightarrow> file_ok env base parse rel"
  by (auto simp: load_yaml_def read_rel_def file_ok_def assms and_then_Inr_iff Let_def split: sum.split)

lemma load_config_Inr_iff:
  "(\<exists>c. load_config env base p = Inr c) \<longleftrightarrow>
     file_ok env base (parse_timing env) (bp_radio_timing_config p) \<and> file_ok env base (parse_eth env) (bp_ethernet_config p)
     \<and> file_ok env base (parse_deadline env) (bp_transport_deadline_config p) \<and> file_ok env base (parse_nic env) (bp_nic_config p)
     \<and> file_ok env base (parse_ring env) (bp_gpu_ring_config p) \<and> file_ok env base (parse_fault env) (bp_fault_config p)"
  (is "?L \<longleftrightarrow> ?t \<and> ?e \<and> ?d \<and> ?n \<and> ?r \<and> ?f")
proof -
  have "?t \<longleftrightarrow> (\<exists>c. load_yaml env base (RadioTimingConfig_from_yaml_str (parse_timing env)) show_FpgaError (bp_radio_timing_config p) = Inr c)"
    by (rule load_yaml_ok [symmetric, OF RadioTimingConfig_from_yaml_str_def])
  moreover have "?e \<longleftrightarrow> (\<exists>c. load_yaml env base (EthernetModelConfig_from_yaml_str (parse_eth env)) show_EthernetError (bp_ethernet_config p) = Inr c)"
    by (rule load_yaml_ok [symmetric, OF EthernetModelConfig_from_yaml_str_def])
  moreover have "?d \<longleftrightarrow> (\<exists>c. load_yaml env base (TransportDeadlineConfig_from_yaml_str (parse_deadline env)) show_TransportError
      (bp_transport_deadline_config p) = Inr c)"
    by (rule load_yaml_ok [symmetric, OF TransportDeadlineConfig_from_yaml_str_def])
  moreover have "?n \<longleftrightarrow> (\<exists>c. load_yaml env base (NicDmaConfig_from_yaml_str (parse_nic env)) show_Cx5Error (bp_nic_config p) = Inr c)"
    by (rule load_yaml_ok [symmetric, OF NicDmaConfig_from_yaml_str_def])
  moreover have "?r \<longleftrightarrow> (\<exists>c. load_yaml env base (GpuRingConfig_from_yaml_str (parse_ring env)) show_GpuError (bp_gpu_ring_config p) = Inr c)"
    by (rule load_yaml_ok [symmetric, OF GpuRingConfig_from_yaml_str_def])
  moreover have "?f \<longleftrightarrow> (\<exists>c. load_yaml env base (FaultInjectionConfig_from_yaml_str (parse_fault env)) show_FaultError (bp_fault_config p) = Inr c)"
    by (rule load_yaml_ok [symmetric, OF FaultInjectionConfig_from_yaml_str_def])
  ultimately show ?thesis
    by (auto simp: load_config_def and_then_Inr_iff Let_def)
qed

lemma load_config_fields:
  assumes "load_config env base p = Inr c"
  shows "pc_profile c = p"
    "read_to_string env (path_join base (bp_observability_config p)) = Inl e \<Longrightarrow>
       \<not> pc_trace_enabled c \<and> pc_trace_capacity c = 4096"
  using assms
  by (auto simp: load_config_def and_then_Inr_iff Let_def load_ops_def ObservabilityConfig_load_path_def ops_fallback_def
      TraceConfig_default_def)

text \<open>
  C27: which files decide a run.  The configuration is complete exactly when the six files of the data
  path can be read and parsed; the observability file and the recovery policy are optional, and without
  the former the run goes on with tracing switched off.  If one of the six is missing the run is refused
  with a configuration error before anything is simulated.
\<close>

theorem bench_needs_six_files:
  "((\<exists>c. load_config env base p = Inr c) \<longleftrightarrow>
     file_ok env base (parse_timing env) (bp_radio_timing_config p) \<and> file_ok env base (parse_eth env) (bp_ethernet_config p)
     \<and> file_ok env base (parse_deadline env) (bp_transport_deadline_config p) \<and> file_ok env base (parse_nic env) (bp_nic_config p)
     \<and> file_ok env base (parse_ring env) (bp_gpu_ring_config p) \<and> file_ok env base (parse_fault env) (bp_fault_config p))
   \<and> (case load_config env base p of
        Inl e \<Rightarrow> (\<exists>msg. e = PipelineConfigError msg) \<and> PipelineBench_run env base p = Inl e
      | Inr c \<Rightarrow>
          pc_profile c = p
          \<and> (case read_to_string env (path_join base (bp_observability_config p)) of
               Inl _ \<Rightarrow> \<not> pc_trace_enabled c \<and> pc_trace_capacity c = 4096
             | Inr _ \<Rightarrow> True))"
proof
  have "\<exists>msg. e = PipelineConfigError msg" if "load_config env base p = Inl e" for e
    using that by (auto simp: load_config_def load_yaml_def read_rel_def and_then_def map_err_def Let_def split: sum.splits)
  then show "case load_config env base p of
        Inl e \<Rightarrow> (\<exists>msg. e = PipelineConfigError msg) \<and> PipelineBench_run env base p = Inl e
      | Inr c \<Rightarrow>
          pc_profile c = p
          \<and> (case read_to_string env (path_join base (bp_observability_config p)) of
               Inl _ \<Rightarrow> \<not> pc_trace_enabled c \<and> pc_trace_capacity c = 4096
             | Inr _ \<Rightarrow> True)"
    using load_config_fields [of env base p] by (auto simp: PipelineBench_run_def split: sum.split)
qed (rule load_config_Inr_iff)

section \<open>The bench on its files\<close>

lemma open_cuda_fresh: "open_cuda env base p = Inr (Some (d, g)) \<Longrightarrow> device_bufs g = [] \<and> lengths g = []"
  by (auto simp: open_cuda_def and_then_Inr_iff dest: CudaGpu_from_yaml_fresh split: if_splits option.splits)

lemma load_config_feature: "load_config env base p = Inr c \<Longrightarrow> pc_cuda_feature c \<longleftrightarrow> cuda_build env \<noteq> None"
  by (auto simp: load_config_def and_then_Inr_iff Let_def)

lemma bench_conserves:
  assumes "load_config env base p = Inr c" "open_cuda env base p = Inr gpu"
    and "to_ascii_lowercase (gpu_backend p) \<noteq> ''cuda'' \<or> cuda_build env \<noteq> None"
    and "gpu = None \<or> (\<exists>d g. gpu = Some (d, g) \<and> driver_ok d)"
    and "open_log env (path_join base (bp_events_path p)) = Inr events"
    and "0 < rx_queue_depth (pc_nic c)" "gpu_fits (c\<lparr>pc_gpu := gpu\<rparr>) (8 * samples_per_symbol (pc_timing c))"
  shows "\<exists>report m. PipelineBench_run env base p = Inr (report, m)
    \<and> br_packets report + br_late_packets report + drop_count (transport (layered m)) = symbol_count p * ucast (max (bp_streams p) 1)"
proof -
  let ?c = "c\<lparr>pc_gpu := gpu\<rparr>" and ?log = "\<lambda>path. open_log env (path_join base path)"
  have p: "pc_profile ?c = p" using load_config_fields(1) [OF assms(1)] by simp
  have "to_ascii_lowercase (gpu_backend (pc_profile ?c)) \<noteq> ''cuda'' \<or> pc_cuda_feature ?c"
    using assms(3) p load_config_feature [OF assms(1)] by simp
  moreover have "pc_gpu ?c = None \<or> (\<exists>d g. pc_gpu ?c = Some (d, g) \<and> driver_ok d \<and> device_bufs g = [] \<and> lengths g = [])"
    using assms(2,4) open_cuda_fresh by fastforce
  moreover have "?log (bp_events_path (pc_profile ?c)) = Inr events" using assms(5) p by simp
  ultimately obtain report m where "run (wall_clock env) (libm_cos env) (libm_sin env) ?log ?c = Inr (report, m)"
      "br_packets report + br_late_packets report + drop_count (transport (layered m))
        = symbol_count (pc_profile ?c) * ucast (max (bp_streams (pc_profile ?c)) 1)"
    using run_conserves [of ?c ?log events "wall_clock env" "libm_cos env" "libm_sin env"] assms(6,7) by auto
  then show ?thesis using assms(1,2) p by (simp add: PipelineBench_run_def)
qed

end
