(* ===== verification/Gates.thy ===== *)
theory Gates
  imports Bench_Load Prometheus
begin

text \<open>
  The drivers around the bench, \<^verbatim>\<open>benchmark/src/acceptance.rs\<close>, \<^verbatim>\<open>soak.rs\<close> and \<^verbatim>\<open>fault_drill.rs\<close>: each
  loads a profile, runs the bench one or several times, judges the report by its gates and writes a
  report of its own.  The JSON printer is a parameter; so is, for the soak, the environment of each round.
\<close>

section \<open>Definitions\<close>

definition show_u32 :: "u32 \<Rightarrow> string" where
  "show_u32 w = show_nat (unat w)"

text \<open>\<^verbatim>\<open>{:.4}\<close>: four decimals, ties to even.\<close>

fun show_f64_4 :: "f64 \<Rightarrow> string" where
  "show_f64_4 NaN = ''NaN''"
| "show_f64_4 PInf = ''inf''"
| "show_f64_4 NInf = ''-inf''"
| "show_f64_4 (Fin x) =
     (if x < 0 then ''-'' else '''') @ show_decimal (nat (round_half_even (\<bar>x\<bar> * 10000))) (- 4)"

definition f64_EPSILON :: f64 where
  "f64_EPSILON = f64_lit (1 / 2 ^ 52)"

definition load_thresholds :: "bench_env \<Rightarrow> string \<Rightarrow> string \<Rightarrow> HealthThresholds" where
  "load_thresholds env base rel =
     unwrap_or (HealthThresholds_load_path (read_to_string env) (parse_health env) (path_join base rel)) HealthThresholds_default"

text \<open>\<^verbatim>\<open>let _ = health.evaluate(&metrics.layered_snapshot(), None);\<close>\<close>

definition evaluate_silently :: "bench_env \<Rightarrow> HealthManager \<Rightarrow> MetricsEngine \<Rightarrow> HealthManager" where
  "evaluate_silently env h m = fst (snd (evaluate (wall_clock env) h (layered m) None))"

text \<open>\<^verbatim>\<open>if let Some(parent) = Path::new(&p.report_path).parent() { let _ = fs::create_dir_all(..); }\<close> has no
  effect on the result; writing the report has.\<close>

definition write_json :: "bench_env \<Rightarrow> ('r \<Rightarrow> string + string) \<Rightarrow> string \<Rightarrow> string \<Rightarrow> 'r \<Rightarrow> string + unit" where
  "write_json env json base rel report = write_file env (path_join base rel) (unwrap_or (json report) ''{}'')"

text \<open>\<^verbatim>\<open>fs::read_to_string(path).map_err(|e| Config(format!("read {}: {e}", path.display())))\<close>\<close>

definition read_for :: "bench_env \<Rightarrow> (string \<Rightarrow> 'e) \<Rightarrow> string \<Rightarrow> 'e + string" where
  "read_for env err path = map_err (\<lambda>e. err (''read '' @ path @ '': '' @ e)) (read_to_string env path)"

subsection \<open>Acceptance\<close>

record AcceptanceProfile =
  ap_version :: string
  ap_id :: string
  ap_bench_profile :: string
  ap_ethernet_config :: string
  min_model_bandwidth_gbps :: f64
  max_p99_latency_ns :: u64
  ap_max_sequence_gaps :: u64
  ap_max_late_packets :: u64
  ap_max_symbol_miss :: u64
  ap_min_packets :: u64
  ap_report_path :: string
  ap_health_policy :: string
  ap_require_health_normal :: bool

text \<open>The document: the last two fields have defaults.\<close>

record AcceptanceDoc =
  ad_version :: string
  ad_id :: string
  ad_bench_profile :: string
  ad_ethernet_config :: string
  ad_min_model_bandwidth_gbps :: f64
  ad_max_p99_latency_ns :: u64
  ad_max_sequence_gaps :: u64
  ad_max_late_packets :: u64
  ad_max_symbol_miss :: u64
  ad_min_packets :: u64
  ad_report_path :: string
  ad_health_policy :: "string option"
  ad_require_health_normal :: "bool option"

definition default_health_policy :: string where "default_health_policy = ''configs/ops/health_policy.yaml''"

definition AcceptanceProfile_of :: "AcceptanceDoc \<Rightarrow> AcceptanceProfile" where
  "AcceptanceProfile_of d =
     \<lparr>ap_version = ad_version d, ap_id = ad_id d, ap_bench_profile = ad_bench_profile d, ap_ethernet_config = ad_ethernet_config d,
      min_model_bandwidth_gbps = ad_min_model_bandwidth_gbps d, max_p99_latency_ns = ad_max_p99_latency_ns d,
      ap_max_sequence_gaps = ad_max_sequence_gaps d, ap_max_late_packets = ad_max_late_packets d,
      ap_max_symbol_miss = ad_max_symbol_miss d, ap_min_packets = ad_min_packets d, ap_report_path = ad_report_path d,
      ap_health_policy = or_default (ad_health_policy d) default_health_policy,
      ap_require_health_normal = or_default (ad_require_health_normal d) False\<rparr>"

record GateResult =
  gate_name :: string
  gate_passed :: bool
  gate_detail :: string

record AcceptanceReport =
  ar_profile_id :: string
  ar_passed :: bool
  ar_gates :: "GateResult list"
  ar_bench :: BenchReport
  ar_health :: "string option"

datatype AcceptanceError =
    AcceptanceConfig string
  | AcceptanceBench PipelineBenchError
  | AcceptanceIo string
  | AcceptanceFailed AcceptanceReport

definition AcceptanceProfile_from_yaml_str ::
    "(string \<Rightarrow> string + AcceptanceDoc) \<Rightarrow> string \<Rightarrow> AcceptanceError + AcceptanceProfile" where
  "AcceptanceProfile_from_yaml_str yaml_parse s = map_err AcceptanceConfig (map_sum id AcceptanceProfile_of (yaml_parse s))"

definition AcceptanceProfile_load_path ::
    "bench_env \<Rightarrow> (string \<Rightarrow> string + AcceptanceDoc) \<Rightarrow> string \<Rightarrow> AcceptanceError + AcceptanceProfile" where
  "AcceptanceProfile_load_path env yaml_parse path =
     and_then (read_for env AcceptanceConfig path) (AcceptanceProfile_from_yaml_str yaml_parse)"

definition u64_gate :: "string \<Rightarrow> u64 \<Rightarrow> u64 \<Rightarrow> GateResult" where
  "u64_gate name v m = \<lparr>gate_name = name, gate_passed = v \<le> m, gate_detail = show_u64 v @ '' <= '' @ show_u64 m\<rparr>"

definition acceptance_gates ::
    "AcceptanceProfile \<Rightarrow> EthernetModelConfig \<Rightarrow> BenchReport \<Rightarrow> HealthState \<Rightarrow> GateResult list" where
  "acceptance_gates p eth bench health_state =
     [\<lparr>gate_name = ''ethernet_model_bandwidth'',
       gate_passed = f_le (min_model_bandwidth_gbps p) (f64_add (bandwidth_gbps eth) f64_EPSILON),
       gate_detail = ''model '' @ show_f64 (bandwidth_gbps eth) @ '' Gbps vs min '' @ show_f64 (min_model_bandwidth_gbps p)\<rparr>,
      \<lparr>gate_name = ''min_packets'', gate_passed = ap_min_packets p \<le> br_packets bench,
       gate_detail = show_u64 (br_packets bench) @ '' >= '' @ show_u64 (ap_min_packets p)\<rparr>,
      u64_gate ''max_p99_latency_ns'' (p99_ns (br_latency bench)) (max_p99_latency_ns p),
      u64_gate ''max_sequence_gaps'' (br_sequence_gaps bench) (ap_max_sequence_gaps p),
      u64_gate ''max_late_packets'' (br_late_packets bench) (ap_max_late_packets p),
      u64_gate ''max_symbol_miss'' (rds_symbol_miss (br_radio bench)) (ap_max_symbol_miss p)]
     @ (if ap_require_health_normal p
        then [\<lparr>gate_name = ''health_normal'', gate_passed = health_state = Normal, gate_detail = health_as_str health_state\<rparr>]
        else [])"

definition Acceptance_run ::
    "bench_env \<Rightarrow> (AcceptanceReport \<Rightarrow> string + string) \<Rightarrow> string \<Rightarrow> AcceptanceProfile \<Rightarrow> AcceptanceError + AcceptanceReport" where
  "Acceptance_run env json base p =
     and_then (read_for env AcceptanceConfig (path_join base (ap_ethernet_config p))) (\<lambda>eth_yaml.
     and_then (map_err (\<lambda>e. AcceptanceConfig (show_EthernetError e))
                 (EthernetModelConfig_from_yaml_str (parse_eth env) eth_yaml)) (\<lambda>eth.
     and_then (read_for env AcceptanceConfig (path_join base (ap_bench_profile p))) (\<lambda>bench_yaml.
     and_then (map_err AcceptanceBench (BenchProfile_from_yaml_str env bench_yaml)) (\<lambda>bench_profile.
     and_then (map_err AcceptanceBench (PipelineBench_run env base bench_profile)) (\<lambda>(bench, metrics).
     let thr = load_thresholds env base (ap_health_policy p);
         health_state = hm_state (evaluate_silently env (HealthManager_new thr) metrics);
         gates = acceptance_gates p eth bench health_state;
         passed = list_all gate_passed gates;
         report = \<lparr>ar_profile_id = ap_id p, ar_passed = passed, ar_gates = gates, ar_bench = bench,
                   ar_health = Some (health_as_str health_state)\<rparr>
     in and_then (map_err AcceptanceIo (write_json env json base (ap_report_path p) report)) (\<lambda>_.
        if \<not> passed then Inl (AcceptanceFailed report) else Inr report))))))"

subsection \<open>Soak\<close>

record SoakProfile =
  sp_version :: string
  sp_id :: string
  sp_bench_profile :: string
  sp_fault_config :: "string option"
  symbol_count_override :: "u64 option"
  streams_override :: "u32 option"
  sp_report_path :: string
  sp_events_path :: "string option"
  sp_max_sequence_gaps :: u64
  max_deadline_miss_ratio :: f64
  sp_min_packets :: u64
  sp_health_policy :: string
  sp_rounds :: u32
  sp_require_health_normal :: bool
  sp_round_interval_ms :: u64

record SoakDoc =
  sd_version :: string
  sd_id :: string
  sd_bench_profile :: string
  sd_fault_config :: "string option"
  sd_symbol_count_override :: "u64 option"
  sd_streams_override :: "u32 option"
  sd_report_path :: string
  sd_events_path :: "string option"
  sd_max_sequence_gaps :: u64
  sd_max_deadline_miss_ratio :: f64
  sd_min_packets :: u64
  sd_health_policy :: "string option"
  sd_rounds :: "u32 option"
  sd_require_health_normal :: "bool option"
  sd_round_interval_ms :: "u64 option"

definition soak_default_health_policy :: string where "soak_default_health_policy = ''configs/ops/health_policy.yaml''"

definition default_rounds :: u32 where "default_rounds = 1"

definition SoakProfile_of :: "SoakDoc \<Rightarrow> SoakProfile" where
  "SoakProfile_of d =
     \<lparr>sp_version = sd_version d, sp_id = sd_id d, sp_bench_profile = sd_bench_profile d, sp_fault_config = sd_fault_config d,
      symbol_count_override = sd_symbol_count_override d, streams_override = sd_streams_override d, sp_report_path = sd_report_path d,
      sp_events_path = sd_events_path d, sp_max_sequence_gaps = sd_max_sequence_gaps d,
      max_deadline_miss_ratio = sd_max_deadline_miss_ratio d, sp_min_packets = sd_min_packets d,
      sp_health_policy = or_default (sd_health_policy d) soak_default_health_policy, sp_rounds = or_default (sd_rounds d) default_rounds,
      sp_require_health_normal = or_default (sd_require_health_normal d) False,
      sp_round_interval_ms = or_default (sd_round_interval_ms d) 0\<rparr>"

record SoakGate =
  sg_name :: string
  sg_passed :: bool
  sg_detail :: string

record SoakRoundHealth =
  srh_round :: u32
  srh_health :: string
  srh_packets :: u64
  srh_sequence_gaps :: u64
  srh_recovery_actions :: u64

record SoakReport =
  sr_profile_id :: string
  sr_passed :: bool
  sr_gates :: "SoakGate list"
  sr_bench :: BenchReport
  sr_fault_config :: "string option"
  sr_health :: "string option"
  sr_recovery_actions :: u64
  sr_rounds :: u32
  sr_round_health :: "SoakRoundHealth list"
  elapsed_wall_ms :: u64
  sr_round_interval_ms :: u64

datatype SoakError =
    SoakConfig string
  | SoakBench PipelineBenchError
  | SoakIo string
  | SoakFailed SoakReport

definition SoakProfile_from_yaml_str :: "(string \<Rightarrow> string + SoakDoc) \<Rightarrow> string \<Rightarrow> SoakError + SoakProfile" where
  "SoakProfile_from_yaml_str yaml_parse s = map_err SoakConfig (map_sum id SoakProfile_of (yaml_parse s))"

definition SoakProfile_load_path ::
    "bench_env \<Rightarrow> (string \<Rightarrow> string + SoakDoc) \<Rightarrow> string \<Rightarrow> SoakError + SoakProfile" where
  "SoakProfile_load_path env yaml_parse path =
     and_then (read_for env SoakConfig path) (SoakProfile_from_yaml_str yaml_parse)"

definition ThroughputStats_default :: ThroughputStats where
  "ThroughputStats_default = \<lparr>gbps = Fin 0, gbs = Fin 0, pps = Fin 0\<rparr>"

definition BenchReport_default :: BenchReport where
  "BenchReport_default = \<lparr>br_throughput = ThroughputStats_default, br_latency = LatencyStats_default,
     br_radio = \<lparr>rds_slot_miss = 0, rds_symbol_miss = 0\<rparr>, br_packets = 0, br_bytes = 0, br_sequence_gaps = 0,
     br_late_packets = 0, sim_duration_ns = 0, recovery_actions = 0, ring_occupancy_peak = 0\<rparr>"

text \<open>The event file of round \<open>r\<close>.\<close>

definition round_events_path :: "u32 \<Rightarrow> u32 \<Rightarrow> string \<Rightarrow> string" where
  "round_events_path rounds r events =
     (if rounds = 1 then events
      else
        let stem = or_default (file_stem events) ''soak_events'';
            parent = or_default (path_parent events) ''data/reports''
        in path_join parent (stem @ ''_r'' @ show_u32 r @ ''.jsonl''))"

definition soak_bench_profile :: "SoakProfile \<Rightarrow> u32 \<Rightarrow> u32 \<Rightarrow> BenchProfile \<Rightarrow> BenchProfile" where
  "soak_bench_profile p rounds r b =
     (let b = (case symbol_count_override p of Some n \<Rightarrow> b\<lparr>symbol_count := n\<rparr> | None \<Rightarrow> b);
          b = (case streams_override p of Some s \<Rightarrow> b\<lparr>bp_streams := s\<rparr> | None \<Rightarrow> b);
          b = (case sp_events_path p of Some events \<Rightarrow> b\<lparr>bp_events_path := round_events_path rounds r events\<rparr> | None \<Rightarrow> b);
          b = (case sp_fault_config p of Some fault \<Rightarrow> b\<lparr>bp_fault_config := fault\<rparr> | None \<Rightarrow> b)
      in b\<lparr>bp_report_path := sp_report_path p\<rparr>)"

definition soak_aggregate :: "BenchReport \<Rightarrow> BenchReport \<Rightarrow> BenchReport" where
  "soak_aggregate a bench =
     \<lparr>br_throughput = br_throughput bench, br_latency = br_latency bench,
      br_radio = \<lparr>rds_slot_miss = sat_add (rds_slot_miss (br_radio a)) (rds_slot_miss (br_radio bench)),
                  rds_symbol_miss = sat_add (rds_symbol_miss (br_radio a)) (rds_symbol_miss (br_radio bench))\<rparr>,
      br_packets = sat_add (br_packets a) (br_packets bench), br_bytes = sat_add (br_bytes a) (br_bytes bench),
      br_sequence_gaps = sat_add (br_sequence_gaps a) (br_sequence_gaps bench),
      br_late_packets = sat_add (br_late_packets a) (br_late_packets bench),
      sim_duration_ns = sat_add (sim_duration_ns a) (sim_duration_ns bench),
      recovery_actions = sat_add (recovery_actions a) (recovery_actions bench),
      ring_occupancy_peak = max (ring_occupancy_peak a) (ring_occupancy_peak bench)\<rparr>"

text \<open>The variables of the loop over the rounds.\<close>

record SoakState =
  ss_health :: HealthManager
  ss_aggregate :: BenchReport
  ss_round_health :: "SoakRoundHealth list"
  ss_last_health :: HealthState

definition soak_round ::
    "bench_env \<Rightarrow> string \<Rightarrow> SoakProfile \<Rightarrow> u32 \<Rightarrow> u32 \<Rightarrow> SoakState \<Rightarrow> SoakError + SoakState" where
  "soak_round env base p rounds r s =
     and_then (map_err SoakBench (BenchProfile_load_path env (path_join base (sp_bench_profile p)))) (\<lambda>bench_profile.
     and_then (map_err SoakBench (PipelineBench_run env base (soak_bench_profile p rounds r bench_profile))) (\<lambda>(bench, metrics).
     let health = evaluate_silently env (ss_health s) metrics;
         last_health = hm_state health
     in Inr \<lparr>ss_health = health,
             ss_aggregate = soak_aggregate (ss_aggregate s) bench,
             ss_round_health = ss_round_health s @ [\<lparr>srh_round = r, srh_health = health_as_str last_health,
               srh_packets = br_packets bench, srh_sequence_gaps = br_sequence_gaps bench,
               srh_recovery_actions = recovery_actions bench\<rparr>],
             ss_last_health = last_health\<rparr>))"

fun soak_rounds ::
    "(u32 \<Rightarrow> bench_env) \<Rightarrow> string \<Rightarrow> SoakProfile \<Rightarrow> u32 \<Rightarrow> u32 list \<Rightarrow> SoakState \<Rightarrow> SoakError + SoakState" where
  "soak_rounds envs base p rounds [] s = Inr s"
| "soak_rounds envs base p rounds (r # rs) s =
     and_then (soak_round (envs r) base p rounds r s) (soak_rounds envs base p rounds rs)"

definition soak_miss_ratio :: "BenchReport \<Rightarrow> f64" where
  "soak_miss_ratio a =
     (if br_packets a = 0 then f64_lit 1 else f64_div (f64_of_u64 (rds_symbol_miss (br_radio a))) (f64_of_u64 (br_packets a)))"

text \<open>\<^verbatim>\<open>{:?}\<close> of a vector of strings without characters to escape.\<close>

fun join_strings :: "string \<Rightarrow> string list \<Rightarrow> string" where
  "join_strings sep [] = []"
| "join_strings sep [x] = x"
| "join_strings sep (x # y # xs) = x @ sep @ join_strings sep (y # xs)"

definition show_debug_strings :: "string list \<Rightarrow> string" where
  "show_debug_strings xs = ''['' @ join_strings '', '' (map (\<lambda>x. quote @ x @ quote) xs) @ '']''"

definition soak_gates :: "SoakProfile \<Rightarrow> u32 \<Rightarrow> SoakState \<Rightarrow> SoakGate list" where
  "soak_gates p rounds s =
     (let a = ss_aggregate s; rh = ss_round_health s in
      [\<lparr>sg_name = ''min_packets'', sg_passed = sp_min_packets p \<le> br_packets a,
        sg_detail = show_u64 (br_packets a) @ '' >= '' @ show_u64 (sp_min_packets p)\<rparr>,
       \<lparr>sg_name = ''max_sequence_gaps'', sg_passed = br_sequence_gaps a \<le> sp_max_sequence_gaps p,
        sg_detail = show_u64 (br_sequence_gaps a) @ '' <= '' @ show_u64 (sp_max_sequence_gaps p)\<rparr>,
       \<lparr>sg_name = ''max_deadline_miss_ratio'', sg_passed = f_le (soak_miss_ratio a) (max_deadline_miss_ratio p),
        sg_detail = show_f64_4 (soak_miss_ratio a) @ '' <= '' @ show_f64 (max_deadline_miss_ratio p)\<rparr>,
       \<lparr>sg_name = ''rounds_completed'', sg_passed = word_of_nat (length rh) = rounds,
        sg_detail = show_nat (length rh) @ '' == '' @ show_u32 rounds\<rparr>]
      @ (if sp_require_health_normal p
         then [\<lparr>sg_name = ''health_normal_each_round'',
                sg_passed = list_all (\<lambda>h. srh_health h = health_as_str Normal) rh,
                sg_detail = show_debug_strings (map srh_health rh)\<rparr>]
         else []))"

text \<open>\<open>env\<close> is the environment before the first and after the last round, \<open>elapsed\<close> the time that
  \<^verbatim>\<open>Instant::elapsed\<close> reports.\<close>

definition Soak_run ::
    "bench_env \<Rightarrow> (u32 \<Rightarrow> bench_env) \<Rightarrow> u64 \<Rightarrow> (SoakReport \<Rightarrow> string + string) \<Rightarrow> string \<Rightarrow> SoakProfile \<Rightarrow> SoakError + SoakReport" where
  "Soak_run env envs elapsed json base p =
     (let rounds = max (sp_rounds p) 1;
          health = HealthManager_new (load_thresholds env base (sp_health_policy p));
          s = \<lparr>ss_health = health, ss_aggregate = BenchReport_default, ss_round_health = [], ss_last_health = Normal\<rparr>
      in and_then (soak_rounds envs base p rounds (map word_of_nat [1..<Suc (unat rounds)]) s) (\<lambda>s.
      let gates = soak_gates p rounds s;
          passed = list_all sg_passed gates;
          report = \<lparr>sr_profile_id = sp_id p, sr_passed = passed, sr_gates = gates, sr_bench = ss_aggregate s,
                    sr_fault_config = sp_fault_config p, sr_health = Some (health_as_str (ss_last_health s)),
                    sr_recovery_actions = recovery_actions (ss_aggregate s), sr_rounds = rounds,
                    sr_round_health = ss_round_health s, elapsed_wall_ms = elapsed,
                    sr_round_interval_ms = sp_round_interval_ms p\<rparr>
      in and_then (map_err SoakIo (write_json env json base (sp_report_path p) report)) (\<lambda>_.
         if \<not> passed then Inl (SoakFailed report) else Inr report)))"

subsection \<open>Fault drill\<close>

record FaultDrillProfile =
  fd_version :: string
  fd_id :: string
  fd_bench_profile :: string
  fd_fault_config :: string
  fd_recovery_policy :: string
  fd_symbol_count :: "u64 option"
  fd_streams :: "u32 option"
  fd_report_path :: string
  fd_events_path :: "string option"

record FaultDrillReport =
  fdr_profile_id :: string
  fdr_passed :: bool
  recovery_policy_id :: string
  fdr_recovery_actions :: u64
  fdr_health :: string
  fdr_bench :: BenchReport
  fdr_fault_config :: string

datatype FaultDrillError =
    FaultDrillConfig string
  | FaultDrillBench PipelineBenchError
  | FaultDrillIo string

definition FaultDrillProfile_from_yaml_str ::
    "(string \<Rightarrow> string + FaultDrillProfile) \<Rightarrow> string \<Rightarrow> FaultDrillError + FaultDrillProfile" where
  "FaultDrillProfile_from_yaml_str yaml_parse s = map_err FaultDrillConfig (yaml_parse s)"

definition FaultDrillProfile_load_path ::
    "bench_env \<Rightarrow> (string \<Rightarrow> string + FaultDrillProfile) \<Rightarrow> string \<Rightarrow> FaultDrillError + FaultDrillProfile" where
  "FaultDrillProfile_load_path env yaml_parse path =
     and_then (read_for env FaultDrillConfig path) (FaultDrillProfile_from_yaml_str yaml_parse)"

definition drill_bench_profile :: "FaultDrillProfile \<Rightarrow> BenchProfile \<Rightarrow> BenchProfile" where
  "drill_bench_profile p b =
     (let b = b\<lparr>bp_fault_config := fd_fault_config p\<rparr>;
          b = (case fd_symbol_count p of Some n \<Rightarrow> b\<lparr>symbol_count := n\<rparr> | None \<Rightarrow> b);
          b = (case fd_streams p of Some s \<Rightarrow> b\<lparr>bp_streams := s\<rparr> | None \<Rightarrow> b);
          b = (case fd_events_path p of Some events \<Rightarrow> b\<lparr>bp_events_path := events\<rparr> | None \<Rightarrow> b)
      in b\<lparr>bp_report_path := fd_report_path p\<rparr>)"

fun show_RecoveryError :: "RecoveryError \<Rightarrow> string" where
  "show_RecoveryError (RecoveryConfigError e) = show_config_error e"

definition drill_passed :: "BenchReport \<Rightarrow> HealthState \<Rightarrow> bool" where
  "drill_passed bench st \<longleftrightarrow>
     0 < br_packets bench
     \<and> (0 < recovery_actions bench \<or> 0 < br_sequence_gaps bench \<or> 0 < br_late_packets bench \<or> st \<noteq> Normal)"

definition FaultDrill_run ::
    "bench_env \<Rightarrow> (FaultDrillReport \<Rightarrow> string + string) \<Rightarrow> string \<Rightarrow> FaultDrillProfile \<Rightarrow> FaultDrillError + FaultDrillReport" where
  "FaultDrill_run env json base p =
     and_then (map_err FaultDrillBench (BenchProfile_load_path env (path_join base (fd_bench_profile p)))) (\<lambda>bench_profile.
     and_then (map_err (\<lambda>e. FaultDrillConfig (show_RecoveryError e))
                 (RecoveryPolicy_load_path (read_to_string env) (parse_recovery env) (path_join base (fd_recovery_policy p)))) (\<lambda>recovery.
     and_then (map_err FaultDrillBench (PipelineBench_run env base (drill_bench_profile p bench_profile))) (\<lambda>(bench, metrics).
     let thr = load_thresholds env base ''configs/ops/health_policy.yaml'';
         st = hm_state (evaluate_silently env (HealthManager_new thr) metrics);
         report = \<lparr>fdr_profile_id = fd_id p, fdr_passed = drill_passed bench st, recovery_policy_id = rp_id recovery,
                   fdr_recovery_actions = recovery_actions bench, fdr_health = health_as_str st, fdr_bench = bench,
                   fdr_fault_config = fd_fault_config p\<rparr>
     in and_then (map_err FaultDrillIo (write_json env json base (fd_report_path p) report)) (\<lambda>_. Inr report))))"

section \<open>Acceptance\<close>

text \<open>What a profile asks for, without the gates.\<close>

definition meets :: "AcceptanceProfile \<Rightarrow> EthernetModelConfig \<Rightarrow> BenchReport \<Rightarrow> HealthState \<Rightarrow> bool" where
  "meets p eth bench st \<longleftrightarrow>
     f_le (min_model_bandwidth_gbps p) (f64_add (bandwidth_gbps eth) f64_EPSILON)
     \<and> ap_min_packets p \<le> br_packets bench \<and> p99_ns (br_latency bench) \<le> max_p99_latency_ns p
     \<and> br_sequence_gaps bench \<le> ap_max_sequence_gaps p \<and> br_late_packets bench \<le> ap_max_late_packets p
     \<and> rds_symbol_miss (br_radio bench) \<le> ap_max_symbol_miss p
     \<and> \<not> (ap_require_health_normal p \<and> st \<noteq> Normal)"

lemma gates_meet: "list_all gate_passed (acceptance_gates p eth bench st) \<longleftrightarrow> meets p eth bench st"
  by (simp add: acceptance_gates_def meets_def u64_gate_def)

text \<open>The run of the bench that an acceptance run judges, with the Ethernet model and the health state.\<close>

definition bench_of ::
    "bench_env \<Rightarrow> string \<Rightarrow> AcceptanceProfile \<Rightarrow> (EthernetModelConfig \<times> BenchReport \<times> HealthState) option" where
  "bench_of env base p =
     (case (read_to_string env (path_join base (ap_ethernet_config p)), read_to_string env (path_join base (ap_bench_profile p))) of
        (Inr ey, Inr by) \<Rightarrow>
          (case (parse_eth env ey, parse_profile env by) of
             (Inr eth, Inr doc) \<Rightarrow>
               (case PipelineBench_run env base (BenchProfile_of doc) of
                  Inr (bench, m) \<Rightarrow>
                    Some (eth, bench, next_health (load_thresholds env base (ap_health_policy p)) Normal (layered m))
                | _ \<Rightarrow> None)
           | _ \<Rightarrow> None)
      | _ \<Rightarrow> None)"

lemma evaluate_silently_new:
  "hm_state (evaluate_silently env (HealthManager_new thr) m) = next_health thr Normal (layered m)"
  by (simp add: evaluate_silently_def evaluate_state HealthManager_new_def)

text \<open>
  C19: the verdict of an acceptance run.  When a file is missing or the bench fails, the run ends with a
  configuration or bench error.  Otherwise a report on that run of the bench is written; it says
  \<^verbatim>\<open>passed\<close> exactly when the bench meets every limit of the profile, and the result is the report or the
  failure with the report, accordingly, or the error of writing it.
\<close>

theorem acceptance_verdict:
  "(case bench_of env base p of
      None \<Rightarrow> (case Acceptance_run env json base p of
                 Inl (AcceptanceConfig _) \<Rightarrow> True | Inl (AcceptanceBench _) \<Rightarrow> True | _ \<Rightarrow> False)
    | Some (eth, bench, st) \<Rightarrow>
        \<exists>report. ar_bench report = bench \<and> ar_passed report = meets p eth bench st
          \<and> ar_passed report = list_all gate_passed (ar_gates report) \<and> ar_health report = Some (health_as_str st)
          \<and> Acceptance_run env json base p =
              (case write_json env json base (ap_report_path p) report of
                 Inl e \<Rightarrow> Inl (AcceptanceIo e)
               | Inr _ \<Rightarrow> if meets p eth bench st then Inr report else Inl (AcceptanceFailed report)))"
proof (cases "bench_of env base p")
  case None
  then show ?thesis
    by (auto simp: bench_of_def Acceptance_run_def read_for_def EthernetModelConfig_from_yaml_str_def
        BenchProfile_from_yaml_str_def and_then_def map_err_def split: sum.splits prod.splits)
next
  case (Some x)
  obtain eth bench st where x: "x = (eth, bench, st)" by (cases x)
  obtain ey by' doc m where run: "read_to_string env (path_join base (ap_ethernet_config p)) = Inr ey"
      "read_to_string env (path_join base (ap_bench_profile p)) = Inr by'" "parse_eth env ey = Inr eth"
      "parse_profile env by' = Inr doc" "PipelineBench_run env base (BenchProfile_of doc) = Inr (bench, m)"
      "st = next_health (load_thresholds env base (ap_health_policy p)) Normal (layered m)"
    using Some x by (auto simp: bench_of_def split: sum.splits prod.splits)
  let ?r = "\<lparr>ar_profile_id = ap_id p, ar_passed = meets p eth bench st, ar_gates = acceptance_gates p eth bench st,
    ar_bench = bench, ar_health = Some (health_as_str st)\<rparr>"
  have "Acceptance_run env json base p =
      (case write_json env json base (ap_report_path p) ?r of
         Inl e \<Rightarrow> Inl (AcceptanceIo e) | Inr _ \<Rightarrow> if meets p eth bench st then Inr ?r else Inl (AcceptanceFailed ?r))"
    by (simp add: Acceptance_run_def read_for_def EthernetModelConfig_from_yaml_str_def BenchProfile_from_yaml_str_def run
        evaluate_silently_new gates_meet Let_def split: sum.split)
  then show ?thesis using Some x by (simp add: gates_meet exI [of _ ?r])
qed

section \<open>Soak\<close>

text \<open>The bench run of round \<open>r\<close> and what a round makes of it.\<close>

definition soak_bench :: "(u32 \<Rightarrow> bench_env) \<Rightarrow> string \<Rightarrow> SoakProfile \<Rightarrow> u32 \<Rightarrow> PipelineBenchError + (BenchReport \<times> MetricsEngine)" where
  "soak_bench envs base p r =
     and_then (BenchProfile_load_path (envs r) (path_join base (sp_bench_profile p)))
       (\<lambda>b. PipelineBench_run (envs r) base (soak_bench_profile p (max (sp_rounds p) 1) r b))"

definition soak_after :: "(u32 \<Rightarrow> bench_env) \<Rightarrow> string \<Rightarrow> SoakProfile \<Rightarrow> SoakState \<Rightarrow> u32 \<Rightarrow> SoakState" where
  "soak_after envs base p s r =
     (let (bench, m) = projr (soak_bench envs base p r); h = evaluate_silently (envs r) (ss_health s) m
      in \<lparr>ss_health = h, ss_aggregate = soak_aggregate (ss_aggregate s) bench,
          ss_round_health = ss_round_health s @ [\<lparr>srh_round = r, srh_health = health_as_str (hm_state h),
            srh_packets = br_packets bench, srh_sequence_gaps = br_sequence_gaps bench,
            srh_recovery_actions = recovery_actions bench\<rparr>],
          ss_last_health = hm_state h\<rparr>)"

lemma soak_round_eq:
  "soak_round (envs r) base p (max (sp_rounds p) 1) r s =
     (case soak_bench envs base p r of Inl e \<Rightarrow> Inl (SoakBench e) | Inr _ \<Rightarrow> Inr (soak_after envs base p s r))"
  by (auto simp: soak_round_def soak_bench_def soak_after_def and_then_def Let_def split: sum.splits prod.splits)

lemma soak_rounds_eq:
  "soak_rounds envs base p (max (sp_rounds p) 1) rs s =
     (case find (\<lambda>r. isl (soak_bench envs base p r)) rs of
        Some r \<Rightarrow> Inl (SoakBench (projl (soak_bench envs base p r)))
      | None \<Rightarrow> Inr (foldl (soak_after envs base p) s rs))"
  by (induction rs arbitrary: s) (auto simp: soak_round_eq split: sum.splits option.splits)

definition round_report :: "(u32 \<Rightarrow> bench_env) \<Rightarrow> string \<Rightarrow> SoakProfile \<Rightarrow> u32 \<Rightarrow> BenchReport" where
  "round_report envs base p r = fst (projr (soak_bench envs base p r))"

lemma min_add_sat: "min (min x M + b) M = min (x + b) (M :: nat)"
  by (simp add: min_def)

text \<open>The sum of a counter over the rounds, up to the largest number.\<close>

definition soak_total :: "(u32 \<Rightarrow> bench_env) \<Rightarrow> string \<Rightarrow> SoakProfile \<Rightarrow> (BenchReport \<Rightarrow> u64) \<Rightarrow> nat" where
  "soak_total envs base p f =
     min (\<Sum>r\<leftarrow>[1..<Suc (unat (max (sp_rounds p) 1))]. unat (f (round_report envs base p (word_of_nat r)))) (2 ^ 64 - 1)"

lemma soak_after_rounds: "map srh_round (ss_round_health (foldl (soak_after envs base p) s rs)) = map srh_round (ss_round_health s) @ rs"
  by (induction rs arbitrary: s) (simp_all add: soak_after_def Let_def split_beta)

lemma soak_after_counter:
  fixes f :: "BenchReport \<Rightarrow> u64"
  assumes "\<And>a b. f (soak_aggregate a b) = sat_add (f a) (f b)"
  shows "unat (f (ss_aggregate (foldl (soak_after envs base p) s rs))) =
    min (unat (f (ss_aggregate s)) + (\<Sum>r\<leftarrow>rs. unat (f (round_report envs base p r)))) (2 ^ 64 - 1)"
proof (induction rs arbitrary: s)
  case Nil
  then show ?case using unsigned_less [of "f (ss_aggregate s)", where 'a = nat] by simp
next
  case (Cons r rs)
  have "f (ss_aggregate (soak_after envs base p s r)) = sat_add (f (ss_aggregate s)) (f (round_report envs base p r))"
    by (simp add: soak_after_def round_report_def assms Let_def split_beta)
  then show ?case by (simp add: Cons.IH unat_sat_add min_add_sat add.assoc)
qed

lemma soak_counters:
  "br_packets (soak_aggregate a b) = sat_add (br_packets a) (br_packets b)"
  "br_bytes (soak_aggregate a b) = sat_add (br_bytes a) (br_bytes b)"
  "br_sequence_gaps (soak_aggregate a b) = sat_add (br_sequence_gaps a) (br_sequence_gaps b)"
  "br_late_packets (soak_aggregate a b) = sat_add (br_late_packets a) (br_late_packets b)"
  "rds_symbol_miss (br_radio (soak_aggregate a b)) = sat_add (rds_symbol_miss (br_radio a)) (rds_symbol_miss (br_radio b))"
  "sim_duration_ns (soak_aggregate a b) = sat_add (sim_duration_ns a) (sim_duration_ns b)"
  "recovery_actions (soak_aggregate a b) = sat_add (recovery_actions a) (recovery_actions b)"
  by (simp_all add: soak_aggregate_def)

text \<open>The states of health, each from the one before and the metrics of the round.\<close>

fun healths :: "HealthThresholds \<Rightarrow> HealthState \<Rightarrow> LayeredMetricsSnapshot list \<Rightarrow> HealthState list" where
  "healths thr st [] = []"
| "healths thr st (m # ms) = next_health thr st m # healths thr (next_health thr st m) ms"

definition round_metrics :: "(u32 \<Rightarrow> bench_env) \<Rightarrow> string \<Rightarrow> SoakProfile \<Rightarrow> u32 \<Rightarrow> LayeredMetricsSnapshot" where
  "round_metrics envs base p r = layered (snd (projr (soak_bench envs base p r)))"

lemma evaluate_silently_steps:
  "thresholds (evaluate_silently env h m) = thresholds h"
  "hm_state (evaluate_silently env h m) = next_health (thresholds h) (hm_state h) (layered m)"
  by (simp_all add: evaluate_silently_def evaluate_state)

lemma soak_after_health:
  "map srh_health (ss_round_health (foldl (soak_after envs base p) s rs)) = map srh_health (ss_round_health s)
     @ map health_as_str (healths (thresholds (ss_health s)) (hm_state (ss_health s)) (map (round_metrics envs base p) rs))"
  by (induction rs arbitrary: s) (simp_all add: soak_after_def round_metrics_def evaluate_silently_steps Let_def split_beta)

text \<open>The state before the first round, and the report of a state after the last one.\<close>

definition soak_start :: "bench_env \<Rightarrow> string \<Rightarrow> SoakProfile \<Rightarrow> SoakState" where
  "soak_start env base p = \<lparr>ss_health = HealthManager_new (load_thresholds env base (sp_health_policy p)),
     ss_aggregate = BenchReport_default, ss_round_health = [], ss_last_health = Normal\<rparr>"

definition soak_report :: "SoakProfile \<Rightarrow> u64 \<Rightarrow> SoakState \<Rightarrow> SoakReport" where
  "soak_report p elapsed s =
     (let n = max (sp_rounds p) 1; gates = soak_gates p n s in
      \<lparr>sr_profile_id = sp_id p, sr_passed = list_all sg_passed gates, sr_gates = gates, sr_bench = ss_aggregate s,
       sr_fault_config = sp_fault_config p, sr_health = Some (health_as_str (ss_last_health s)),
       sr_recovery_actions = recovery_actions (ss_aggregate s), sr_rounds = n, sr_round_health = ss_round_health s,
       elapsed_wall_ms = elapsed, sr_round_interval_ms = sp_round_interval_ms p\<rparr>)"

lemma soak_report_simps [simp]:
  "sr_bench (soak_report p t s) = ss_aggregate s" "sr_round_health (soak_report p t s) = ss_round_health s"
  "sr_recovery_actions (soak_report p t s) = recovery_actions (ss_aggregate s)"
  "sr_passed (soak_report p t s) = list_all sg_passed (soak_gates p (max (sp_rounds p) 1) s)"
  by (simp_all add: soak_report_def Let_def)

lemma soak_start_simps [simp]:
  "ss_round_health (soak_start env base p) = []" "ss_aggregate (soak_start env base p) = BenchReport_default"
  "thresholds (ss_health (soak_start env base p)) = load_thresholds env base (sp_health_policy p)"
  "hm_state (ss_health (soak_start env base p)) = Normal"
  by (simp_all add: soak_start_def HealthManager_new_def)

lemma soak_total_eq:
  assumes "\<And>a b. f (soak_aggregate a b) = sat_add (f a) (f b)" "f BenchReport_default = 0"
  shows "unat (f (ss_aggregate (foldl (soak_after envs base p) (soak_start env base p)
      (map word_of_nat [1..<Suc (unat (max (sp_rounds p) 1))])))) = soak_total envs base p f"
  unfolding soak_after_counter [OF assms(1)] by (simp add: soak_total_def assms(2) comp_def del: upt_Suc)

lemma health_normal_iff: "list_all (\<lambda>h. srh_health h = ''NORMAL'') rh \<longleftrightarrow> list_all (\<lambda>h. h = Normal) hs"
  if "map srh_health rh = map health_as_str hs"
proof -
  have "health_as_str h = ''NORMAL'' \<longleftrightarrow> h = Normal" for h by (cases h) simp_all
  then have "list_all (\<lambda>x. x = ''NORMAL'') (map health_as_str hs) \<longleftrightarrow> list_all (\<lambda>h. h = Normal) hs" by (simp add: list_all_iff)
  moreover have "list_all (\<lambda>h. srh_health h = ''NORMAL'') rh \<longleftrightarrow> list_all (\<lambda>x. x = ''NORMAL'') (map srh_health rh)"
    by (simp add: list_all_iff)
  ultimately show ?thesis unfolding that by blast
qed

lemma soak_gates_pass:
  assumes "length (ss_round_health s) = unat n"
  shows "list_all sg_passed (soak_gates p n s) \<longleftrightarrow> sp_min_packets p \<le> br_packets (ss_aggregate s)
    \<and> br_sequence_gaps (ss_aggregate s) \<le> sp_max_sequence_gaps p
    \<and> f_le (soak_miss_ratio (ss_aggregate s)) (max_deadline_miss_ratio p)
    \<and> \<not> (sp_require_health_normal p \<and> \<not> list_all (\<lambda>h. srh_health h = ''NORMAL'') (ss_round_health s))"
  using assms by (simp add: soak_gates_def Let_def)

lemma Soak_run_eq:
  fixes env envs elapsed json base p
  defines "rs \<equiv> map word_of_nat [1..<Suc (unat (max (sp_rounds p) 1))]"
  defines "report \<equiv> soak_report p elapsed (foldl (soak_after envs base p) (soak_start env base p) rs)"
  shows "Soak_run env envs elapsed json base p =
    (case find (\<lambda>r. isl (soak_bench envs base p r)) rs of
       Some r \<Rightarrow> Inl (SoakBench (projl (soak_bench envs base p r)))
     | None \<Rightarrow>
         (case write_json env json base (sp_report_path p) report of
            Inl e \<Rightarrow> Inl (SoakIo e) | Inr _ \<Rightarrow> if sr_passed report then Inr report else Inl (SoakFailed report)))"
  unfolding Soak_run_def Let_def rs_def [symmetric] soak_start_def [symmetric] soak_rounds_eq
  by (simp add: report_def soak_report_def Let_def and_then_map_err split: option.split sum.split)

text \<open>
  C20: a soak run.  It stops with the error of the first round whose bench fails.  Otherwise all rounds are in the
  report, in order and at least one; the counters of the report (packets, bytes, sequence gaps, late packets, missed
  symbols, simulated time, recovery actions) are the sums over the rounds, up to the largest number; and the health noted
  for a round is the health manager's verdict on the metrics of that round, from the verdict of the round before and
  normal health at the start.  The run passes exactly when these sums meet the limits on packets, gaps and the ratio of
  missed symbols to packets (one without packets) and, if asked for, every verdict is normal; the gate on the number
  of rounds never fails.  The result is the report, the failure with the report, or the error of writing it.
\<close>

theorem soak_totals:
  "(let rs = map word_of_nat [1..<Suc (unat (max (sp_rounds p) 1))]; total = soak_total envs base p;
        hs = healths (load_thresholds env base (sp_health_policy p)) Normal (map (round_metrics envs base p) rs);
        u = \<lambda>n. f64_of_u64 (word_of_nat n);
        ratio = (if total br_packets = 0 then f64_lit 1
                 else f64_div (u (total (\<lambda>b. rds_symbol_miss (br_radio b)))) (u (total br_packets)))
    in case find (\<lambda>r. isl (soak_bench envs base p r)) rs of
      Some r \<Rightarrow> Soak_run env envs elapsed json base p = Inl (SoakBench (projl (soak_bench envs base p r)))
    | None \<Rightarrow>
        \<exists>report. Soak_run env envs elapsed json base p =
            (case write_json env json base (sp_report_path p) report of
               Inl e \<Rightarrow> Inl (SoakIo e)
             | Inr _ \<Rightarrow> if sr_passed report then Inr report else Inl (SoakFailed report))
          \<and> map srh_round (sr_round_health report) = rs
          \<and> map srh_health (sr_round_health report) = map health_as_str hs
          \<and> unat (br_packets (sr_bench report)) = total br_packets \<and> unat (br_bytes (sr_bench report)) = total br_bytes
          \<and> unat (br_sequence_gaps (sr_bench report)) = total br_sequence_gaps
          \<and> unat (br_late_packets (sr_bench report)) = total br_late_packets
          \<and> unat (rds_symbol_miss (br_radio (sr_bench report))) = total (\<lambda>b. rds_symbol_miss (br_radio b))
          \<and> unat (sim_duration_ns (sr_bench report)) = total sim_duration_ns
          \<and> unat (sr_recovery_actions report) = total recovery_actions
          \<and> (sr_passed report \<longleftrightarrow>
                unat (sp_min_packets p) \<le> total br_packets \<and> total br_sequence_gaps \<le> unat (sp_max_sequence_gaps p)
                \<and> f_le ratio (max_deadline_miss_ratio p)
                \<and> \<not> (sp_require_health_normal p \<and> \<not> list_all (\<lambda>h. h = Normal) hs)))"
proof -
  define rs where "rs = (map word_of_nat [1..<Suc (unat (max (sp_rounds p) 1))] :: u32 list)"
  define s where "s = foldl (soak_after envs base p) (soak_start env base p) rs"
  define hs where "hs = healths (load_thresholds env base (sp_health_policy p)) Normal (map (round_metrics envs base p) rs)"
  have rounds: "map srh_round (ss_round_health s) = rs" unfolding s_def by (simp add: soak_after_rounds)
  have health: "map srh_health (ss_round_health s) = map health_as_str hs" unfolding s_def hs_def by (simp add: soak_after_health)
  note total = soak_total_eq [where envs = envs and base = base and p = p and env = env, folded rs_def, folded s_def]
  have totals: "soak_total envs base p br_packets = unat (br_packets (ss_aggregate s))"
      "soak_total envs base p br_bytes = unat (br_bytes (ss_aggregate s))"
      "soak_total envs base p br_sequence_gaps = unat (br_sequence_gaps (ss_aggregate s))"
      "soak_total envs base p br_late_packets = unat (br_late_packets (ss_aggregate s))"
      "soak_total envs base p (\<lambda>b. rds_symbol_miss (br_radio b)) = unat (rds_symbol_miss (br_radio (ss_aggregate s)))"
      "soak_total envs base p sim_duration_ns = unat (sim_duration_ns (ss_aggregate s))"
      "soak_total envs base p recovery_actions = unat (recovery_actions (ss_aggregate s))"
    by (rule total [symmetric]; simp add: soak_counters BenchReport_default_def)+
  have "length (ss_round_health s) = unat (max (sp_rounds p) 1)"
    using arg_cong [OF rounds, of length] by (simp add: rs_def)
  note passed = soak_gates_pass [OF this, of p, folded soak_report_simps(4) [of p elapsed]]
  note run = Soak_run_eq [of env envs elapsed json base p, folded rs_def, folded s_def]
  show ?thesis
  proof (cases "find (\<lambda>r. isl (soak_bench envs base p r)) rs")
    case None
    show ?thesis unfolding rs_def [symmetric] Let_def None option.case hs_def [symmetric]
      using run [unfolded None option.case] passed
      by (intro exI [of _ "soak_report p elapsed s"])
        (simp add: rounds health totals health_normal_iff [OF health] soak_miss_ratio_def word_le_nat_alt unat_eq_zero)
  next
    case (Some r)
    show ?thesis unfolding rs_def [symmetric] Let_def Some option.case run ..
  qed
qed

lemma path_join_inject:
  assumes "take 1 a = take 1 b"
  shows "path_join base a = path_join base b \<longleftrightarrow> a = b"
  using assms by (simp add: path_join_def)

text \<open>
  No round of a soak run overwrites the event log of another: with more than one round, two rounds
  have the same event file only if they are the same round, whatever path the profile gives.
\<close>

theorem soak_event_files_distinct:
  "round_events_path rounds r events = round_events_path rounds r' events \<longleftrightarrow> rounds = 1 \<or> r = r'"
proof (cases "rounds = 1")
  case False
  define stem where "stem = or_default (file_stem events) ''soak_events''"
  have "take 1 (stem @ ''_r'' @ show_u32 r @ ''.jsonl'') = take 1 (stem @ ''_r'' @ show_u32 r' @ ''.jsonl'')"
    by (cases stem) simp_all
  from path_join_inject [OF this] show ?thesis
    using False by (simp add: round_events_path_def stem_def [symmetric] show_u32_def show_nat_inject word_unat_eq_iff)
qed (simp add: round_events_path_def)

end
