(* ===== verification/Host_Link.thy ===== *)
theory Host_Link
  imports Pipeline_Props Net_IO Shm_Ring Bench_Load
begin

text \<open>
  The two processes of the real link, \<^verbatim>\<open>run_fpga_emit\<close> and \<^verbatim>\<open>run_host_recv\<close> of \<^verbatim>\<open>cli/src/main.rs\<close> with
  \<^verbatim>\<open>run_shm_prepare\<close>: an emitter of framed symbols and a receiver that drives transport, NIC and GPU
  ring or CUDA device, over UDP or over the shared memory ring, in both builds.  Wall
  clock, file system, sockets and what the other process does to the link meanwhile are parameters.
\<close>

section \<open>Definitions\<close>

text \<open>Errors of the command line driver: a context or a message, or the error of a component.\<close>

datatype HostError =
    HostContext string
  | HostBail string
  | HostIo string
  | HostFpga FpgaError
  | HostTransport TransportError
  | HostNic Cx5Error
  | HostGpu GpuError
  | HostCuda CudaGpuError
  | HostNet NetIoError
  | HostShm ShmIoError

definition RUNTIME_STARTED :: string where "RUNTIME_STARTED = ''runtime_started''"

record Host =
  h_transport :: SimTransportEngine
  h_nic :: Cx5Nic
  h_ring :: GpuRingBuffer
  h_cuda :: "(cuda_driver \<times> CudaGpu) option"
  h_metrics :: MetricsEngine
  h_events :: EventLogger
  h_recovery :: "RecoveryExecutor option"
  h_accepted :: u64
  h_now :: u64
  h_udp_rx :: u64
  h_decode_err :: u64

abbreviation host_emit :: "(nat \<Rightarrow> u64) \<Rightarrow> Host \<Rightarrow> string \<Rightarrow> (LogEvent \<Rightarrow> LogEvent) \<Rightarrow> Host" where
  "host_emit clock s name f \<equiv>
     s\<lparr>h_events := emit (h_events s) (f (LogEvent_now (clock (length (ev_log (h_events s)))) name))\<rparr>"

abbreviation host_metrics :: "(MetricsEngine \<Rightarrow> MetricsEngine) \<Rightarrow> Host \<Rightarrow> Host" where
  "host_metrics f s \<equiv> s\<lparr>h_metrics := f (h_metrics s)\<rparr>"

definition host_apply_recovery :: "(nat \<Rightarrow> u64) \<Rightarrow> string \<Rightarrow> Host \<Rightarrow> Host" where
  "host_apply_recovery clock fault_class s =
     (case h_recovery s of
        None \<Rightarrow> s
      | Some x \<Rightarrow>
          (case recovery_apply clock x fault_class (Some (h_events s)) of
             (_, x', ev) \<Rightarrow> s\<lparr>h_recovery := Some x', h_events := the ev\<rparr>))"

text \<open>The transport part of the loop body; the boolean is false where the source continues with the
  next packet.\<close>

definition host_transport :: "(nat \<Rightarrow> u64) \<Rightarrow> StreamId \<Rightarrow> Packet \<Rightarrow> Host \<Rightarrow> bool \<times> Host" where
  "host_transport clock i pkt s =
     (let s = s\<lparr>h_transport := (h_transport s)\<lparr>now_ns := sat_add (tstamp (timestamp pkt)) 1000000\<rparr>\<rparr> in
      case ingest (h_transport s) pkt of
        (Inr _, t) \<Rightarrow> (True, s\<lparr>h_transport := t\<rparr>)
      | (Inl (SequenceGap expected q), t) \<Rightarrow>
          let s = host_apply_recovery clock ''sequence_gap'' (s\<lparr>h_transport := t\<rparr>);
              s = s\<lparr>h_transport := recover_sequence (h_transport s) i q\<rparr>;
              s = host_metrics record_sequence_gap s;
              s = host_emit clock s SEQUENCE_GAP
                    (\<lambda>e. with_sequence (with_stream (with_component e ''host-recv'') (sid i)) q)
          in (case ingest (h_transport s) pkt of
                (Inr _, t) \<Rightarrow> (True, s\<lparr>h_transport := t\<rparr>)
              | (Inl _, t) \<Rightarrow> (False, s\<lparr>h_transport := t\<rparr>))
      | (Inl (LatePacket l m), t) \<Rightarrow>
          let s = host_apply_recovery clock ''late_packet'' (s\<lparr>h_transport := t\<rparr>);
              s = host_metrics (record_late_packet \<circ> record_deadline_miss) s;
              s = host_emit clock s LATE_PACKET (\<lambda>e. with_stream (with_component e ''host-recv'') (sid i))
          in (False, s)
      | (Inl _, t) \<Rightarrow> (False, s\<lparr>h_transport := t\<rparr>))"

definition host_ring :: "(nat \<Rightarrow> u64) \<Rightarrow> Packet \<Rightarrow> Host \<Rightarrow> (HostError, unit, Host) outcome" where
  "host_ring clock delivered s =
     (case begin_receive (h_ring s) (h_now s) of
        (Inr i, r) \<Rightarrow>
          let s = host_metrics (\<lambda>m. set_ring_occupancy m (word_of_nat (occupied r))) (s\<lparr>h_ring := r\<rparr>) in
          (case complete_receive r i (payload delivered) of
             (Inl e, r) \<Rightarrow> (Inl (HostGpu e), s\<lparr>h_ring := r\<rparr>)
           | (Inr _, r) \<Rightarrow>
               (case begin_process r (h_now s) of
                  (Inl e, r) \<Rightarrow> (Inl (HostGpu e), s\<lparr>h_ring := r\<rparr>)
                | (Inr (i, done_at), r) \<Rightarrow>
                    (case complete_process r i done_at of
                       (Inl e, r) \<Rightarrow> (Inl (HostGpu e), s\<lparr>h_ring := r\<rparr>)
                     | (Inr lat, r) \<Rightarrow>
                         (case release r i of
                            (Inl e, r) \<Rightarrow> (Inl (HostGpu e), s\<lparr>h_ring := r\<rparr>)
                          | (Inr _, r) \<Rightarrow>
                              let s = host_metrics (\<lambda>m. record_kernel_ns m lat) (s\<lparr>h_ring := r\<rparr>)
                              in (Inr (), s\<lparr>h_now := sat_add (h_now s) lat\<rparr>)))))
      | (Inl RingFull, r) \<Rightarrow>
          (Inr (), host_apply_recovery clock ''buffer_overflow'' (host_metrics record_buffer_full (s\<lparr>h_ring := r\<rparr>)))
      | (Inl e, r) \<Rightarrow> (Inl (HostGpu e), s\<lparr>h_ring := r\<rparr>))"

definition host_gpu :: "(nat \<Rightarrow> u64) \<Rightarrow> Packet \<Rightarrow> Host \<Rightarrow> (HostError, unit, Host) outcome" where
  "host_gpu clock delivered s =
     (case h_cuda s of
        Some (d, gpu) \<Rightarrow>
          (case process_bytes d gpu (payload delivered) of
             (Inl e, gpu) \<Rightarrow> (Inl (HostCuda e), s\<lparr>h_cuda := Some (d, gpu)\<rparr>)
           | (Inr _, gpu) \<Rightarrow> (Inr (), s\<lparr>h_cuda := Some (d, gpu), h_now := sat_add (h_now s) (kernel_ns_of gpu)\<rparr>))
      | None \<Rightarrow> host_ring clock delivered s)"

definition host_deliver :: "(nat \<Rightarrow> u64) \<Rightarrow> Packet \<Rightarrow> Host \<Rightarrow> (HostError, unit, Host) outcome" where
  "host_deliver clock delivered s =
     (let s = host_metrics (\<lambda>m. record_rx_bytes (record_rx m) (word_of_nat (length (payload delivered)))) s in
      case host_gpu clock delivered s of
        (Inl e, s) \<Rightarrow> (Inl e, s)
      | (Inr _, s) \<Rightarrow>
          let e2e = sat_sub (h_now s) (tstamp (timestamp delivered));
              s = host_metrics (\<lambda>m. record_latency_sample m e2e) s;
              s = host_emit clock s PACKET_RX (\<lambda>e. with_latency_us (with_sequence (with_stream
                    (with_component e ''host-recv'') (sid (stream_id delivered))) (seqno (sequence delivered))) (latency_us e2e));
              s = host_metrics record_tx s
          in (Inr (), s\<lparr>h_accepted := h_accepted s + 1\<rparr>))"

text \<open>The loop over the packets of the NIC, with its break.\<close>

fun host_deliver_all :: "(nat \<Rightarrow> u64) \<Rightarrow> u64 \<Rightarrow> Packet list \<Rightarrow> Host \<Rightarrow> (HostError, unit, Host) outcome" where
  "host_deliver_all clock symbols [] s = (Inr (), s)"
| "host_deliver_all clock symbols (d # ds) s =
     (case host_deliver clock d s of
        (Inl e, s) \<Rightarrow> (Inl e, s)
      | (Inr _, s) \<Rightarrow> if symbols \<le> h_accepted s then (Inr (), s) else host_deliver_all clock symbols ds s)"

definition host_packet :: "(nat \<Rightarrow> u64) \<Rightarrow> u64 \<Rightarrow> StreamId \<Rightarrow> Packet \<Rightarrow> Host \<Rightarrow> (HostError, unit, Host) outcome" where
  "host_packet clock symbols i pkt s =
     (case host_transport clock i pkt s of
        (False, s) \<Rightarrow> (Inr (), s)
      | (True, s) \<Rightarrow>
          (case receive (h_transport s) of
             (Inl e, t) \<Rightarrow> (Inl (HostTransport e), s\<lparr>h_transport := t\<rparr>)
           | (Inr None, t) \<Rightarrow> (Inr (), s\<lparr>h_transport := t\<rparr>)
           | (Inr (Some ingested), t) \<Rightarrow>
               let s = s\<lparr>h_transport := t, h_nic := advance_time (h_nic s) (h_now s)\<rparr> in
               (case submit_rx (h_nic s) ingested of
                  (Inl e, n) \<Rightarrow> (Inl (HostNic e), s\<lparr>h_nic := n\<rparr>)
                | (Inr _, n) \<Rightarrow>
                    let s = s\<lparr>h_nic := n, h_now := sat_add (h_now s) (dma_latency_ns (nic_cfg n))\<rparr>;
                        (burst, n) = Cx5Nic_rx_burst (advance_time (h_nic s) (h_now s)) 32
                    in host_deliver_all clock symbols burst (s\<lparr>h_nic := n\<rparr>))))"

fun host_burst :: "(nat \<Rightarrow> u64) \<Rightarrow> u64 \<Rightarrow> StreamId \<Rightarrow> Packet list \<Rightarrow> Host \<Rightarrow> (HostError, unit, Host) outcome" where
  "host_burst clock symbols i [] s = (Inr (), s)"
| "host_burst clock symbols i (p # ps) s =
     (case host_packet clock symbols i p s of
        (Inl e, s) \<Rightarrow> (Inl e, s)
      | (Inr _, s) \<Rightarrow> host_burst clock symbols i ps s)"

datatype RxBackend = Udp NetPacketIO | Shm ShmPacketIO

fun rx_poll :: "RxBackend \<Rightarrow> Host \<Rightarrow> Packet list \<times> RxBackend \<times> Host" where
  "rx_poll (Udp n) s =
     (let (pkts, n) = net_rx_burst n 32 in (pkts, Udp n, s\<lparr>h_udp_rx := received n, h_decode_err := decode_errors n\<rparr>))"
| "rx_poll (Shm r) s = (let (pkts, r) = shm_rx_burst r 32 in (pkts, Shm r, s))"

text \<open>
  The receive loop.  \<open>time k\<close> is the \<open>k\<close>-th reading of the monotonic clock, in nanoseconds, and
  \<open>arrivals k\<close> what reached the link since the last turn: datagrams in the socket, frames pushed to the
  shared ring by the emitter.
\<close>

partial_function (option) host_loop ::
    "(nat \<Rightarrow> nat) \<Rightarrow> nat \<Rightarrow> (nat \<Rightarrow> RxBackend \<Rightarrow> RxBackend) \<Rightarrow> (nat \<Rightarrow> u64) \<Rightarrow> u64 \<Rightarrow> StreamId \<Rightarrow> nat \<Rightarrow> RxBackend \<Rightarrow> Host
     \<Rightarrow> (HostError, RxBackend, Host) outcome option" where
  "host_loop time deadline arrivals clock symbols i k rx s =
     (if \<not> (h_accepted s < symbols \<and> time k < deadline) then Some (Inr rx, s)
      else
        let (burst, rx, s) = rx_poll (arrivals k rx) s in
        case host_burst clock symbols i burst s of
          (Inl e, s) \<Rightarrow> Some (Inl e, s)
        | (Inr _, s) \<Rightarrow> host_loop time deadline arrivals clock symbols i (Suc k) rx s)"

subsection \<open>The receiver\<close>

record host_env =
  he_bench :: bench_env
  parse_net :: "string \<Rightarrow> string + NetLinkConfig"
  parse_shm :: "string \<Rightarrow> string + ShmLinkConfig"
  he_net :: net_env
  he_incoming :: "recv_outcome list"
  he_fs :: fs
  he_exists :: "string \<Rightarrow> bool"
  he_time :: "nat \<Rightarrow> nat"
  he_arrivals :: "nat \<Rightarrow> RxBackend \<Rightarrow> RxBackend"

record host_args =
  arg_transport :: string
  arg_net_config :: string
  arg_shm_config :: string
  arg_deadline :: string
  arg_nic :: string
  arg_gpu_ring :: string
  arg_symbols :: u64
  arg_stream_id :: u32
  arg_use_cuda :: bool
  arg_cuda_config :: string

text \<open>\<^verbatim>\<open>fs::read_to_string(path).with_context(|| format!("read {}", path.display()))?\<close>\<close>

definition read_ctx :: "bench_env \<Rightarrow> string \<Rightarrow> HostError + string" where
  "read_ctx env path = map_err (\<lambda>_. HostContext (''read '' @ path)) (read_to_string env path)"

definition host_transport_engine :: "host_env \<Rightarrow> host_args \<Rightarrow> HostError + SimTransportEngine" where
  "host_transport_engine env a =
     and_then (read_ctx (he_bench env) (arg_deadline a)) (\<lambda>yaml.
     and_then (map_err HostTransport (Sim_from_yaml (parse_deadline (he_bench env)) yaml)) (\<lambda>t.
     case link_up t of
       (Inl e, _) \<Rightarrow> Inl (HostTransport e)
     | (Inr _, t) \<Rightarrow>
         let i = StreamId (arg_stream_id a) in
         (case create_stream t \<lparr>cfg_stream_id = i, carrier = 0, antenna = 0, qos = 0, deadline_ns = 50000000\<rparr> of
            (Inl e, _) \<Rightarrow> Inl (HostTransport e)
          | (Inr _, t) \<Rightarrow>
              (case start_stream t i of
                 (Inl e, _) \<Rightarrow> Inl (HostTransport e)
               | (Inr _, t) \<Rightarrow> Inr t))))"

definition open_rx :: "host_env \<Rightarrow> host_args \<Rightarrow> HostError + RxBackend" where
  "open_rx env a =
     (let kind = to_ascii_lowercase (arg_transport a) in
      if kind = ''udp'' \<or> kind = ''net'' then
        and_then (read_ctx (he_bench env) (arg_net_config a)) (\<lambda>yaml.
        and_then (map_err HostNet (NetLinkConfig_from_yaml_str (parse_net env) yaml)) (\<lambda>cfg.
        and_then (map_err HostNet (NetPacketIO_bind (he_net env) (he_incoming env) cfg)) (\<lambda>n. Inr (Udp n))))
      else if kind = ''shm'' then
        and_then (read_ctx (he_bench env) (arg_shm_config a)) (\<lambda>yaml.
        and_then (map_err HostShm (ShmLinkConfig_from_yaml_str (parse_shm env) yaml)) (\<lambda>cfg.
        and_then (map_err HostShm (ShmPacketIO_open (he_fs env) (cfg\<lparr>shm_create := False\<rparr>))) (\<lambda>r. Inr (Shm r))))
      else Inl (HostBail (''unknown --transport '' @ kind @ '' (use udp or shm)'')))"

text \<open>The device, if it is asked for and the build has the feature \<^verbatim>\<open>cuda\<close>.\<close>

definition host_open_cuda :: "bench_env \<Rightarrow> host_args \<Rightarrow> HostError + (cuda_driver \<times> CudaGpu) option" where
  "host_open_cuda env a =
     (if \<not> arg_use_cuda a then Inr None
      else case cuda_build env of
        None \<Rightarrow> Inl (HostBail ''--use-cuda requires `--features cuda`'')
      | Some (d, yaml_parse) \<Rightarrow>
          and_then (read_ctx env (arg_cuda_config a)) (\<lambda>yaml.
          and_then (map_err (\<lambda>_. HostContext ''init CudaGpu'') (CudaGpu_from_yaml d yaml_parse yaml)) (\<lambda>gpu. Inr (Some (d, gpu)))))"

text \<open>Everything before the loop.\<close>

definition host_start :: "host_env \<Rightarrow> host_args \<Rightarrow> HostError + (RxBackend \<times> Host)" where
  "host_start env a =
     and_then (host_transport_engine env a) (\<lambda>t.
     and_then (read_ctx (he_bench env) (arg_nic a)) (\<lambda>nic_yaml.
     and_then (map_err HostNic (Cx5Nic_from_yaml (parse_nic (he_bench env)) nic_yaml)) (\<lambda>nic.
     and_then (read_ctx (he_bench env) (arg_gpu_ring a)) (\<lambda>ring_yaml.
     and_then (map_err HostGpu (GpuRingBuffer_from_yaml (parse_ring (he_bench env)) ring_yaml)) (\<lambda>ring.
     let metrics = set_memory_buffers (set_link_up MetricsEngine_new True (f64_lit 100)) 0
                     (word_of_nat (length (slots ring) * slot_bytes ring));
         ops = ok (ObservabilityConfig_load_path (read_to_string (he_bench env)) (parse_ops (he_bench env))
                     ''configs/ops/observability.yaml'');
         events_path = (case ops of Some c \<Rightarrow> log_events_path (ob_logging c) | None \<Rightarrow> ''data/reports/host_recv_events.jsonl'')
     in and_then (map_err HostIo (open_log (he_bench env) events_path)) (\<lambda>events.
     let recovery = map_option RecoveryExecutor_new (Option.bind ops (\<lambda>c. ok (RecoveryPolicy_load_path
                      (read_to_string (he_bench env)) (parse_recovery (he_bench env)) (recovery_policy_path (ob_recovery c)))));
         s = \<lparr>h_transport = t, h_nic = nic, h_ring = ring, h_cuda = None, h_metrics = metrics,
              h_events = events, h_recovery = recovery,
              h_accepted = 0, h_now = 0, h_udp_rx = 0, h_decode_err = 0\<rparr>;
         s = host_emit (wall_clock (he_bench env)) s RUNTIME_STARTED (\<lambda>e. with_detail (with_component e ''host-recv'')
               (arg_transport a @ '' recovery='' @ (case recovery of Some r \<Rightarrow> rp_id (rx_policy r) | None \<Rightarrow> ''none'')))
     in and_then (host_open_cuda (he_bench env) a) (\<lambda>gpu.
        and_then (open_rx env a) (\<lambda>rx. Inr (rx, s\<lparr>h_cuda := gpu\<rparr>)))))))))"

definition run_host_recv :: "host_env \<Rightarrow> host_args \<Rightarrow> (HostError + Host) option" where
  "run_host_recv env a =
     (case host_start env a of
        Inl e \<Rightarrow> Some (Inl e)
      | Inr (rx, s) \<Rightarrow>
          (case host_loop (\<lambda>k. he_time env (Suc k)) (he_time env 0 + 30000000000) (he_arrivals env)
                  (wall_clock (he_bench env)) (arg_symbols a) (StreamId (arg_stream_id a)) 0 rx s of
             None \<Rightarrow> None
           | Some (Inl e, s) \<Rightarrow> Some (Inl e)
           | Some (Inr _, s) \<Rightarrow>
               Some (if h_accepted s < arg_symbols a
                     then Inl (HostBail (''timed out: accepted '' @ show_nat (unat (h_accepted s)) @ ''/'' @ show_nat (unat (arg_symbols a))))
                     else Inr s)))"

subsection \<open>The emitter\<close>

record emit_args =
  em_transport :: string
  em_net_config :: string
  em_shm_config :: string
  em_timing :: string
  em_symbols :: u64
  em_stream_id :: u32

text \<open>
  The loops over the symbols.  \<open>send_to k\<close> is the outcome of the \<open>k\<close>-th call of the socket; over the
  shared ring, \<open>other k\<close> is what the consumer does to the map during the attempts of symbol \<open>k\<close> and
  \<open>idle k\<close> what it does during the pause after it.
\<close>

fun emit_udp ::
    "(f32 \<Rightarrow> f32) \<Rightarrow> (f32 \<Rightarrow> f32) \<Rightarrow> (nat \<Rightarrow> u8 list \<Rightarrow> string \<Rightarrow> string + usize) \<Rightarrow> nat \<Rightarrow> nat \<Rightarrow> FpgaEmulator \<Rightarrow> NetPacketSink
     \<Rightarrow> (HostError, unit, NetPacketSink) outcome" where
  "emit_udp cos32 sin32 send_to k 0 fpga sink = (Inr (), sink)"
| "emit_udp cos32 sin32 send_to k (Suc n) fpga sink =
     (let (pkt, fpga) = emit_symbol cos32 sin32 fpga in
      case net_send_packet (send_to k) sink pkt of
        (Inl _, sink) \<Rightarrow> (Inl (HostContext (''send symbol '' @ show_nat k)), sink)
      | (Inr _, sink) \<Rightarrow> emit_udp cos32 sin32 send_to (Suc k) n fpga sink)"

fun emit_shm ::
    "(f32 \<Rightarrow> f32) \<Rightarrow> (f32 \<Rightarrow> f32) \<Rightarrow> (nat \<Rightarrow> nat \<Rightarrow> shm_map \<Rightarrow> shm_map) \<Rightarrow> (nat \<Rightarrow> shm_map \<Rightarrow> shm_map) \<Rightarrow> nat \<Rightarrow> nat
     \<Rightarrow> FpgaEmulator \<Rightarrow> ShmPacketRing \<Rightarrow> (HostError, unit, ShmPacketRing) outcome" where
  "emit_shm cos32 sin32 other idle k 0 fpga ring = (Inr (), ring)"
| "emit_shm cos32 sin32 other idle k (Suc n) fpga ring =
     (let (pkt, fpga) = emit_symbol cos32 sin32 fpga in
      case send_packet (other k) ring pkt of
        (Inl _, ring) \<Rightarrow> (Inl (HostContext (''shm send symbol '' @ show_nat k)), ring)
      | (Inr _, ring) \<Rightarrow> emit_shm cos32 sin32 other idle (Suc k) n fpga (ring\<lparr>shm_map := idle k (shm_map ring)\<rparr>))"

definition run_fpga_emit ::
    "host_env \<Rightarrow> (nat \<Rightarrow> u8 list \<Rightarrow> string \<Rightarrow> string + usize) \<Rightarrow> (nat \<Rightarrow> nat \<Rightarrow> shm_map \<Rightarrow> shm_map) \<Rightarrow> (nat \<Rightarrow> shm_map \<Rightarrow> shm_map)
     \<Rightarrow> emit_args \<Rightarrow> HostError + u64" where
  "run_fpga_emit env send_to other idle a =
     and_then (read_ctx (he_bench env) (em_timing a)) (\<lambda>yaml.
     and_then (map_err HostFpga (RadioTimingConfig_from_yaml_str (parse_timing (he_bench env)) yaml)) (\<lambda>timing.
     let fpga = FpgaEmulator_new timing (StreamId (em_stream_id a));
         kind = to_ascii_lowercase (em_transport a);
         n = unat (em_symbols a)
     in if kind = ''udp'' \<or> kind = ''net'' then
          and_then (read_ctx (he_bench env) (em_net_config a)) (\<lambda>yaml.
          and_then (map_err HostNet (NetLinkConfig_from_yaml_str (parse_net env) yaml)) (\<lambda>cfg.
          and_then (map_err (\<lambda>_. HostContext ''bind FPGA net sink'') (NetPacketSink_bind (he_net env) cfg)) (\<lambda>sink.
          case emit_udp (libm_cos (he_bench env)) (libm_sin (he_bench env)) send_to 0 n fpga sink of
            (Inl e, _) \<Rightarrow> Inl e
          | (Inr _, sink) \<Rightarrow> Inr (sent sink))))
        else if kind = ''shm'' then
          and_then (read_ctx (he_bench env) (em_shm_config a)) (\<lambda>yaml.
          and_then (map_err HostShm (ShmLinkConfig_from_yaml_str (parse_shm env) yaml)) (\<lambda>cfg.
          let cfg = cfg\<lparr>shm_create := \<not> he_exists env (shm_path cfg)\<rparr> in
          and_then (map_err (\<lambda>_. HostContext ''open shm sink'') (ShmPacketRing_open (he_fs env) cfg)) (\<lambda>ring.
          case emit_shm (libm_cos (he_bench env)) (libm_sin (he_bench env)) other idle 0 n fpga ring of
            (Inl e, _) \<Rightarrow> Inl e
          | (Inr _, ring) \<Rightarrow> Inr (pushed ring))))
        else Inl (HostBail (''unknown --transport '' @ kind @ '' (use udp or shm)''))))"

definition run_shm_prepare :: "host_env \<Rightarrow> string \<Rightarrow> HostError + ShmPacketRing" where
  "run_shm_prepare env shm_config =
     and_then (read_ctx (he_bench env) shm_config) (\<lambda>yaml.
     and_then (map_err HostShm (ShmLinkConfig_from_yaml_str (parse_shm env) yaml)) (\<lambda>cfg.
     map_err HostShm (ShmPacketRing_open (he_fs env) (cfg\<lparr>shm_create := True\<rparr>))))"

section \<open>One packet\<close>

lemma host_apply_recovery_frame [simp]:
  "h_transport (host_apply_recovery clock f s) = h_transport s" "h_nic (host_apply_recovery clock f s) = h_nic s"
  "h_ring (host_apply_recovery clock f s) = h_ring s" "h_accepted (host_apply_recovery clock f s) = h_accepted s"
  "h_now (host_apply_recovery clock f s) = h_now s" "h_cuda (host_apply_recovery clock f s) = h_cuda s" "h_metrics (host_apply_recovery clock f s) = h_metrics s"
  by (simp_all add: host_apply_recovery_def recovery_apply_def Let_def split: option.split)

lemma streams_ingest [simp]: "streams (snd (ingest t p)) = streams t"
  by (auto simp: ingest_def split: option.split sum.split prod.split TransportError.split)

lemma dom_streams_recover [simp]: "dom (streams (recover_sequence t i n)) = dom (streams t)"
  by (auto simp: recover_sequence_def split: option.split)

text \<open>
  The state between two packets: one running stream, an empty inbox, an idle NIC, an empty ring, and either no
  device or one whose buffers all have the size \<open>dev\<close>, in words.
\<close>

definition device_ok :: "nat option \<Rightarrow> (cuda_driver \<times> CudaGpu) option \<Rightarrow> bool" where
  "device_ok dev gpu \<longleftrightarrow>
     (case dev of
        None \<Rightarrow> gpu = None
      | Some w \<Rightarrow> (case gpu of None \<Rightarrow> False | Some (d, g) \<Rightarrow> driver_ok d \<and> uniform_gpu w g))"

definition host_ok :: "StreamId \<Rightarrow> NicDmaConfig \<Rightarrow> GpuRingConfig \<Rightarrow> nat option \<Rightarrow> Host \<Rightarrow> bool" where
  "host_ok i nic ring dev s \<longleftrightarrow>
     transport_ready {i} (h_transport s) \<and> dom (streams (h_transport s)) = {i}
     \<and> nic_quiet nic (h_nic s) \<and> ring_quiet ring (h_ring s) \<and> device_ok dev (h_cuda s)"

text \<open>The transport takes the packets of its stream that a clock one millisecond after their time stamp
  does not call late.\<close>

definition host_takes :: "StreamId \<Rightarrow> TimestampChecker \<Rightarrow> Packet \<Rightarrow> bool" where
  "host_takes i chk p \<longleftrightarrow> stream_id p = i \<and> ts_check chk p (sat_add (tstamp (timestamp p)) 1000000) = Inr ()"

definition host_frame :: "Host \<Rightarrow> Host \<Rightarrow> bool" where
  "host_frame s s' \<longleftrightarrow> h_nic s' = h_nic s \<and> h_ring s' = h_ring s \<and> h_cuda s' = h_cuda s
     \<and> h_accepted s' = h_accepted s \<and> h_now s' = h_now s"

lemma transport_ready_now [simp]: "transport_ready K (t\<lparr>now_ns := x\<rparr>) = transport_ready K t"
  by (simp add: transport_ready_def)

lemma host_transport_foreign:
  assumes "dom (streams (h_transport s)) = {i}" "transport_ready {i} (h_transport s)" "stream_id p \<noteq> i"
  shows "host_transport clock i p s =
    (False, s\<lparr>h_transport := (h_transport s)\<lparr>now_ns := sat_add (tstamp (timestamp p)) 1000000\<rparr>\<rparr>)"
proof -
  have "streams (h_transport s) (stream_id p) = None" using assms(1,3) by auto
  then show ?thesis using assms(2) by (simp add: host_transport_def ingest_def transport_ready_def Let_def)
qed

lemma host_transport_ok:
  assumes "dom (streams (h_transport s)) = {i}" "transport_ready {i} (h_transport s)" "stream_id p = i"
  shows "\<exists>s'. host_transport clock i p s = (host_takes i (ts (h_transport s)) p, s') \<and> host_frame s s'
    \<and> transport_effect {i} p (host_takes i (ts (h_transport s)) p) (h_transport s) (h_transport s')
    \<and> dom (streams (h_transport s')) = {i}"
proof -
  let ?t = "(h_transport s)\<lparr>now_ns := sat_add (tstamp (timestamp p)) 1000000\<rparr>"
  have dom: "dom (streams t') = {i}" if "ingest ?t p = (r, t')" for r t'
    using streams_ingest [of ?t p] that assms(1) by simp
  have ready: "transport_ready {i} ?t" "stream_id p \<in> {i}" using assms by simp_all
  show ?thesis
  proof (cases rule: ingest_effect [OF ready])
    case (1 t')
    then show ?thesis using dom [OF 1(2)] assms(3)
      by (simp add: host_transport_def host_takes_def host_frame_def transport_effect_def)
  next
    case (2 a t' t'')
    have "dom (streams t'') = {i}"
      using streams_ingest [of "recover_sequence t' (stream_id p) (seqno (sequence p))" p] 2(3) dom [OF 2(2)] by simp
    then show ?thesis using 2 assms(3)
      by (simp add: host_transport_def host_takes_def host_frame_def transport_effect_def Let_def)
  next
    case (3 l m)
    then show ?thesis using assms
      by (simp add: host_transport_def host_takes_def host_frame_def transport_effect_def transport_ready_def Let_def)
  qed
qed

text \<open>
  Whether the GPU takes a payload: the ring has no slot at all, and is always full, or large enough slots; the
  device takes payloads of its one size.
\<close>

definition gpu_takes :: "GpuRingConfig \<Rightarrow> nat option \<Rightarrow> nat \<Rightarrow> bool" where
  "gpu_takes cfg dev n \<longleftrightarrow>
     (case dev of None \<Rightarrow> slot_count cfg = 0 \<or> n \<le> cfg_slot_bytes cfg | Some w \<Rightarrow> n = 4 * w \<and> 0 < w \<and> w < 2 ^ 31)"

lemma host_ring_process:
  assumes "process_packet (h_ring s) (payload d) (h_now s) = (Inr l, r)"
  shows "\<exists>s'. host_ring clock d s = (Inr (), s') \<and> h_ring s' = r \<and> h_nic s' = h_nic s
    \<and> h_transport s' = h_transport s \<and> h_accepted s' = h_accepted s \<and> h_cuda s' = h_cuda s"
  using assms by (auto simp: host_ring_def process_packet_def Let_def split: sum.splits prod.splits)

lemma host_ring_ok:
  assumes "ring_quiet cfg (h_ring s)" "slot_count cfg = 0 \<or> length (payload d) \<le> cfg_slot_bytes cfg"
  shows "\<exists>s'. host_ring clock d s = (Inr (), s') \<and> ring_quiet cfg (h_ring s') \<and> h_nic s' = h_nic s
    \<and> h_transport s' = h_transport s \<and> h_accepted s' = h_accepted s \<and> h_cuda s' = h_cuda s"
proof (cases "slot_count cfg = 0")
  case True
  then have "count_state (h_ring s) Free = 0" using ring_quiet_counts(1) [OF assms(1)] by simp
  then have "begin_receive (h_ring s) (h_now s) = (Inl RingFull, h_ring s)"
    by (simp add: begin_receive_def find_state_None [symmetric])
  then show ?thesis using assms(1) by (simp add: host_ring_def)
next
  case False
  then have fit: "length (payload d) \<le> cfg_slot_bytes cfg" using assms(2) by simp
  show ?thesis using ring_quiet_process [OF assms(1) False fit, of "h_now s"] host_ring_process by blast
qed

lemma host_gpu_ok:
  assumes "ring_quiet cfg (h_ring s)" "device_ok dev (h_cuda s)" "gpu_takes cfg dev (length (payload d))"
  shows "\<exists>s'. host_gpu clock d s = (Inr (), s') \<and> ring_quiet cfg (h_ring s') \<and> device_ok dev (h_cuda s') \<and> h_nic s' = h_nic s
    \<and> h_transport s' = h_transport s \<and> h_accepted s' = h_accepted s"
proof (cases dev)
  case None
  then show ?thesis using host_ring_ok [OF assms(1), of d clock] assms(2,3)
    by (auto simp: host_gpu_def device_ok_def gpu_takes_def)
next
  case (Some w)
  then obtain drv g where g: "h_cuda s = Some (drv, g)" "driver_ok drv" "uniform_gpu w g"
    using assms(2) by (auto simp: device_ok_def split: option.splits)
  have "length (words_of (payload d)) = w" "0 < w" "w < 2 ^ 31"
    using assms(3) Some by (simp_all add: gpu_takes_def length_words_of)
  then obtain out g' where "process_bytes drv g (payload d) = (Inr out, g')" "uniform_gpu w g'"
    using process_bytes_uniform [OF g(2,3)] by blast
  then show ?thesis using g assms(1) Some by (simp add: host_gpu_def device_ok_def)
qed

lemma host_deliver_ok:
  assumes "ring_quiet cfg (h_ring s)" "device_ok dev (h_cuda s)" "gpu_takes cfg dev (length (payload d))"
  shows "\<exists>s'. host_deliver clock d s = (Inr (), s') \<and> ring_quiet cfg (h_ring s') \<and> device_ok dev (h_cuda s') \<and> h_nic s' = h_nic s
    \<and> h_transport s' = h_transport s \<and> h_accepted s' = h_accepted s + 1"
proof -
  define s1 where "s1 = host_metrics (\<lambda>m. record_rx_bytes (record_rx m) (word_of_nat (length (payload d)))) s"
  have "ring_quiet cfg (h_ring s1)" "device_ok dev (h_cuda s1)" using assms(1,2) by (simp_all add: s1_def)
  from host_gpu_ok [OF this assms(3), of clock] obtain s2 where
    "host_gpu clock d s1 = (Inr (), s2)" "ring_quiet cfg (h_ring s2)" "device_ok dev (h_cuda s2)" "h_nic s2 = h_nic s"
    "h_transport s2 = h_transport s" "h_accepted s2 = h_accepted s"
    by (auto simp: s1_def)
  then show ?thesis by (simp add: host_deliver_def s1_def [symmetric] Let_def)
qed

text \<open>One packet from the link.  Whatever it is, the receiver goes on; it is counted exactly if it is of
  the stream and not late.\<close>

lemma host_packet_ok:
  assumes "host_ok i nic ring dev s" "0 < rx_queue_depth nic" "gpu_takes ring dev (length (payload p))"
  shows "\<exists>s'. host_packet clock symbols i p s = (Inr (), s') \<and> host_ok i nic ring dev s'
    \<and> ts (h_transport s') = ts (h_transport s)
    \<and> h_accepted s' = h_accepted s + (if host_takes i (ts (h_transport s)) p then 1 else 0)"
proof (cases "stream_id p = i")
  case False
  then show ?thesis using assms(1) host_transport_foreign [of s i p clock]
    by (auto simp: host_ok_def host_packet_def host_takes_def)
next
  case True
  let ?acc = "host_takes i (ts (h_transport s)) p"
  obtain s1 where s1: "host_transport clock i p s = (?acc, s1)" "host_frame s s1"
      "transport_effect {i} p ?acc (h_transport s) (h_transport s1)" "dom (streams (h_transport s1)) = {i}"
    using host_transport_ok [OF _ _ True] assms(1) unfolding host_ok_def by blast
  show ?thesis
  proof (cases ?acc)
    case False
    then show ?thesis using s1 assms(1)
      by (auto simp: host_packet_def host_ok_def host_frame_def transport_effect_def transport_ready_def)
  next
    case acc: True
    let ?t = "(h_transport s1)\<lparr>inbox := []\<rparr>"
    have rcv: "receive (h_transport s1) = (Inr (Some p), ?t)"
      using acc s1(3) by (simp add: receive_def transport_effect_def)
    obtain n1 n2 where n: "submit_rx (advance_time (h_nic s1) (h_now s1)) p = (Inr (), n1)" "nic_cfg n1 = nic"
        "Cx5Nic_rx_burst (advance_time n1 (sat_add (h_now s1) (dma_latency_ns nic))) 32 = ([p], n2)" "nic_quiet nic n2"
      using nic_quiet_submit [of nic "h_nic s1" "h_now s1" p] assms(1,2) s1(2) by (auto simp: host_ok_def host_frame_def)
    define s2 where "s2 = s1\<lparr>h_transport := ?t, h_now := sat_add (h_now s1) (dma_latency_ns nic), h_nic := n2\<rparr>"
    have "ring_quiet ring (h_ring s2)" "device_ok dev (h_cuda s2)"
      using assms(1) s1(2) by (simp_all add: s2_def host_ok_def host_frame_def)
    from host_deliver_ok [OF this assms(3), of clock] obtain s3 where
      s3: "host_deliver clock p s2 = (Inr (), s3)" "ring_quiet ring (h_ring s3)" "device_ok dev (h_cuda s3)" "h_nic s3 = n2" "h_transport s3 = ?t"
        "h_accepted s3 = h_accepted s + 1"
      using s1(2) by (auto simp: s2_def host_frame_def)
    have "host_packet clock symbols i p s = (Inr (), s3)"
      using acc s1(1) rcv n s3(1) by (simp add: host_packet_def s2_def)
    then show ?thesis using acc s1(3,4) n(4) s3
      by (auto simp: host_ok_def transport_effect_def transport_ready_def)
  qed
qed

lemma host_burst_ok:
  assumes "host_ok i nic ring dev s" "0 < rx_queue_depth nic" "\<forall>p\<in>set ps. gpu_takes ring dev (length (payload p))"
  shows "\<exists>s'. host_burst clock symbols i ps s = (Inr (), s') \<and> host_ok i nic ring dev s'
    \<and> ts (h_transport s') = ts (h_transport s)
    \<and> h_accepted s' = h_accepted s + of_nat (length (filter (host_takes i (ts (h_transport s))) ps))"
  using assms(1,3)
proof (induction ps arbitrary: s)
  case (Cons p ps)
  obtain s1 where 1: "host_packet clock symbols i p s = (Inr (), s1)" "host_ok i nic ring dev s1"
      "ts (h_transport s1) = ts (h_transport s)"
      "h_accepted s1 = h_accepted s + (if host_takes i (ts (h_transport s)) p then 1 else 0)"
    using host_packet_ok [OF Cons.prems(1) assms(2), of p clock symbols] Cons.prems(2) by auto
  with Cons.IH [OF 1(2)] Cons.prems(2) show ?case by (auto simp: add.assoc)
qed simp

end
