(* ===== verification/Host_Props.thy ===== *)
theory Host_Props
  imports Host_Link
begin

text \<open>
  What the receiver of the real link guarantees: whatever arrives, its loop ends, within the deadline of
  thirty seconds and without an error.  The loop sees the link through the interface \<open>link_source\<close>, which both back ends provide.
\<close>

section \<open>The loop over a link\<close>

text \<open>
  What the loop needs of a link: an invariant that the traffic and the polls keep, and a bound on the
  payloads that come out.
\<close>

locale link_source =
  fixes arrivals :: "nat \<Rightarrow> RxBackend \<Rightarrow> RxBackend"
    and inv :: "RxBackend \<Rightarrow> bool"
    and bound :: nat
  assumes arrive: "inv rx \<Longrightarrow> inv (arrivals k rx)"
    and poll_keeps: "inv rx \<Longrightarrow> inv (fst (snd (rx_poll rx s)))"
    and poll_bound: "inv rx \<Longrightarrow> p \<in> set (fst (rx_poll rx s)) \<Longrightarrow> length (payload p) \<le> bound"
begin

lemma turn_ok:
  assumes "inv rx" "host_ok i nic ring None s" "0 < rx_queue_depth nic" "gpu_takes ring None bound"
  obtains rx' s' where "case rx_poll (arrivals k rx) s of (burst, rx1, s1) \<Rightarrow>
      rx1 = rx' \<and> host_burst clock symbols i burst s1 = (Inr (), s')" "inv rx'" "host_ok i nic ring None s'"
proof -
  obtain burst rx1 s1 where poll: "rx_poll (arrivals k rx) s = (burst, rx1, s1)" by (metis prod_cases3)
  have "gpu_takes ring None (length (payload p))" if "p \<in> set burst" for p
    using poll_bound [OF arrive [OF assms(1)], of p k s] assms(4) that poll by (auto simp: gpu_takes_def)
  moreover have "host_ok i nic ring None s1"
    using assms(2) poll by (cases "arrivals k rx") (auto simp: host_ok_def split: prod.splits)
  moreover have "inv rx1" using poll_keeps [OF arrive [OF assms(1)], of k s] poll by simp
  ultimately show ?thesis
    using that host_burst_ok [of i nic ring None s1 burst clock symbols] assms(3) poll by auto
qed

text \<open>Termination: every turn sleeps a millisecond, so the clock passes the deadline.\<close>

lemma loop_returns:
  assumes "\<And>k. time k + 1000000 \<le> time (Suc k)" "0 < rx_queue_depth nic" "gpu_takes ring None bound"
    and "inv rx" "host_ok i nic ring None s"
  shows "\<exists>j rx' s'. host_loop time deadline arrivals clock symbols i k rx s = Some (Inr rx', s') \<and> host_ok i nic ring None s'
    \<and> k \<le> j \<and> (j - k) * 1000000 < deadline - time k + 1000000 \<and> (symbols \<le> h_accepted s' \<or> deadline \<le> time j)"
  using assms(4,5)
proof (induction "deadline - time k" arbitrary: k rx s rule: less_induct)
  case less
  show ?case
  proof (cases "h_accepted s < symbols \<and> time k < deadline")
    case False
    then show ?thesis
      using less.prems by (subst host_loop.simps) (auto simp: not_less intro!: exI [of _ k])
  next
    case True
    obtain rx' s' where turn: "case rx_poll (arrivals k rx) s of (burst, rx1, s1) \<Rightarrow>
        rx1 = rx' \<and> host_burst clock symbols i burst s1 = (Inr (), s')" "inv rx'" "host_ok i nic ring None s'"
      by (rule turn_ok [OF less.prems assms(2,3)])
    then have step: "host_loop time deadline arrivals clock symbols i k rx s
        = host_loop time deadline arrivals clock symbols i (Suc k) rx' s'"
      using True by (subst host_loop.simps) (auto split: prod.splits)
    have later: "deadline - time (Suc k) < deadline - time k" using True assms(1) [of k] by linarith
    obtain j rx2 s2 where IH: "host_loop time deadline arrivals clock symbols i (Suc k) rx' s' = Some (Inr rx2, s2)"
        "host_ok i nic ring None s2" "Suc k \<le> j" "(j - Suc k) * 1000000 < deadline - time (Suc k) + 1000000"
        "symbols \<le> h_accepted s2 \<or> deadline \<le> time j"
      using less.hyps [OF later turn(2,3)] by blast
    have "(j - k) * 1000000 < deadline - time k + 1000000"
    proof (cases "deadline \<le> time (Suc k)")
      case True
      then have "j = Suc k" using IH(3,4) by simp
      then show ?thesis using \<open>h_accepted s < symbols \<and> time k < deadline\<close> by simp linarith
    next
      case False
      then show ?thesis using IH(3,4) assms(1) [of k] by (simp add: Suc_diff_le diff_le_self algebra_simps)
    qed
    then show ?thesis using IH step by (intro exI [of _ j] exI [of _ rx2] exI [of _ s2]) simp
  qed
qed

end

subsection \<open>The UDP back end as a link\<close>

text \<open>Any outcomes may reach the socket between two turns.\<close>

definition udp_arrivals :: "(nat \<Rightarrow> recv_outcome list) \<Rightarrow> nat \<Rightarrow> RxBackend \<Rightarrow> RxBackend" where
  "udp_arrivals traffic k rx = (case rx of Udp n \<Rightarrow> Udp (n\<lparr>net_in := net_in n @ traffic k\<rparr>) | Shm r \<Rightarrow> Shm r)"

definition udp_inv :: "nat \<Rightarrow> RxBackend \<Rightarrow> bool" where
  "udp_inv cap rx =
     (case rx of Udp n \<Rightarrow> net_max_datagram n \<le> cap \<and> list_all (\<lambda>p. 32 + length (payload p) \<le> net_max_datagram n) (net_rx n)
      | Shm _ \<Rightarrow> False)"

lemma decode_frame_length: "decode_frame bytes = Inr p \<Longrightarrow> length bytes = 32 + length (payload p)"
  by (auto simp: decode_frame_Inr_iff)

lemma net_poll_loop_bound:
  assumes "list_all (\<lambda>p. 32 + length (payload p) \<le> net_max_datagram io) (net_rx io)"
  shows "list_all (\<lambda>p. 32 + length (payload p) \<le> net_max_datagram io) (net_rx (snd (net_poll_loop cnt m os io)))"
  using assms
proof (induction cnt m os io rule: net_poll_loop.induct)
  case (2 cnt m oc os io)
  have "32 + length (payload p) \<le> net_max_datagram io" if "decode_frame (take (net_max_datagram io) bs) = Inr p" for bs p
    using decode_frame_length [OF that] by simp
  with 2 show ?case by (auto split: recv_outcome.split sum.split)
qed simp

lemma list_all_take_drop: "list_all P xs \<Longrightarrow> list_all P (take n xs) \<and> list_all P (drop n xs)"
  by (metis append_take_drop_id list_all_append)

lemma net_rx_burst_bound:
  assumes "list_all (\<lambda>p. 32 + length (payload p) \<le> net_max_datagram io) (net_rx io)" "net_rx_burst io m = (out, io')"
  shows "list_all (\<lambda>p. 32 + length (payload p) \<le> net_max_datagram io) (out @ net_rx io')"
    "net_max_datagram io' = net_max_datagram io"
  using net_poll_loop_bound [OF assms(1), of 0 m "net_in io"] assms(2)
  by (auto simp: net_rx_burst_def net_poll_rx_def drain_front_def Let_def list_all_take_drop)

interpretation udp_link: link_source "udp_arrivals traffic" "udp_inv cap" "cap - 32" for traffic cap
proof unfold_locales
  fix rx k
  assume "udp_inv cap rx"
  then show "udp_inv cap (udp_arrivals traffic k rx)"
    by (simp add: udp_inv_def udp_arrivals_def split: RxBackend.splits)
next
  fix rx and s :: Host
  assume "udp_inv cap rx"
  then obtain n where n: "rx = Udp n" "net_max_datagram n \<le> cap"
      "list_all (\<lambda>p. 32 + length (payload p) \<le> net_max_datagram n) (net_rx n)"
    by (auto simp: udp_inv_def split: RxBackend.splits)
  obtain out n' where burst: "net_rx_burst n 32 = (out, n')" by fastforce
  note bound = net_rx_burst_bound [OF n(3) burst]
  show "udp_inv cap (fst (snd (rx_poll rx s)))" using bound n burst by (simp add: udp_inv_def)
  fix p
  assume "p \<in> set (fst (rx_poll rx s))"
  then have "32 + length (payload p) \<le> net_max_datagram n" using bound(1) n(1) burst by (simp add: list_all_iff)
  then show "length (payload p) \<le> cap - 32" using n(2) by simp
qed

subsection \<open>The shared ring as a link\<close>

text \<open>Between two turns the emitter pushes any packets, until its position counter is used up.\<close>

definition producer_push :: "Packet \<Rightarrow> ShmPacketRing \<Rightarrow> ShmPacketRing" where
  "producer_push p ring =
     (if unat (write_pos (shm_map ring)) < 2 ^ 64 - 1 then ring\<lparr>shm_map := shm_map (snd (try_push ring p))\<rparr> else ring)"

definition shm_arrivals :: "(nat \<Rightarrow> Packet list) \<Rightarrow> nat \<Rightarrow> RxBackend \<Rightarrow> RxBackend" where
  "shm_arrivals traffic k rx = (case rx of Udp n \<Rightarrow> Udp n | Shm r \<Rightarrow> Shm (r\<lparr>shm_ring := fold producer_push (traffic k) (shm_ring r)\<rparr>))"

definition shm_link_inv :: "nat \<Rightarrow> RxBackend \<Rightarrow> bool" where
  "shm_link_inv cap rx =
     (case rx of Udp _ \<Rightarrow> False
      | Shm r \<Rightarrow> shm_inv (shm_ring r) \<and> shm_slot_bytes (shm_ring r) \<le> cap
          \<and> list_all (\<lambda>p. 32 + length (payload p) \<le> shm_slot_bytes (shm_ring r)) (shm_rx r))"

lemma shm_inv_cong:
  assumes "shm_map a = shm_map b" "shm_slot_count a = shm_slot_count b" "shm_slot_bytes a = shm_slot_bytes b"
  shows "shm_inv a = shm_inv b"
  using assms by (simp add: shm_inv_def shm_rep_def shm_queue_map [OF assms])

lemma producer_push_inv:
  assumes "shm_inv ring"
  shows "shm_inv (producer_push p ring) \<and> shm_slot_bytes (producer_push p ring) = shm_slot_bytes ring"
proof (cases "unat (write_pos (shm_map ring)) < 2 ^ 64 - 1")
  case True
  from assms True show ?thesis
  proof (cases rule: try_push_cases [of ring p])
    case (stored ring')
    have "shm_inv (ring\<lparr>shm_map := shm_map ring'\<rparr>) = shm_inv ring'"
      using stored by (intro shm_inv_cong) simp_all
    then show ?thesis using True stored by (simp add: producer_push_def)
  qed (use assms in \<open>simp_all add: producer_push_def\<close>)
qed (use assms in \<open>simp add: producer_push_def\<close>)

lemma producer_pushes_inv:
  "shm_inv ring \<Longrightarrow> shm_inv (fold producer_push ps ring) \<and> shm_slot_bytes (fold producer_push ps ring) = shm_slot_bytes ring"
  by (induction ps arbitrary: ring) (auto simp: producer_push_inv)

lemma try_pop_bound:
  "try_pop ring = (Inr (Some p), ring') \<Longrightarrow>
     32 + length (payload p) \<le> shm_slot_bytes ring \<and> shm_slot_bytes ring' = shm_slot_bytes ring"
  by (auto simp: try_pop_def Let_def shm_slot_data_def subslice_def dest!: decode_frame_length split: if_splits sum.splits)

lemma poll_rx_loop_bound:
  assumes "list_all (\<lambda>p. 32 + length (payload p) \<le> shm_slot_bytes (shm_ring io)) (shm_rx io)"
  shows "shm_slot_bytes (shm_ring (snd (poll_rx_loop n fuel io))) = shm_slot_bytes (shm_ring io)
    \<and> list_all (\<lambda>p. 32 + length (payload p) \<le> shm_slot_bytes (shm_ring io)) (shm_rx (snd (poll_rx_loop n fuel io)))"
  using assms
proof (induction n fuel io rule: poll_rx_loop.induct)
  case (2 n fuel io)
  have static: "shm_slot_bytes ring = shm_slot_bytes (shm_ring io)" if "try_pop (shm_ring io) = (r, ring)" for r ring
    using that by (auto simp: try_pop_def Let_def split: if_splits sum.splits)
  with 2 show ?case using try_pop_bound [of "shm_ring io"]
    by (auto split: sum.split prod.split option.split)
qed simp

interpretation shm_link: link_source "shm_arrivals traffic" "shm_link_inv cap" "cap - 32" for traffic cap
proof unfold_locales
  fix rx k
  assume "shm_link_inv cap rx"
  then show "shm_link_inv cap (shm_arrivals traffic k rx)"
    by (auto simp: shm_link_inv_def shm_arrivals_def producer_pushes_inv split: RxBackend.splits)
next
  fix rx and s :: Host
  assume "shm_link_inv cap rx"
  then obtain r where r: "rx = Shm r" "shm_inv (shm_ring r)" "shm_slot_bytes (shm_ring r) \<le> cap"
      "list_all (\<lambda>p. 32 + length (payload p) \<le> shm_slot_bytes (shm_ring r)) (shm_rx r)"
    by (auto simp: shm_link_inv_def split: RxBackend.splits)
  let ?r = "snd (poll_rx_loop 0 32 r)"
  have burst: "shm_rx_burst r 32 = (take 32 (shm_rx ?r), ?r\<lparr>shm_rx := drop 32 (shm_rx ?r)\<rparr>)"
    by (simp add: shm_rx_burst_def shm_poll_rx_def drain_front_def Let_def)
  note bound = poll_rx_loop_bound [OF r(4), of 0 32]
  show "shm_link_inv cap (fst (snd (rx_poll rx s)))"
    using bound r burst poll_rx_loop_spec [OF r(2), of 0 32]
    by (auto simp: shm_link_inv_def list_all_iff dest: in_set_dropD)
  fix p
  assume "p \<in> set (fst (rx_poll rx s))"
  then have "32 + length (payload p) \<le> shm_slot_bytes (shm_ring r)"
    using bound r(1) burst by (auto simp: list_all_iff dest: in_set_takeD)
  then show "length (payload p) \<le> cap - 32" using r(3) by simp
qed

section \<open>The whole receiver\<close>

lemma from_yaml_new:
  "Cx5Nic_from_yaml parse y = Inr n \<Longrightarrow> \<exists>cfg. n = Cx5Nic_new cfg"
  "GpuRingBuffer_from_yaml parse' y' = Inr r \<Longrightarrow> \<exists>cfg. r = GpuRingBuffer_new cfg"
  by (auto simp: Cx5Nic_from_yaml_def GpuRingBuffer_from_yaml_def split: sum.splits)

lemma host_transport_engine_ok:
  assumes "host_transport_engine env a = Inr t"
  shows "transport_ready {StreamId (arg_stream_id a)} t \<and> dom (streams t) = {StreamId (arg_stream_id a)}"
proof -
  let ?start = "\<lambda>t0. let i = StreamId (arg_stream_id a) in
    (case create_stream t0 \<lparr>cfg_stream_id = i, carrier = 0, antenna = 0, qos = 0, deadline_ns = 50000000\<rparr> of
       (Inl e, _) \<Rightarrow> Inl (HostTransport e)
     | (Inr _, t) \<Rightarrow> (case start_stream t i of (Inl e, _) \<Rightarrow> Inl (HostTransport e) | (Inr _, t) \<Rightarrow> Inr t))"
  obtain y t0 where t0: "Sim_from_yaml (parse_deadline (he_bench env)) y = Inr t0"
      "(case link_up t0 of (Inl e, _) \<Rightarrow> Inl (HostTransport e) | (Inr _, t) \<Rightarrow> ?start t) = Inr t"
    using assms by (auto simp: host_transport_engine_def and_then_Inr_iff)
  obtain cfg where "t0 = Sim_new cfg" using t0(1) by (auto simp: Sim_from_yaml_def split: sum.splits)
  then show ?thesis using t0(2)
    by (auto simp: Sim_new_def link_up_def create_stream_def start_stream_def set_stream_state_def transport_ready_def Let_def
        split: if_splits)
qed

lemma device_ok_None: "gpu = None \<Longrightarrow> device_ok None gpu"
  by (simp add: device_ok_def)

lemma host_open_cuda_ok:
  assumes "host_open_cuda env a = Inr gpu"
  shows "\<not> arg_use_cuda a \<Longrightarrow> gpu = None" "gpu = Some (d, g) \<Longrightarrow> device_bufs g = [] \<and> lengths g = []"
  using assms by (auto simp: host_open_cuda_def and_then_Inr_iff dest: CudaGpu_from_yaml_fresh split: if_splits option.splits)

lemma host_start_ok:
  assumes "host_start env a = Inr (rx, s)"
  shows "\<exists>nic ring. (\<forall>dev. device_ok dev (h_cuda s) \<longrightarrow> host_ok (StreamId (arg_stream_id a)) nic ring dev s) \<and> nic_cfg (h_nic s) = nic
    \<and> length (slots (h_ring s)) = slot_count ring \<and> slot_bytes (h_ring s) = cfg_slot_bytes ring"
    "h_accepted s = 0" "open_rx env a = Inr rx" "host_open_cuda (he_bench env) a = Inr (h_cuda s)"
proof -
  from assms have "host_transport_engine env a = Inr (h_transport s) \<and> (\<exists>y. Cx5Nic_from_yaml (parse_nic (he_bench env)) y = Inr (h_nic s))
      \<and> (\<exists>y. GpuRingBuffer_from_yaml (parse_ring (he_bench env)) y = Inr (h_ring s)) \<and> h_accepted s = 0 \<and> open_rx env a = Inr rx
      \<and> host_open_cuda (he_bench env) a = Inr (h_cuda s)"
    by (auto simp: host_start_def and_then_Inr_iff Let_def simp del: option.map)
  then obtain t nic ring where s: "host_transport_engine env a = Inr t" "h_transport s = t"
      "h_nic s = Cx5Nic_new nic" "h_ring s = GpuRingBuffer_new ring" "h_accepted s = 0" "open_rx env a = Inr rx"
      "host_open_cuda (he_bench env) a = Inr (h_cuda s)"
    by (auto dest!: from_yaml_new)
  have "transport_ready {StreamId (arg_stream_id a)} t \<and> dom (streams t) = {StreamId (arg_stream_id a)}"
    using host_transport_engine_ok [OF s(1)] by blast
  moreover have "nic_quiet nic (h_nic s)" using s(3) by (simp add: nic_quiet_def Cx5Nic_new_def)
  moreover have "ring_quiet ring (h_ring s)" using s(4) ring_quiet_new by simp
  ultimately show "\<exists>nic ring. (\<forall>dev. device_ok dev (h_cuda s) \<longrightarrow> host_ok (StreamId (arg_stream_id a)) nic ring dev s) \<and> nic_cfg (h_nic s) = nic
    \<and> length (slots (h_ring s)) = slot_count ring \<and> slot_bytes (h_ring s) = cfg_slot_bytes ring"
    using s(2,3) by (intro exI [of _ nic] exI [of _ ring]) (auto simp: host_ok_def ring_quiet_def Cx5Nic_new_def)
  show "h_accepted s = 0" "open_rx env a = Inr rx" "host_open_cuda (he_bench env) a = Inr (h_cuda s)" by fact+
qed

text \<open>The receiver on the UDP link with any traffic.\<close>

definition timeout_error :: "Host \<Rightarrow> u64 \<Rightarrow> HostError" where
  "timeout_error s symbols =
     HostBail (''timed out: accepted '' @ show_nat (unat (h_accepted s)) @ ''/'' @ show_nat (unat symbols))"

lemma open_rx_udp:
  assumes "open_rx env a = Inr (Udp n)"
  shows "net_rx n = []" "net_in n = he_incoming env"
  using assms by (auto simp: open_rx_def and_then_Inr_iff NetPacketIO_bind_def Let_def split: if_splits sum.splits)

context link_source
begin

lemma run_returns:
  assumes "he_time env 0 \<le> he_time env 1" "\<And>k. he_time env (Suc k) + 1000000 \<le> he_time env (Suc (Suc k))"
    and "host_start env a = Inr (rx, s)" "he_arrivals env = arrivals"
    and "0 < rx_queue_depth (nic_cfg (h_nic s))" "inv rx" "slots (h_ring s) = [] \<or> bound \<le> slot_bytes (h_ring s)"
    and "\<not> arg_use_cuda a"
  shows "\<exists>j s'. j \<le> 30000
    \<and> run_host_recv env a = Some (if h_accepted s' < arg_symbols a then Inl (timeout_error s' (arg_symbols a)) else Inr s')
    \<and> (arg_symbols a \<le> h_accepted s' \<or> he_time env 0 + 30000000000 \<le> he_time env (Suc j))"
proof -
  obtain nic ring where start: "host_ok (StreamId (arg_stream_id a)) nic ring None s" "nic_cfg (h_nic s) = nic"
      "length (slots (h_ring s)) = slot_count ring" "slot_bytes (h_ring s) = cfg_slot_bytes ring"
    using host_start_ok(1) [OF assms(3)] host_open_cuda_ok(1) [OF host_start_ok(4) [OF assms(3)] assms(8)] device_ok_None by blast
  have takes: "gpu_takes ring None bound" using assms(7) start(3,4) by (auto simp: gpu_takes_def)
  have depth: "0 < rx_queue_depth nic" using assms(5) start(2) by simp
  obtain j rx' s' where loop: "host_loop (\<lambda>k. he_time env (Suc k)) (he_time env 0 + 30000000000) arrivals
        (wall_clock (he_bench env)) (arg_symbols a) (StreamId (arg_stream_id a)) 0 rx s = Some (Inr rx', s')"
      "j * 1000000 < he_time env 0 + 30000000000 - he_time env (Suc 0) + 1000000"
      "arg_symbols a \<le> h_accepted s' \<or> he_time env 0 + 30000000000 \<le> he_time env (Suc j)"
    using loop_returns [where time = "\<lambda>k. he_time env (Suc k)" and k = 0, OF assms(2) depth takes assms(6) start(1)] by force
  have "j \<le> 30000" using loop(2) assms(1) by simp
  moreover have "run_host_recv env a = Some (if h_accepted s' < arg_symbols a then Inl (timeout_error s' (arg_symbols a)) else Inr s')"
    using loop(1) assms(3,4) by (simp add: run_host_recv_def timeout_error_def)
  ultimately show ?thesis using loop(3) by blast
qed

end

text \<open>
  C10: the receiver of the UDP link survives the network.  Whatever reaches its socket, at any time - frames
  of other streams, late or out of sequence, garbage, errors - and provided no CUDA device is used, the NIC has at
  least one receive descriptor and the ring (if it has slots) holds the payload of the largest datagram, the receiver returns: the loop, whose turns each sleep
  a millisecond, has a result.  That is success when enough symbols were accepted and the time-out
  otherwise, never an error of a component, and it gives up only when the clock, read on one of the first
  30,001 turns, is thirty seconds past the start.
\<close>

theorem host_recv_survives_network:
  assumes "he_time env 0 \<le> he_time env 1" "\<And>k. he_time env (Suc k) + 1000000 \<le> he_time env (Suc (Suc k))"
    and "host_start env a = Inr (Udp n, s)" "he_arrivals env = udp_arrivals traffic"
    and "0 < rx_queue_depth (nic_cfg (h_nic s))"
    and "slots (h_ring s) = [] \<or> net_max_datagram n \<le> slot_bytes (h_ring s) + 32" "\<not> arg_use_cuda a"
  shows "\<exists>j s'. j \<le> 30000
    \<and> run_host_recv env a = Some (if h_accepted s' < arg_symbols a then Inl (timeout_error s' (arg_symbols a)) else Inr s')
    \<and> (arg_symbols a \<le> h_accepted s' \<or> he_time env 0 + 30000000000 \<le> he_time env (Suc j))"
proof -
  have "udp_inv (net_max_datagram n) (Udp n)"
    using open_rx_udp(1) [OF host_start_ok(3) [OF assms(3)]] by (simp add: udp_inv_def)
  then show ?thesis
    using assms(6,7) by (intro udp_link.run_returns [OF assms(1-5)]) auto
qed

text \<open>
  The same for the shared ring.  Whatever well-formed packets the emitter pushes between the turns, to
  a ring whose slots are no larger than those of the GPU ring can hold, the receiver returns in time, and
  only with success or the time-out.
\<close>

theorem host_recv_survives_ring:
  assumes "he_time env 0 \<le> he_time env 1" "\<And>k. he_time env (Suc k) + 1000000 \<le> he_time env (Suc (Suc k))"
    and "host_start env a = Inr (Shm r, s)" "he_arrivals env = shm_arrivals traffic"
    and "0 < rx_queue_depth (nic_cfg (h_nic s))" "shm_inv (shm_ring r)" "shm_rx r = []"
    and "slots (h_ring s) = [] \<or> shm_slot_bytes (shm_ring r) \<le> slot_bytes (h_ring s) + 32" "\<not> arg_use_cuda a"
  shows "\<exists>j s'. j \<le> 30000
    \<and> run_host_recv env a = Some (if h_accepted s' < arg_symbols a then Inl (timeout_error s' (arg_symbols a)) else Inr s')
    \<and> (arg_symbols a \<le> h_accepted s' \<or> he_time env 0 + 30000000000 \<le> he_time env (Suc j))"
proof -
  have "shm_link_inv (shm_slot_bytes (shm_ring r)) (Shm r)" using assms(6,7) by (simp add: shm_link_inv_def)
  then show ?thesis
    using assms(8,9) by (intro shm_link.run_returns [OF assms(1-5)]) auto
qed

text \<open>
  On a device this does not hold: one packet of the stream with a payload of fewer than four bytes reaches
  the copy whose lengths differ, and the receiver panics.
\<close>

lemma short_payload_stops_receiver:
  assumes "h_cuda s = Some (d, g)" "driver_ok d" "cuda_inv g" "length (payload p) < 4"
  shows "fst (host_deliver clock p s) = Inl (HostCuda CudaPanic)"
proof -
  obtain g' where "process_bytes d g (payload p) = (Inl CudaPanic, g')"
    using process_bytes_short [OF assms(2-4)] by (cases "process_bytes d g (payload p)") simp
  then show ?thesis using assms(1) by (simp add: host_deliver_def host_gpu_def Let_def)
qed

section \<open>Well-formed receivers\<close>

text \<open>The receivers that packets of at most \<open>bound\<close> bytes can lead to.\<close>

inductive host_reachable :: "host_env \<Rightarrow> host_args \<Rightarrow> nat \<Rightarrow> Host \<Rightarrow> bool" for env a bound where
  started: "host_start env a = Inr (rx, s) \<Longrightarrow> host_reachable env a bound s"
| packet: "host_reachable env a bound s \<Longrightarrow> length (payload p) \<le> bound \<Longrightarrow>
    host_packet (wall_clock (he_bench env)) (arg_symbols a) (StreamId (arg_stream_id a)) p s = (r, s') \<Longrightarrow> host_reachable env a bound s'"

lemma ring_quiet_occupied: "ring_quiet cfg r \<Longrightarrow> occupied r = 0"
proof -
  assume "ring_quiet cfg r"
  then have "set (map slot_state (slots r)) \<subseteq> {Free}" by (auto simp: ring_quiet_def)
  then show "occupied r = 0" by (auto simp: occupied_def filter_empty_conv)
qed

lemma host_reachable_ok:
  assumes "host_reachable env a bound s" "host_start env a = Inr (rx, s0)" "host_ok (StreamId (arg_stream_id a)) nic ring None s0"
    and "0 < rx_queue_depth nic" "gpu_takes ring None bound"
  shows "host_ok (StreamId (arg_stream_id a)) nic ring None s"
  using assms(1)
proof induction
  case (started rx' s)
  then show ?case using assms(2,3) by simp
next
  case (packet s p r s')
  have "gpu_takes ring None (length (payload p))" using assms(5) packet(2) by (auto simp: gpu_takes_def)
  from host_packet_ok [OF packet.IH assms(4) this, of "wall_clock (he_bench env)" "arg_symbols a"] packet(3) show ?case by auto
qed

text \<open>
  C14: the receiver stays well-formed and never gets stuck.  Without a CUDA device and with at least one receive
  descriptor in the NIC: whatever packets it was given, of any stream,
  number and time stamp and no larger than a slot, between two packets its link is up, its one stream is
  running with nothing left in the inbox, the NIC holds no packet and every slot of the GPU ring is free; and
  the next packet is processed without an error.
\<close>

theorem host_well_formed:
  assumes "host_start env a = Inr (rx, s0)" "\<not> arg_use_cuda a" "0 < rx_queue_depth (nic_cfg (h_nic s0))"
    and "slots (h_ring s0) = [] \<or> bound \<le> slot_bytes (h_ring s0)"
    and "host_reachable env a bound s" "length (payload p) \<le> bound"
  shows "link (h_transport s) = Link_Running \<and> dom (streams (h_transport s)) = {StreamId (arg_stream_id a)}
    \<and> map_option rt_state (streams (h_transport s) (StreamId (arg_stream_id a))) = Some Stream_Running \<and> inbox (h_transport s) = []
    \<and> nic_cfg (h_nic s) = nic_cfg (h_nic s0) \<and> pending (h_nic s) = [] \<and> rx_ready (h_nic s) = []
    \<and> length (slots (h_ring s)) = length (slots (h_ring s0)) \<and> occupied (h_ring s) = 0 \<and> h_cuda s = None
    \<and> fst (host_packet (wall_clock (he_bench env)) (arg_symbols a) (StreamId (arg_stream_id a)) p s) = Inr ()"
proof -
  let ?i = "StreamId (arg_stream_id a)"
  obtain nic ring where start: "host_ok ?i nic ring None s0" "nic_cfg (h_nic s0) = nic"
      "length (slots (h_ring s0)) = slot_count ring" "slot_bytes (h_ring s0) = cfg_slot_bytes ring"
    using host_start_ok(1) [OF assms(1)] host_open_cuda_ok(1) [OF host_start_ok(4) [OF assms(1)] assms(2)] device_ok_None by blast
  have takes: "gpu_takes ring None bound" "gpu_takes ring None (length (payload p))"
    using assms(4,6) start(3,4) by (auto simp: gpu_takes_def)
  have depth: "0 < rx_queue_depth nic" using assms(3) start(2) by simp
  note ok = host_reachable_ok [OF assms(5,1) start(1) depth takes(1)]
  have "occupied (h_ring s) = 0" "length (slots (h_ring s)) = slot_count ring"
    using ok ring_quiet_occupied by (auto simp: host_ok_def ring_quiet_def)
  moreover have "map_option rt_state (streams (h_transport s) ?i) = Some Stream_Running"
    using ok by (auto simp: host_ok_def transport_ready_def)
  moreover have "fst (host_packet (wall_clock (he_bench env)) (arg_symbols a) ?i p s) = Inr ()"
    using host_packet_ok [OF ok depth takes(2), of "wall_clock (he_bench env)" "arg_symbols a"] by auto
  ultimately show ?thesis
    using ok start(2,3) by (simp add: host_ok_def transport_ready_def nic_quiet_def device_ok_def)
qed

section \<open>A concrete receiver\<close>

definition sample_bench_env :: bench_env where
  "sample_bench_env = \<lparr>read_to_string = (\<lambda>_. Inr []), parse_profile = (\<lambda>_. Inr sample_profile_doc), parse_timing = (\<lambda>_. Inr sample_timing),
     parse_eth = (\<lambda>_. Inr sample_ethernet), parse_deadline = (\<lambda>_. Inr (sample_deadline\<lparr>max_latency_ns := 50000000\<rparr>)),
     parse_nic = (\<lambda>_. Inr sample_nic_config), parse_ring = (\<lambda>_. Inr sample_ring_config), parse_fault = (\<lambda>_. Inr (sample_fault 3)),
     parse_ops = (\<lambda>_. Inl []), parse_recovery = (\<lambda>_. Inl []), parse_health = (\<lambda>_. Inl []), create_log_file = (\<lambda>_. Inr ()),
     create_dir_all = (\<lambda>_. Inr ()), append_file = (\<lambda>_ _. Inr ()), json_trace = (\<lambda>_. Inr []), write_file = (\<lambda>_ _. Inr ()), wall_clock = (\<lambda>_. 0), libm_cos = (\<lambda>x. x), libm_sin = (\<lambda>x. x), cuda_build = None\<rparr>"

definition sample_net_link :: NetLinkConfig where
  "sample_net_link = \<lparr>net_version = ''1.0.0'', net_id = ''net'', bind_addr = ''127.0.0.1:9000'', peer_addr = [],
     recv_timeout_ms = 0, max_datagram_bytes = 160\<rparr>"

definition sample_host_env :: "recv_outcome list \<Rightarrow> host_env" where
  "sample_host_env incoming = \<lparr>he_bench = sample_bench_env, parse_net = (\<lambda>_. Inr sample_net_link), parse_shm = (\<lambda>_. Inl []),
     he_net = \<lparr>env_resolve = (\<lambda>_. Inl []), env_bind = (\<lambda>_. Inr ()), env_set_timeout = (\<lambda>_. Inr ())\<rparr>, he_incoming = incoming,
     he_fs = sample_fs [], he_exists = (\<lambda>_. True), he_time = (\<lambda>k. k * 1000000), he_arrivals = udp_arrivals (\<lambda>_. [])\<rparr>"

definition sample_host_args :: host_args where
  "sample_host_args = \<lparr>arg_transport = ''udp'', arg_net_config = ''net.yaml'', arg_shm_config = ''shm.yaml'', arg_deadline = ''deadline.yaml'',
     arg_nic = ''nic.yaml'', arg_gpu_ring = ''ring.yaml'', arg_symbols = 40, arg_stream_id = 1, arg_use_cuda = False, arg_cuda_config = ''cuda.yaml''\<rparr>"

lemma sample_host_kind: "to_ascii_lowercase ''udp'' = ''udp''"
  by code_simp

lemma sample_host_starts:
  assumes "he_bench env = sample_bench_env" "open_rx env a = Inr rx" "\<not> arg_use_cuda a"
  shows "\<exists>s. host_start env a = Inr (rx, s) \<and> nic_cfg (h_nic s) = sample_nic_config
    \<and> slot_bytes (h_ring s) = cfg_slot_bytes sample_ring_config \<and> h_cuda s = None \<and> tc_max_latency_ns (ts (h_transport s)) = 50000000"
  using assms
  by (simp add: host_start_def host_transport_engine_def host_open_cuda_def read_ctx_def sample_bench_env_def
      Sim_from_yaml_def TransportDeadlineConfig_from_yaml_str_def Sim_new_def link_up_def
      create_stream_def start_stream_def set_stream_state_def Cx5Nic_from_yaml_def NicDmaConfig_from_yaml_str_def
      GpuRingBuffer_from_yaml_def GpuRingConfig_from_yaml_str_def ObservabilityConfig_load_path_def ObservabilityConfig_from_yaml_str_def
      GpuRingBuffer_new_def Cx5Nic_new_def TimestampChecker_from_config_def TimestampChecker_new_def
      EventLogger_create_def open_append_def Let_def split: option.split)

lemma sample_open_rx:
  "\<exists>n. open_rx (sample_host_env incoming) sample_host_args = Inr (Udp n) \<and> net_max_datagram n = 160"
  by (simp add: open_rx_def read_ctx_def sample_host_env_def sample_bench_env_def sample_host_args_def sample_host_kind
      sample_net_link_def NetLinkConfig_from_yaml_str_def NetPacketIO_bind_def)

lemma sample_host_time:
  "he_time (sample_host_env incoming) k = k * 1000000" "he_arrivals (sample_host_env incoming) = udp_arrivals (\<lambda>_. [])"
  "he_incoming (sample_host_env incoming) = incoming" "arg_symbols sample_host_args = 40" "arg_stream_id sample_host_args = 1"
  "\<not> arg_use_cuda sample_host_args" "he_bench (sample_host_env incoming) = sample_bench_env"
  by (simp_all add: sample_host_env_def sample_host_args_def)

theorem host_recv_survives_network_witness:
  "\<exists>j s'. j \<le> 30000
    \<and> run_host_recv (sample_host_env [Datagram [1, 2, 3], RecvError ''reset'', WouldBlock]) sample_host_args
        = Some (if h_accepted s' < arg_symbols sample_host_args
                then Inl (timeout_error s' (arg_symbols sample_host_args)) else Inr s')
    \<and> (arg_symbols sample_host_args \<le> h_accepted s'
         \<or> he_time (sample_host_env [Datagram [1, 2, 3], RecvError ''reset'', WouldBlock]) 0 + 30000000000
            \<le> he_time (sample_host_env [Datagram [1, 2, 3], RecvError ''reset'', WouldBlock]) (Suc j))"
proof -
  let ?env = "sample_host_env [Datagram [1, 2, 3], RecvError ''reset'', WouldBlock]"
  obtain n where n: "open_rx ?env sample_host_args = Inr (Udp n)" "net_max_datagram n = 160" using sample_open_rx by blast
  obtain s where start: "host_start ?env sample_host_args = Inr (Udp n, s)"
      "nic_cfg (h_nic s) = sample_nic_config" "slot_bytes (h_ring s) = cfg_slot_bytes sample_ring_config"
    using sample_host_starts [OF _ n(1)] by (auto simp: sample_host_time)
  show ?thesis
    by (rule host_recv_survives_network [OF _ _ start(1)])
      (simp_all add: sample_host_time n(2) start(2-) sample_nic_config_def sample_ring_config_def)
qed

abbreviation sample_foreign_packet :: Packet where
  "sample_foreign_packet \<equiv> Packet_new (StreamId 9) (Sequence 11) (Timestamp 22) [1, 2, 3, 4]"

theorem host_well_formed_witness:
  "\<exists>rx s0 s. host_start (sample_host_env []) sample_host_args = Inr (rx, s0)
    \<and> s = snd (host_packet (wall_clock sample_bench_env) 40 (StreamId 1) sample_foreign_packet s0)
    \<and> link (h_transport s) = Link_Running \<and> dom (streams (h_transport s)) = {StreamId 1}
    \<and> map_option rt_state (streams (h_transport s) (StreamId 1)) = Some Stream_Running \<and> inbox (h_transport s) = []
    \<and> nic_cfg (h_nic s) = nic_cfg (h_nic s0) \<and> pending (h_nic s) = [] \<and> rx_ready (h_nic s) = []
    \<and> length (slots (h_ring s)) = length (slots (h_ring s0)) \<and> occupied (h_ring s) = 0 \<and> h_cuda s = None
    \<and> fst (host_packet (wall_clock sample_bench_env) 40 (StreamId 1) sample_foreign_packet s) = Inr ()"
proof -
  obtain n where n: "open_rx (sample_host_env []) sample_host_args = Inr (Udp n)" using sample_open_rx by blast
  obtain s0 where start: "host_start (sample_host_env []) sample_host_args = Inr (Udp n, s0)"
      "nic_cfg (h_nic s0) = sample_nic_config" "slot_bytes (h_ring s0) = cfg_slot_bytes sample_ring_config"
    using sample_host_starts [OF _ n] by (auto simp: sample_host_time)
  obtain r s where s: "host_packet (wall_clock sample_bench_env) 40 (StreamId 1) sample_foreign_packet s0 = (r, s)" by fastforce
  have "host_reachable (sample_host_env []) sample_host_args 64 s"
    by (rule host_reachable.packet [OF host_reachable.started [OF start(1)], where p = sample_foreign_packet])
      (use s in \<open>simp_all add: sample_host_time\<close>)
  from host_well_formed [OF start(1) _ _ _ this, of sample_foreign_packet] start s show ?thesis
    by (simp add: sample_host_time sample_nic_config_def sample_ring_config_def)
qed

end
