(* ===== verification/Link_Delivery.thy ===== *)
theory Link_Delivery
  imports Host_Props
begin

text \<open>
  From the emitter to a receiver that succeeds, over both links.  The interface \<open>link_queue\<close> says that a link
  hands out, in bursts, what was queued and what arrived since; the receiver's loop is proved once against it to
  accept every packet, and the interface is provided by the UDP back end and by the shared ring.
\<close>

section \<open>A link as a queue that grows\<close>

text \<open>
  \<open>fresh k\<close> are the packets that arrive before turn \<open>k\<close>; the invariant may depend on the turn, since a ring
  must have room for what is still to come.
\<close>

locale link_queue =
  fixes arrivals :: "nat \<Rightarrow> RxBackend \<Rightarrow> RxBackend"
    and fresh :: "nat \<Rightarrow> Packet list"
    and inv :: "nat \<Rightarrow> RxBackend \<Rightarrow> bool"
    and queue :: "RxBackend \<Rightarrow> Packet list"
  assumes turn_out: "inv k rx \<Longrightarrow> fst (rx_poll (arrivals k rx) s) = take 32 (queue rx @ fresh k)"
    and turn_rest: "inv k rx \<Longrightarrow> queue (fst (snd (rx_poll (arrivals k rx) s))) = drop 32 (queue rx @ fresh k)"
    and turn_inv: "inv k rx \<Longrightarrow> inv (Suc k) (fst (snd (rx_poll (arrivals k rx) s)))"
begin

text \<open>What the receiver will still get from turn \<open>k\<close> on, if nothing arrives after turn \<open>K\<close>.\<close>

definition upcoming :: "nat \<Rightarrow> nat \<Rightarrow> RxBackend \<Rightarrow> Packet list" where
  "upcoming K k rx = queue rx @ concat (map fresh [k..<K])"

lemma upcoming_turn:
  assumes "\<forall>j\<ge>K. fresh j = []" "inv k rx"
  shows "upcoming K k rx =
    fst (rx_poll (arrivals k rx) s) @ upcoming K (Suc k) (fst (snd (rx_poll (arrivals k rx) s)))"
proof -
  have "concat (map fresh [k..<K]) = fresh k @ concat (map fresh [Suc k..<K])"
    using assms(1) by (cases "k < K") (simp_all add: upt_conv_Cons)
  then show ?thesis
    by (simp add: upcoming_def turn_out [OF assms(2)] turn_rest [OF assms(2)] del: take_append drop_append
        flip: append_assoc)
qed

lemma upcoming_progress:
  assumes "\<forall>j\<ge>K. fresh j = []" "inv k rx" "upcoming K k rx \<noteq> []"
  shows "(K - Suc k) + length (upcoming K (Suc k) (fst (snd (rx_poll (arrivals k rx) s)))) < (K - k) + length (upcoming K k rx)"
proof (cases "k < K")
  case True
  then show ?thesis unfolding upcoming_turn [OF assms(1,2), of s] by simp
next
  case False
  then have "queue rx @ fresh k \<noteq> []" using assms(1,3) by (simp add: upcoming_def)
  then have "0 < length (fst (rx_poll (arrivals k rx) s))" by (simp add: turn_out [OF assms(2)] del: take_append)
  then show ?thesis using False unfolding upcoming_turn [OF assms(1,2), of s] by simp
qed

lemma turn_accepts:
  assumes "inv k rx" "host_ok i nic ring dev s" "0 < rx_queue_depth nic"
    and "\<forall>p\<in>set (fst (rx_poll (arrivals k rx) s)). host_takes i (ts (h_transport s)) p \<and> gpu_takes ring dev (length (payload p))"
  obtains s' where "case rx_poll (arrivals k rx) s of (burst, _, s1) \<Rightarrow> host_burst clock symbols i burst s1 = (Inr (), s')"
    "host_ok i nic ring dev s'" "ts (h_transport s') = ts (h_transport s)"
    "h_accepted s' = h_accepted s + of_nat (length (fst (rx_poll (arrivals k rx) s)))"
proof -
  obtain burst rx1 s1 where poll: "rx_poll (arrivals k rx) s = (burst, rx1, s1)" by (metis prod_cases3)
  have s1: "host_ok i nic ring dev s1" "h_transport s1 = h_transport s" "h_accepted s1 = h_accepted s"
    using assms(2) poll by (cases "arrivals k rx"; auto simp: host_ok_def split: prod.splits)+
  have all: "filter (host_takes i (ts (h_transport s1))) burst = burst"
    using assms(4) poll s1(2) by (simp add: filter_id_conv)
  have "\<forall>p\<in>set burst. gpu_takes ring dev (length (payload p))" using assms(4) poll by simp
  then obtain s' where "host_burst clock symbols i burst s1 = (Inr (), s')" "host_ok i nic ring dev s'"
      "ts (h_transport s') = ts (h_transport s)" "h_accepted s' = h_accepted s + of_nat (length burst)"
    using host_burst_ok [of i nic ring dev s1 burst clock symbols] assms(3) s1 all by auto
  then show ?thesis using that poll by simp
qed

text \<open>All that arrives is accepted, if the deadline leaves enough turns.\<close>

lemma loop_accepts:
  assumes "0 < rx_queue_depth nic" "\<forall>j\<ge>K. fresh j = []"
    and "\<And>j. j < k + ((K - k) + length (upcoming K k rx)) \<Longrightarrow> time j < deadline"
    and "inv k rx" "host_ok i nic ring dev s"
    and "\<forall>p\<in>set (upcoming K k rx). host_takes i (ts (h_transport s)) p \<and> gpu_takes ring dev (length (payload p))"
    and "unat (h_accepted s) + length (upcoming K k rx) = unat symbols"
  shows "\<exists>rx' s'. host_loop time deadline arrivals clock symbols i k rx s = Some (Inr rx', s') \<and> h_accepted s' = symbols"
  using assms(3-)
proof (induction "(K - k) + length (upcoming K k rx)" arbitrary: k rx s rule: less_induct)
  case less
  show ?case
  proof (cases "upcoming K k rx = []")
    case True
    then have "h_accepted s = symbols" using less.prems(5) by (simp add: word_unat_eq_iff)
    then show ?thesis by (subst host_loop.simps) simp
  next
    case False
    then have "0 < length (upcoming K k rx)" by simp
    then have go: "h_accepted s < symbols" "time k < deadline"
      using less.prems(1) [of k] less.prems(5) unfolding word_less_nat_alt by linarith+
    let ?burst = "fst (rx_poll (arrivals k rx) s)" and ?rx = "fst (snd (rx_poll (arrivals k rx) s))"
    note split = upcoming_turn [OF assms(2) less.prems(2), of s] and shrink = upcoming_progress [OF assms(2) less.prems(2) False, of s]
    have burst: "\<forall>p\<in>set ?burst. host_takes i (ts (h_transport s)) p \<and> gpu_takes ring dev (length (payload p))"
      using less.prems(4) unfolding split by simp
    obtain s' where turn: "case rx_poll (arrivals k rx) s of (burst, _, s1) \<Rightarrow> host_burst clock symbols i burst s1 = (Inr (), s')"
        "host_ok i nic ring dev s'" "ts (h_transport s') = ts (h_transport s)" "h_accepted s' = h_accepted s + of_nat (length ?burst)"
      by (rule turn_accepts [OF less.prems(2,3) assms(1) burst])
    then have step: "host_loop time deadline arrivals clock symbols i k rx s
        = host_loop time deadline arrivals clock symbols i (Suc k) ?rx s'"
      using go by (subst host_loop.simps) (auto split: prod.splits)
    have "unat (h_accepted s) + length ?burst < 2 ^ 64"
      using less.prems(5) unsigned_less [of symbols, where 'a = nat] unfolding split by simp
    then have "unat (h_accepted s') = unat (h_accepted s) + length ?burst"
      unfolding turn(4) by (simp add: unat_word_ariths unat_of_nat)
    then have count: "unat (h_accepted s') + length (upcoming K (Suc k) ?rx) = unat symbols"
      using less.prems(5) unfolding split by simp
    have time: "time j < deadline" if "j < Suc k + ((K - Suc k) + length (upcoming K (Suc k) ?rx))" for j
      using that shrink by (intro less.prems(1)) linarith
    have "\<exists>rx' s''. host_loop time deadline arrivals clock symbols i (Suc k) ?rx s' = Some (Inr rx', s'') \<and> h_accepted s'' = symbols"
      using less.prems(4) turn(3) unfolding split
      by (intro less.hyps [OF shrink time turn_inv [OF less.prems(2)] turn(2) _ count]) auto
    then show ?thesis using step by simp
  qed
qed

end

subsection \<open>The UDP back end\<close>

lemma decoded_append [simp]: "decoded cap (xs @ ys) = decoded cap xs @ decoded cap ys"
  by (induction cap xs rule: decoded.induct) (simp_all split: sum.split)

lemma all_datagrams_append [simp]: "all_datagrams (xs @ ys) \<longleftrightarrow> all_datagrams xs \<and> all_datagrams ys"
  by (simp add: all_datagrams_def)

definition udp_queue :: "RxBackend \<Rightarrow> Packet list" where
  "udp_queue rx = (case rx of Udp n \<Rightarrow> net_rx n @ decoded (net_max_datagram n) (net_in n) | Shm _ \<Rightarrow> [])"

definition udp_ready :: "(nat \<Rightarrow> recv_outcome list) \<Rightarrow> usize \<Rightarrow> RxBackend \<Rightarrow> bool" where
  "udp_ready traffic cap rx \<longleftrightarrow>
     (case rx of Udp n \<Rightarrow> net_max_datagram n = cap \<and> all_datagrams (net_in n) | Shm _ \<Rightarrow> False) \<and> (\<forall>k. all_datagrams (traffic k))"

interpretation udp_feed: link_queue "udp_arrivals traffic" "\<lambda>k. decoded cap (traffic k)" "\<lambda>_. udp_ready traffic cap" udp_queue
  for traffic cap
proof unfold_locales
  fix k rx and s :: Host
  assume "udp_ready traffic cap rx"
  then obtain n where n: "rx = Udp n" "net_max_datagram n = cap" "all_datagrams (net_in n)" "\<forall>k. all_datagrams (traffic k)"
    by (auto simp: udp_ready_def split: RxBackend.splits)
  let ?n = "n\<lparr>net_in := net_in n @ traffic k\<rparr>"
  have ok: "all_datagrams (net_in ?n)" using n(3,4) by simp
  have cap: "net_max_datagram (snd (net_rx_burst ?n 32)) = cap"
    using n(2) by (simp add: net_rx_burst_def net_poll_rx_def drain_front_def Let_def)
  show "fst (rx_poll (udp_arrivals traffic k rx) s) = take 32 (udp_queue rx @ decoded cap (traffic k))"
    "udp_queue (fst (snd (rx_poll (udp_arrivals traffic k rx) s))) = drop 32 (udp_queue rx @ decoded cap (traffic k))"
    "udp_ready traffic cap (fst (snd (rx_poll (udp_arrivals traffic k rx) s)))"
    using net_io.burst_out [OF ok, of 32] net_io.burst_rest [OF ok, of 32] net_io.burst_inv [OF ok, of 32] cap n
    by (simp_all add: udp_arrivals_def udp_queue_def udp_ready_def split_beta)
qed

subsection \<open>The shared ring\<close>

lemma pushes_stored:
  assumes "shm_inv ring" "length (shm_queue ring) + length ps \<le> shm_slot_count ring"
    and "\<forall>p\<in>set ps. 32 + length (payload p) \<le> shm_slot_bytes ring" "unat (write_pos (shm_map ring)) + length ps < 2 ^ 64"
  shows "shm_inv (fold producer_push ps ring) \<and> shm_queue (fold producer_push ps ring) = shm_queue ring @ ps
    \<and> shm_slot_count (fold producer_push ps ring) = shm_slot_count ring \<and> shm_slot_bytes (fold producer_push ps ring) = shm_slot_bytes ring
    \<and> unat (write_pos (shm_map (fold producer_push ps ring))) = unat (write_pos (shm_map ring)) + length ps"
  using assms
proof (induction ps arbitrary: ring)
  case (Cons p ps)
  have w: "unat (write_pos (shm_map ring)) < 2 ^ 64 - 1" using Cons.prems(4) by simp
  from Cons.prems(1) w show ?case
  proof (cases rule: try_push_cases [of ring p])
    case (stored ring')
    let ?r = "ring\<lparr>shm_map := shm_map ring'\<rparr>"
    have same: "shm_inv ?r = shm_inv ring'" "shm_queue ?r = shm_queue ring'"
      using stored(7,8) by (intro shm_inv_cong shm_queue_map; simp)+
    have "unat (write_pos (shm_map ?r)) = Suc (unat (write_pos (shm_map ring)))" using stored(6) w by (simp add: unat_inc)
    moreover have "producer_push p ring = ?r" using w stored(3) by (simp add: producer_push_def)
    ultimately show ?thesis using Cons.IH [of ?r] Cons.prems(2-4) stored same by simp
  qed (use Cons.prems(2,3) in simp_all)
qed simp

lemma poll_rx_loop_frame:
  assumes "shm_inv (shm_ring io)"
  shows "write_pos (shm_map (shm_ring (snd (poll_rx_loop n m io)))) = write_pos (shm_map (shm_ring io))
    \<and> shm_slot_count (shm_ring (snd (poll_rx_loop n m io))) = shm_slot_count (shm_ring io)
    \<and> shm_slot_bytes (shm_ring (snd (poll_rx_loop n m io))) = shm_slot_bytes (shm_ring io)"
  using assms
proof (induction m arbitrary: n io)
  case (Suc m)
  from Suc.prems show ?case
  proof (cases rule: try_pop_cases)
    case (taken p q ring')
    with Suc.IH [of "io\<lparr>shm_ring := ring', shm_rx := shm_rx io @ [p]\<rparr>" "Suc n"] show ?thesis by simp
  qed simp
qed simp

definition ring_queue :: "RxBackend \<Rightarrow> Packet list" where
  "ring_queue rx = (case rx of Udp _ \<Rightarrow> [] | Shm r \<Rightarrow> shm_rx r @ shm_queue (shm_ring r))"

text \<open>
  The emitter pushes at most a burst per turn, of frames that fit, and the receiver keeps a burst of slots
  free; the positions do not wrap.
\<close>

definition ring_ready :: "(nat \<Rightarrow> Packet list) \<Rightarrow> nat \<Rightarrow> nat \<Rightarrow> RxBackend \<Rightarrow> bool" where
  "ring_ready traffic K k rx \<longleftrightarrow>
     (\<forall>j\<ge>K. traffic j = []) \<and> (\<forall>j. length (traffic j) \<le> 32)
     \<and> (case rx of
          Udp _ \<Rightarrow> False
        | Shm r \<Rightarrow> shm_inv (shm_ring r) \<and> length (ring_queue rx) + 32 \<le> shm_slot_count (shm_ring r)
            \<and> (\<forall>j. \<forall>p\<in>set (traffic j). 32 + length (payload p) \<le> shm_slot_bytes (shm_ring r))
            \<and> unat (write_pos (shm_map (shm_ring r))) + length (concat (map traffic [k..<K])) < 2 ^ 64)"

interpretation ring_feed: link_queue "shm_arrivals traffic" traffic "ring_ready traffic K" ring_queue for traffic K
proof unfold_locales
  fix k rx and s :: Host
  assume ready: "ring_ready traffic K k rx"
  then obtain r where r: "rx = Shm r" "shm_inv (shm_ring r)" "length (shm_rx r @ shm_queue (shm_ring r)) + 32 \<le> shm_slot_count (shm_ring r)"
      "\<forall>j. \<forall>p\<in>set (traffic j). 32 + length (payload p) \<le> shm_slot_bytes (shm_ring r)"
      "unat (write_pos (shm_map (shm_ring r))) + length (concat (map traffic [k..<K])) < 2 ^ 64"
    and traffic: "\<forall>j\<ge>K. traffic j = []" "\<forall>j. length (traffic j) \<le> 32"
    by (auto simp: ring_ready_def ring_queue_def split: RxBackend.splits)
  have budget: "length (concat (map traffic [k..<K])) = length (traffic k) + length (concat (map traffic [Suc k..<K]))"
    using traffic(1) by (cases "k < K") (simp_all add: upt_conv_Cons)
  let ?ring = "fold producer_push (traffic k) (shm_ring r)"
  let ?r = "r\<lparr>shm_ring := ?ring\<rparr>"
  have short: "length (traffic k) \<le> 32" using traffic(2) by blast
  have pushed: "shm_inv ?ring" "shm_queue ?ring = shm_queue (shm_ring r) @ traffic k" "shm_slot_count ?ring = shm_slot_count (shm_ring r)"
      "shm_slot_bytes ?ring = shm_slot_bytes (shm_ring r)"
      "unat (write_pos (shm_map ?ring)) = unat (write_pos (shm_map (shm_ring r))) + length (traffic k)"
    using pushes_stored [OF r(2), of "traffic k"] r(3-5) short budget by auto
  have inv: "shm_inv (shm_ring ?r)" using pushed(1) by simp
  let ?r' = "snd (shm_rx_burst ?r 32)"
  have ring': "shm_ring ?r' = shm_ring (snd (poll_rx_loop 0 32 ?r))"
    by (simp add: shm_rx_burst_def shm_poll_rx_def drain_front_def Let_def)
  note frame = poll_rx_loop_frame [OF inv, of 0 32, folded ring']
  note burst = shm_io.burst_out [OF inv, of 32] shm_io.burst_rest [OF inv, of 32] shm_io.burst_inv [OF inv, of 32]
  have arrive: "shm_arrivals traffic k rx = Shm ?r" using r(1) by (simp add: shm_arrivals_def)
  show "fst (rx_poll (shm_arrivals traffic k rx) s) = take 32 (ring_queue rx @ traffic k)"
    "ring_queue (fst (snd (rx_poll (shm_arrivals traffic k rx) s))) = drop 32 (ring_queue rx @ traffic k)"
    unfolding arrive using burst pushed(2) r(1) by (simp_all add: ring_queue_def split_beta)
  have "length (shm_rx ?r' @ shm_queue (shm_ring ?r')) + 32 \<le> shm_slot_count (shm_ring r)"
    unfolding burst(2) using pushed(2) r(3) short by simp
  then show "ring_ready traffic K (Suc k) (fst (snd (rx_poll (shm_arrivals traffic k rx) s)))"
    unfolding arrive using burst(3) frame pushed(3-5) r(4,5) budget traffic
    by (simp add: ring_ready_def ring_queue_def split_beta)
qed

section \<open>Every symbol is received\<close>

text \<open>A time stamp that leaves room for a millisecond is not late; one near the end of time even less.\<close>

lemma host_takes_iff:
  "host_takes i chk p \<longleftrightarrow> stream_id p = i \<and> sat_sub (sat_add (tstamp (timestamp p)) 1000000) (tstamp (timestamp p)) \<le> tc_max_latency_ns chk"
  by (auto simp: host_takes_def ts_check_def Let_def not_less)

lemma millisecond_bound: "sat_sub (sat_add t 1000000) t \<le> (1000000 :: u64)"
  by (simp add: word_le_nat_alt unat_sat_sub unat_sat_add)

definition gpu_serves :: "RadioTimingConfig \<Rightarrow> Host \<Rightarrow> bool" where
  "gpu_serves timing s \<longleftrightarrow>
     (case h_cuda s of
        None \<Rightarrow> 8 * samples_per_symbol timing \<le> slot_bytes (h_ring s)
      | Some (d, _) \<Rightarrow> driver_ok d \<and> 0 < samples_per_symbol timing)"

lemma started_host_takes:
  assumes "host_start env a = Inr (rx, s)" "gpu_serves timing s" "8 * samples_per_symbol timing < 2 ^ 32"
  obtains ring dev where "host_ok (StreamId (arg_stream_id a)) (nic_cfg (h_nic s)) ring dev s"
    "gpu_takes ring dev (8 * samples_per_symbol timing)" "h_accepted s = 0"
proof -
  define dev where "dev = (if h_cuda s = None then None else Some (2 * samples_per_symbol timing))"
  have "device_ok dev (h_cuda s)"
    using assms(2) host_open_cuda_ok(2) [OF host_start_ok(4) [OF assms(1)]]
    by (auto simp: gpu_serves_def dev_def device_ok_def uniform_gpu_def split: option.splits)
  then obtain ring where start: "host_ok (StreamId (arg_stream_id a)) (nic_cfg (h_nic s)) ring dev s" "slot_bytes (h_ring s) = cfg_slot_bytes ring"
    using host_start_ok(1) [OF assms(1)] by blast
  moreover have "gpu_takes ring dev (8 * samples_per_symbol timing)"
    using assms(2,3) start(2) by (auto simp: gpu_serves_def gpu_takes_def dev_def split: option.splits)
  ultimately show ?thesis using that host_start_ok(2) [OF assms(1)] by blast
qed

context link_queue
begin

lemma run_accepts:
  assumes "host_start env a = Inr (rx, s)" "he_arrivals env = arrivals" "0 < rx_queue_depth (nic_cfg (h_nic s))"
    and "gpu_serves timing s" "8 * samples_per_symbol timing < 2 ^ 32" "1000000 \<le> tc_max_latency_ns (ts (h_transport s))"
    and "\<forall>j\<ge>K. fresh j = []" "inv 0 rx"
    and "upcoming K 0 rx = map (emitted cos32 sin32 timing (StreamId (arg_stream_id a))) [0..<unat (arg_symbols a)]"
    and "\<And>k. k \<le> K + unat (arg_symbols a) \<Longrightarrow> he_time env k < he_time env 0 + 30000000000"
  shows "\<exists>s'. run_host_recv env a = Some (Inr s') \<and> h_accepted s' = arg_symbols a"
proof -
  let ?i = "StreamId (arg_stream_id a)"
  obtain ring dev where start: "host_ok ?i (nic_cfg (h_nic s)) ring dev s"
      "gpu_takes ring dev (8 * samples_per_symbol timing)" "h_accepted s = 0"
    by (rule started_host_takes [OF assms(1,4,5)])
  have takes: "\<forall>p\<in>set (upcoming K 0 rx). host_takes ?i (ts (h_transport s)) p \<and> gpu_takes ring dev (length (payload p))"
    using assms(6) start(2) millisecond_bound order_trans unfolding assms(9) by (fastforce simp: host_takes_iff)
  have "\<exists>rx' s'. host_loop (\<lambda>k. he_time env (Suc k)) (he_time env 0 + 30000000000) arrivals
      (wall_clock (he_bench env)) (arg_symbols a) ?i 0 rx s = Some (Inr rx', s') \<and> h_accepted s' = arg_symbols a"
    using assms(10) start(3) by (intro loop_accepts [OF assms(3,7) _ assms(8) start(1) takes]) (simp_all add: assms(9))
  then show ?thesis using assms(1,2) by (auto simp: run_host_recv_def)
qed

end

subsection \<open>Over UDP\<close>

lemma decoded_concat: "decoded cap (concat oss) = concat (map (decoded cap) oss)"
  by (induction oss) simp_all

lemma all_datagrams_concat: "all_datagrams (concat oss) \<longleftrightarrow> (\<forall>os\<in>set oss. all_datagrams os)"
  by (induction oss) (simp_all add: all_datagrams_def)

text \<open>
  C11: from the emitter to a successful receiver.  The symbols that an emitter sends on the stream, as many as
  the receiver waits for, as datagrams that arrive intact and in order, before the receiver starts or in any portions while it runs, make
  the receiver succeed with exactly these symbols accepted, however many bursts they take, as long as the
  deadline is not reached earlier.  The NIC must have a receive descriptor; the datagram buffer and the slots of the ring must hold a frame (or, on a
  device, the driver must report no error and the symbols must not be empty), and the latency bound must allow
  the millisecond that the receiver adds to the time stamps.
\<close>

theorem emitted_symbols_are_received:
  assumes "host_start env a = Inr (Udp n, s)" "he_arrivals env = udp_arrivals traffic" "\<forall>j\<ge>K. traffic j = []"
    and "he_incoming env @ concat (map traffic [0..<K]) = map (\<lambda>p. Datagram (encode_frame p))
           (fst (emit_symbols cos32 sin32 (unat (arg_symbols a)) (FpgaEmulator_new timing (StreamId (arg_stream_id a)))))"
    and "0 < rx_queue_depth (nic_cfg (h_nic s))" "gpu_serves timing s"
    and "32 + 8 * samples_per_symbol timing \<le> net_max_datagram n" "8 * samples_per_symbol timing < 2 ^ 32"
    and "1000000 \<le> tc_max_latency_ns (ts (h_transport s))"
    and "\<And>k. k \<le> K + unat (arg_symbols a) \<Longrightarrow> he_time env k < he_time env 0 + 30000000000"
  shows "\<exists>s'. run_host_recv env a = Some (Inr s') \<and> h_accepted s' = arg_symbols a"
proof -
  define Q where "Q = map (emitted cos32 sin32 timing (StreamId (arg_stream_id a))) [0..<unat (arg_symbols a)]"
  let ?cap = "net_max_datagram n"
  have frames: "he_incoming env @ concat (map traffic [0..<K]) = map (\<lambda>p. Datagram (encode_frame p)) Q"
    using assms(4) by (simp add: Q_def emit_symbols_new)
  note net = open_rx_udp [OF host_start_ok(3) [OF assms(1)]]
  have "all_datagrams (he_incoming env @ concat (map traffic [0..<K]))" unfolding frames by (rule all_datagrams_map)
  then have data: "all_datagrams (he_incoming env)" "\<forall>j<K. all_datagrams (traffic j)"
    by (simp_all add: all_datagrams_concat)
  have "all_datagrams (traffic j)" for j
    using data(2) assms(3) by (cases "j < K") (simp_all add: all_datagrams_def)
  then have ready: "udp_ready traffic ?cap (Udp n)" using net(2) data(1) by (simp add: udp_ready_def)
  have "decoded ?cap (he_incoming env @ concat (map traffic [0..<K])) = Q"
    unfolding frames using assms(7,8) by (subst decoded_frames) (auto simp: Q_def)
  then have upcoming: "udp_feed.upcoming ?cap traffic K 0 (Udp n) = Q"
    unfolding decoded_append decoded_concat using net by (simp add: udp_feed.upcoming_def udp_queue_def comp_def)
  show ?thesis
    using assms(3) by (intro udp_feed.run_accepts [OF assms(1,2,5,6,8,9) _ ready upcoming [unfolded Q_def] assms(10)]) simp_all
qed

subsection \<open>Over the shared ring\<close>

lemma send_packet_stored: "try_push ring p = (Inr u, ring') \<Longrightarrow> send_packet other ring p = (Inr (), ring')"
proof -
  assume "try_push ring p = (Inr u, ring')"
  then have "send_loop other 0 (Suc 9999) ring p = (Inr (), ring')" by (simp only: send_loop.simps prod.case sum.case)
  moreover have "Suc 9999 = (10000 :: nat)" by simp
  ultimately show ?thesis unfolding send_packet_def by metis
qed

lemma emit_shm_after:
  assumes "shm_inv ring" "length (shm_queue ring) + n \<le> shm_slot_count ring"
    and "32 + 8 * samples_per_symbol timing \<le> shm_slot_bytes ring" "unat (write_pos (shm_map ring)) + n < 2 ^ 64"
  shows "\<exists>ring'. emit_shm cos32 sin32 other (\<lambda>_ m. m) k n (fpga_after timing i k) ring = (Inr (), ring') \<and> shm_inv ring'
    \<and> shm_queue ring' = shm_queue ring @ map (emitted cos32 sin32 timing i) [k..<k + n]
    \<and> shm_slot_count ring' = shm_slot_count ring \<and> shm_slot_bytes ring' = shm_slot_bytes ring
    \<and> unat (write_pos (shm_map ring')) = unat (write_pos (shm_map ring)) + n \<and> (shm_header_ok ring \<longrightarrow> shm_header_ok ring')"
  using assms
proof (induction n arbitrary: k ring)
  case (Suc n)
  let ?p = "emitted cos32 sin32 timing i k"
  have w: "unat (write_pos (shm_map ring)) < 2 ^ 64 - 1" using Suc.prems(4) by simp
  have upt: "[k..<k + Suc n] = k # [Suc k..<Suc k + n]" by (simp add: upt_conv_Cons del: upt_Suc)
  from Suc.prems(1) w show ?case
  proof (cases rule: try_push_cases [of ring ?p])
    case (stored ring')
    note sent = send_packet_stored [OF stored(3)]
    have w': "unat (write_pos (shm_map ring')) = Suc (unat (write_pos (shm_map ring)))" using stored(6) w by (simp add: unat_inc)
    have hdr: "shm_header_ok ring \<Longrightarrow> shm_header_ok ring'" using header_push [OF Suc.prems(1) _ stored(3)] .
    show ?thesis
      using Suc.IH [OF stored(4), of "Suc k"] Suc.prems(2-4) stored(5,7,8) w' hdr unfolding upt
      by (auto simp: emit_symbol_after sent simp del: upt_Suc)
  qed (use Suc.prems(2,3) in simp_all)
qed simp

lemma open_rx_shm:
  assumes "open_rx env a = Inr (Shm r)" "read_to_string (he_bench env) (arg_shm_config a) = Inr y" "parse_shm env y = Inr cfg"
    and "fs_open (he_fs env) (shm_path cfg) False = Inr m" "shm_geometry (shm_cfg_slot_count cfg) (shm_cfg_slot_bytes cfg) m"
  shows "r = \<lparr>shm_ring = \<lparr>shm_map = m, shm_slot_count = shm_cfg_slot_count cfg, shm_slot_bytes = shm_cfg_slot_bytes cfg,
    pushed = 0, popped = 0\<rparr>, shm_rx = []\<rparr>"
  using assms
  by (auto simp: open_rx_def and_then_Inr_iff read_ctx_def ShmLinkConfig_from_yaml_str_def ShmPacketIO_open_def ShmPacketRing_open_def
      shm_geometry_def Let_def split: if_splits sum.splits)

text \<open>
  C12: the same over the shared ring, from the file system to the receiver.  A producer creates the ring and
  emits the first symbols into it; then a receiver with the same configuration attaches, and the emitter
  pushes the remaining symbols while the receiver runs, up to a burst per turn.  If the ring has a burst of
  slots more than the symbols it starts with and a slot holds a frame, no emission fails and the receiver
  succeeds with all symbols accepted, also when they are more than the ring has slots.
\<close>

theorem ring_symbols_are_received:
  assumes "ShmPacketRing_open fs (cfg\<lparr>shm_create := True\<rparr>) = Inr ring" "shm_cfg_slot_count cfg < 2 ^ 64" "shm_cfg_slot_bytes cfg < 2 ^ 32"
    and "m + 32 \<le> shm_cfg_slot_count cfg" "32 + 8 * samples_per_symbol timing \<le> shm_cfg_slot_bytes cfg" "m \<le> unat (arg_symbols a)"
    and "read_to_string (he_bench env) (arg_shm_config a) = Inr y" "parse_shm env y = Inr cfg"
    and "fs_open (he_fs env) (shm_path cfg) False =
           Inr (shm_map (snd (emit_shm cos32 sin32 other (\<lambda>_ m. m) 0 m (FpgaEmulator_new timing (StreamId (arg_stream_id a))) ring)))"
    and "host_start env a = Inr (Shm r, s)" "he_arrivals env = shm_arrivals traffic"
    and "\<forall>j\<ge>K. traffic j = []" "\<forall>j. length (traffic j) \<le> 32"
    and "concat (map traffic [0..<K]) =
           drop m (fst (emit_symbols cos32 sin32 (unat (arg_symbols a)) (FpgaEmulator_new timing (StreamId (arg_stream_id a)))))"
    and "0 < rx_queue_depth (nic_cfg (h_nic s))" "gpu_serves timing s" "1000000 \<le> tc_max_latency_ns (ts (h_transport s))"
    and "\<And>k. k \<le> K + unat (arg_symbols a) \<Longrightarrow> he_time env k < he_time env 0 + 30000000000"
  shows "fst (emit_shm cos32 sin32 other (\<lambda>_ m. m) 0 m (FpgaEmulator_new timing (StreamId (arg_stream_id a))) ring) = Inr ()
    \<and> (\<exists>s'. run_host_recv env a = Some (Inr s') \<and> h_accepted s' = arg_symbols a)"
proof -
  let ?i = "StreamId (arg_stream_id a)" and ?n = "unat (arg_symbols a)"
  let ?e = "emitted cos32 sin32 timing ?i"
  have "shm_create (cfg\<lparr>shm_create := True\<rparr>)" "shm_cfg_slot_count (cfg\<lparr>shm_create := True\<rparr>) < 2 ^ 64"
      "shm_cfg_slot_bytes (cfg\<lparr>shm_create := True\<rparr>) < 2 ^ 32" using assms(2,3) by simp_all
  note created = open_created [OF assms(1) this]
  have ring: "shm_inv ring" "shm_queue ring = []" using shm_repI [OF created(1)] by simp_all
  obtain ring' where emit: "emit_shm cos32 sin32 other (\<lambda>_ m. m) 0 m (FpgaEmulator_new timing ?i) ring = (Inr (), ring')"
      "shm_inv ring'" "shm_queue ring' = map ?e [0..<m]" "shm_slot_count ring' = shm_cfg_slot_count cfg"
      "shm_slot_bytes ring' = shm_cfg_slot_bytes cfg" "unat (write_pos (shm_map ring')) = m"
    using emit_shm_after [OF ring(1), of m timing cos32 sin32 other 0 ?i] created(3-5) ring(2) assms(2,4,5)
    by (auto simp: fpga_after_0)
  have geo: "shm_geometry (shm_cfg_slot_count cfg) (shm_cfg_slot_bytes cfg) (shm_map ring')"
    using emit(2,4,5) by (simp add: shm_inv_def shm_rep_def Let_def)
  have r: "r = \<lparr>shm_ring = \<lparr>shm_map = shm_map ring', shm_slot_count = shm_cfg_slot_count cfg, shm_slot_bytes = shm_cfg_slot_bytes cfg,
      pushed = 0, popped = 0\<rparr>, shm_rx = []\<rparr>"
    by (rule open_rx_shm [OF host_start_ok(3) [OF assms(10)] assms(7,8) _ geo]) (use assms(9) emit(1) in simp)
  have attached: "shm_inv (shm_ring r)" "shm_queue (shm_ring r) = map ?e [0..<m]"
    using emit(2-5) shm_inv_cong [of "shm_ring r" ring'] shm_queue_map [of "shm_ring r" ring'] by (simp_all add: r)
  have rest: "concat (map traffic [0..<K]) = map ?e [m..<?n]"
    using assms(14) by (simp add: emit_symbols_new drop_map)
  have "p \<in> set (map ?e [m..<?n])" if "p \<in> set (traffic j)" for j p
    using that assms(12) unfolding rest [symmetric] by (cases "j < K") auto
  then have fits: "\<forall>j. \<forall>p\<in>set (traffic j). 32 + length (payload p) \<le> shm_cfg_slot_bytes cfg" using assms(5) by fastforce
  have "length (concat (map traffic [0..<K])) = ?n - m" unfolding rest by simp
  moreover have "?n < 2 ^ 64" using unsigned_less [of "arg_symbols a", where 'a = nat] by simp
  ultimately have "unat (write_pos (shm_map (shm_ring r))) + length (concat (map traffic [0..<K])) < 2 ^ 64"
    using emit(6) assms(6) by (simp add: r)
  then have ready: "ring_ready traffic K 0 (Shm r)"
    using attached assms(4,12,13) fits by (simp add: ring_ready_def ring_queue_def r)
  have "ring_feed.upcoming traffic K 0 (Shm r) = map ?e [0..<m] @ map ?e [m..<?n]"
    using attached(2) rest by (simp add: ring_feed.upcoming_def ring_queue_def r)
  also have "\<dots> = map ?e [0..<?n]" using upt_add_eq_append [of 0 m "?n - m"] assms(6) by (simp flip: map_append)
  finally have upcoming: "ring_feed.upcoming traffic K 0 (Shm r) = map ?e [0..<?n]" .
  have "8 * samples_per_symbol timing < 2 ^ 32" using assms(3,5) by simp
  from ring_feed.run_accepts [OF assms(10,11,15,16) this assms(17,12) ready upcoming assms(18)] emit(1)
  show ?thesis by simp
qed

subsection \<open>The emitter over UDP\<close>

definition frame_of :: "(f32 \<Rightarrow> f32) \<Rightarrow> (f32 \<Rightarrow> f32) \<Rightarrow> RadioTimingConfig \<Rightarrow> StreamId \<Rightarrow> nat \<Rightarrow> u8 list" where
  "frame_of cos32 sin32 timing i k = encode_frame (emitted cos32 sin32 timing i k)"

lemma emit_udp_after:
  "emit_udp cos32 sin32 send_to k n (fpga_after timing i k) sink =
     (case find (\<lambda>j. isl (send_to j (frame_of cos32 sin32 timing i j) (sink_peer sink))) [k..<k + n] of
        None \<Rightarrow> (Inr (), sink\<lparr>sent := sent sink + of_nat n\<rparr>)
      | Some j \<Rightarrow> (Inl (HostContext (''send symbol '' @ show_nat j)), sink\<lparr>sent := sent sink + of_nat (j - k)\<rparr>))"
proof (induction n arbitrary: k sink)
  case (Suc n)
  have upt: "[k..<k + Suc n] = k # [Suc k..<Suc k + n]" by (simp add: upt_conv_Cons del: upt_Suc)
  show ?case
  proof (cases "send_to k (frame_of cos32 sin32 timing i k) (sink_peer sink)")
    case (Inl e)
    then show ?thesis unfolding upt by (simp add: emit_symbol_after net_send_packet_def frame_of_def)
  next
    case (Inr m)
    have "Suc k \<le> j \<and> (of_nat (j - k) :: u64) = of_nat j - of_nat k" if "find P [Suc k..<Suc k + n] = Some j" for P j
      using that by (auto simp: find_Some_iff of_nat_diff simp del: upt_Suc)
    then show ?thesis unfolding upt using Inr
      by (auto simp: emit_symbol_after net_send_packet_def frame_of_def Suc.IH Suc_diff_Suc Suc_le_eq simp del: upt_Suc split: option.split)
  qed
qed simp

text \<open>
  The emitter over UDP.  It hands the frames of the emulator's symbols to the socket in order and
  stops at the first call that fails, with an error that names this symbol; the number of packets it
  reports is the number of calls that succeeded.
\<close>

theorem emit_udp_verdict:
  "emit_udp cos32 sin32 send_to 0 n (FpgaEmulator_new timing i) sink =
     (case find (\<lambda>j. isl (send_to j (frame_of cos32 sin32 timing i j) (sink_peer sink))) [0..<n] of
        None \<Rightarrow> (Inr (), sink\<lparr>sent := sent sink + of_nat n\<rparr>)
      | Some j \<Rightarrow> (Inl (HostContext (''send symbol '' @ show_nat j)), sink\<lparr>sent := sent sink + of_nat j\<rparr>))"
  using emit_udp_after [of cos32 sin32 send_to 0 n timing i sink] by (simp add: fpga_after_0 split: option.split)

section \<open>Concrete links\<close>

text \<open>Forty symbols over UDP: thirty wait in the socket and ten arrive during the third turn.\<close>

definition sample_frames :: "nat \<Rightarrow> recv_outcome list" where
  "sample_frames n = map (\<lambda>p. Datagram (encode_frame p))
     (fst (emit_symbols (\<lambda>x. x) (\<lambda>x. x) n (FpgaEmulator_new sample_timing (StreamId 1))))"

definition sample_late_frames :: "nat \<Rightarrow> recv_outcome list" where
  "sample_late_frames k = (if k = 2 then drop 30 (sample_frames 40) else [])"

lemma gpu_serves_sample:
  "h_cuda s = None \<Longrightarrow> slot_bytes (h_ring s) = cfg_slot_bytes sample_ring_config \<Longrightarrow> gpu_serves sample_timing s"
  by (simp add: gpu_serves_def sample_timing_def sample_ring_config_def)

lemma sample_samples: "samples_per_symbol sample_timing = 16"
  by (simp add: sample_timing_def)

lemma sample_late_frames_end: "\<forall>j\<ge>3. sample_late_frames j = []"
  by (simp add: sample_late_frames_def)

theorem emitted_symbols_are_received_witness:
  "\<exists>s'. run_host_recv ((sample_host_env (take 30 (sample_frames 40)))\<lparr>he_arrivals := udp_arrivals sample_late_frames\<rparr>) sample_host_args
      = Some (Inr s') \<and> h_accepted s' = arg_symbols sample_host_args"
proof -
  let ?env = "(sample_host_env (take 30 (sample_frames 40)))\<lparr>he_arrivals := udp_arrivals sample_late_frames\<rparr>"
  have "open_rx ?env sample_host_args = open_rx (sample_host_env (take 30 (sample_frames 40))) sample_host_args" by (simp add: open_rx_def Let_def)
  then obtain n where n: "open_rx ?env sample_host_args = Inr (Udp n)" "net_max_datagram n = 160"
    using sample_open_rx [of "take 30 (sample_frames 40)"] by auto
  obtain s where start: "host_start ?env sample_host_args = Inr (Udp n, s)"
      "nic_cfg (h_nic s) = sample_nic_config" "slot_bytes (h_ring s) = cfg_slot_bytes sample_ring_config"
      "h_cuda s = None" "tc_max_latency_ns (ts (h_transport s)) = 50000000"
    using sample_host_starts [OF _ n(1)] by (auto simp: sample_host_time)
  have frames: "he_incoming ?env @ concat (map sample_late_frames [0..<3]) = sample_frames 40"
    by (simp add: sample_host_time sample_late_frames_def upt_rec)
  show ?thesis
    by (rule emitted_symbols_are_received [OF start(1) _ sample_late_frames_end _ _ gpu_serves_sample [OF start(4,3)]])
      (use frames in \<open>simp_all add: sample_host_time n(2) start(2-) sample_nic_config_def sample_samples sample_frames_def\<close>)
qed

text \<open>The same symbols over a ring of 36 slots: two before the receiver starts, the others in two turns.\<close>

definition sample_link_config :: ShmLinkConfig where
  "sample_link_config = \<lparr>shm_version = ''1.0.0'', shm_id = ''shm-test'', shm_path = ''/dev/shm/aether'',
     shm_cfg_slot_count = 36, shm_cfg_slot_bytes = 256, shm_create = False\<rparr>"

definition sample_link_ring :: ShmPacketRing where
  "sample_link_ring = \<lparr>shm_map = init_ring (resize 9568 []) 36 256, shm_slot_count = 36, shm_slot_bytes = 256, pushed = 0, popped = 0\<rparr>"

definition sample_symbols :: "Packet list" where
  "sample_symbols = fst (emit_symbols (\<lambda>x. x) (\<lambda>x. x) 40 (FpgaEmulator_new sample_timing (StreamId 1)))"

definition sample_pushes :: "nat \<Rightarrow> Packet list" where
  "sample_pushes k = (if k = 0 then take 20 (drop 2 sample_symbols) else if k = 4 then drop 22 sample_symbols else [])"

abbreviation sample_started_ring :: ShmPacketRing where
  "sample_started_ring \<equiv> snd (emit_shm (\<lambda>x. x) (\<lambda>x. x) (\<lambda>_ _ m. m) (\<lambda>_ m. m) 0 2 (FpgaEmulator_new sample_timing (StreamId 1)) sample_link_ring)"

definition sample_ring_env :: host_env where
  "sample_ring_env = (sample_host_env [])\<lparr>parse_shm := \<lambda>_. Inr sample_link_config, he_fs := sample_fs (shm_map sample_started_ring),
     he_arrivals := shm_arrivals sample_pushes\<rparr>"

definition sample_ring_args :: host_args where
  "sample_ring_args = sample_host_args\<lparr>arg_transport := ''shm''\<rparr>"

lemma sample_ring_open: "ShmPacketRing_open (sample_fs []) (sample_link_config\<lparr>shm_create := True\<rparr>) = Inr sample_link_ring"
  by (simp add: ShmPacketRing_open_def sample_link_config_def sample_fs_def sample_link_ring_def HEADER_BYTES_def slot_stride_def)

lemma sample_ring_kind: "to_ascii_lowercase ''shm'' = ''shm''"
  by code_simp

lemma sample_started:
  "shm_geometry 36 256 (shm_map sample_started_ring)" "validate_header (shm_map sample_started_ring) 36 256 = Inr ()"
proof -
  have open_ok: "shm_create (sample_link_config\<lparr>shm_create := True\<rparr>)" "shm_cfg_slot_count (sample_link_config\<lparr>shm_create := True\<rparr>) < 2 ^ 64"
      "shm_cfg_slot_bytes (sample_link_config\<lparr>shm_create := True\<rparr>) < 2 ^ 32" by (simp_all add: sample_link_config_def)
  note created = open_created [OF sample_ring_open open_ok]
  have ring: "shm_inv sample_link_ring" "shm_queue sample_link_ring = []" "shm_header_ok sample_link_ring"
      "shm_slot_count sample_link_ring = 36" "shm_slot_bytes sample_link_ring = 256" "write_pos (shm_map sample_link_ring) = 0"
    using shm_repI [OF created(1)] created(2,5) by (simp_all add: shm_header_ok_def sample_link_ring_def)
  obtain ring' where "sample_started_ring = ring'" "shm_inv ring'" "shm_slot_count ring' = 36" "shm_slot_bytes ring' = 256" "shm_header_ok ring'"
    using emit_shm_after [OF ring(1), of 2 sample_timing "\<lambda>x. x" "\<lambda>x. x" "\<lambda>_ _ m. m" 0 "StreamId 1"] ring(2-6)
    by (auto simp: fpga_after_0 sample_timing_def)
  then show "shm_geometry 36 256 (shm_map sample_started_ring)" "validate_header (shm_map sample_started_ring) 36 256 = Inr ()"
    by (simp_all add: shm_inv_def shm_rep_def shm_header_ok_def Let_def)
qed

lemma sample_ring_attach: "\<exists>r. open_rx sample_ring_env sample_ring_args = Inr (Shm r)"
  using sample_started
  by (simp add: open_rx_def read_ctx_def sample_ring_env_def sample_host_time sample_bench_env_def sample_ring_args_def sample_host_args_def sample_ring_kind
      sample_link_config_def ShmLinkConfig_from_yaml_str_def ShmPacketIO_open_def ShmPacketRing_open_def sample_fs_def shm_geometry_def Let_def)

theorem ring_symbols_are_received_witness:
  "fst (emit_shm (\<lambda>x. x) (\<lambda>x. x) (\<lambda>_ _ m. m) (\<lambda>_ m. m) 0 2 (FpgaEmulator_new sample_timing (StreamId (arg_stream_id sample_ring_args)))
      sample_link_ring) = Inr ()
    \<and> (\<exists>s'. run_host_recv sample_ring_env sample_ring_args = Some (Inr s') \<and> h_accepted s' = arg_symbols sample_ring_args)"
proof -
  have env: "he_bench sample_ring_env = sample_bench_env" "he_time sample_ring_env k = k * 1000000" "arg_symbols sample_ring_args = 40"
      "arg_stream_id sample_ring_args = 1" "\<not> arg_use_cuda sample_ring_args" "he_arrivals sample_ring_env = shm_arrivals sample_pushes" for k
    by (simp_all add: sample_ring_env_def sample_ring_args_def sample_host_time)
  obtain r s where start: "host_start sample_ring_env sample_ring_args = Inr (Shm r, s)"
      "nic_cfg (h_nic s) = sample_nic_config" "slot_bytes (h_ring s) = cfg_slot_bytes sample_ring_config"
      "h_cuda s = None" "tc_max_latency_ns (ts (h_transport s)) = 50000000"
    using sample_ring_attach sample_host_starts [OF env(1) _ env(5)] by blast
  have symbols: "length sample_symbols = 40" by (simp add: sample_symbols_def emit_symbols_new)
  have pushes: "concat (map sample_pushes [0..<5]) = drop 2 sample_symbols" "length (sample_pushes j) \<le> 32" for j
    using append_take_drop_id [of 20 "drop 2 sample_symbols"] symbols by (simp_all add: sample_pushes_def upt_rec)
  have more: "\<forall>j\<ge>5. sample_pushes j = []" "\<forall>j. length (sample_pushes j) \<le> 32"
      "concat (map sample_pushes [0..<5]) = drop 2 (fst (emit_symbols (\<lambda>x. x) (\<lambda>x. x) (unat (arg_symbols sample_ring_args))
         (FpgaEmulator_new sample_timing (StreamId (arg_stream_id sample_ring_args)))))"
    using pushes by (simp_all add: sample_pushes_def sample_symbols_def env)
  have files: "read_to_string (he_bench sample_ring_env) (arg_shm_config sample_ring_args) = Inr []" "parse_shm sample_ring_env [] = Inr sample_link_config"
      "fs_open (he_fs sample_ring_env) (shm_path sample_link_config) False = Inr (shm_map sample_started_ring)"
    by (simp_all add: env sample_bench_env_def) (simp_all add: sample_ring_env_def sample_fs_def)
  show ?thesis
    by (rule ring_symbols_are_received [OF sample_ring_open _ _ _ _ _ files(1,2) _ start(1) env(6) more _ gpu_serves_sample [OF start(4,3)]])
      (use files(3) in \<open>simp_all add: env start(2-) sample_link_config_def sample_nic_config_def sample_samples\<close>)
qed

end
