(* ===== verification/Dpdk_Adapter.thy ===== *)
theory Dpdk_Adapter
  imports Rust_Strings
begin

text \<open>
  The crate \<^verbatim>\<open>dpdk-adapter\<close>: the boundary to a hardware datapath that this build does not have.  Opening
  the hardware fails closed, for every device.
\<close>

datatype AdapterError = AdapterUnavailable string | AdapterConfig string

record AdapterContract =
  schema_version :: string
  contract_id :: string
  contract_status :: string
  default_backend :: string
  hardware_enabled :: bool
  adapter_crate :: string

definition AdapterContract_from_yaml_str ::
    "(string \<Rightarrow> string + AdapterContract) \<Rightarrow> string \<Rightarrow> AdapterError + AdapterContract" where
  "AdapterContract_from_yaml_str yaml_parse s = map_err AdapterConfig (yaml_parse s)"

datatype HardwareProbe = ProbeUnavailable string

definition probe_hardware :: HardwareProbe where
  "probe_hardware =
     ProbeUnavailable ''dpdk-adapter spike build has no libdpdk/DOCA linkage; use backend=mock''"

definition open_hardware :: "string \<Rightarrow> AdapterError + unit" where
  "open_hardware pci_address = (case probe_hardware of ProbeUnavailable reason \<Rightarrow> Inl (AdapterUnavailable reason))"

lemma open_hardware_fails: "isl (open_hardware pci)"
  by (simp add: open_hardware_def split: HardwareProbe.split)

end
