(* ===== verification/Cli.thy ===== *)
theory Cli
  imports Host_Props Gates
begin

text \<open>
  The remaining commands of \<^verbatim>\<open>cli/src/main.rs\<close>: the smoke run, the drivers of bench, acceptance, soak and
  fault drill with their exit status, and the Prometheus dump and server.  What a command prints is not
  modelled, except for the bytes the server sends.
\<close>

section \<open>Definitions\<close>

datatype CliError =
    CliContext string
  | CliBail string
  | CliIo string
  | CliJson string
  | CliHost HostError
  | CliEthernet EthernetError
  | CliAcceptance AcceptanceError
  | CliSoak SoakError
  | CliPanic

definition with_context :: "string \<Rightarrow> 'e + 'a \<Rightarrow> CliError + 'a" where
  "with_context msg r = map_err (\<lambda>_. CliContext msg) r"

definition run_validate_config :: "bench_env \<Rightarrow> string \<Rightarrow> CliError + EthernetModelConfig" where
  "run_validate_config env path =
     and_then (with_context (''read '' @ path) (read_to_string env path)) (\<lambda>text.
     map_err CliEthernet (EthernetModelConfig_from_yaml_str (parse_eth env) text))"

definition run_bench :: "bench_env \<Rightarrow> (BenchReport \<Rightarrow> string + string) \<Rightarrow> string \<Rightarrow> CliError + string" where
  "run_bench env json path =
     and_then (with_context (''load '' @ path) (BenchProfile_load_path env path)) (\<lambda>profile.
     and_then (with_context ''pipeline bench'' (PipelineBench_run env ''.'' profile)) (\<lambda>(report, metrics).
     with_context ''write report'' (write_report env json ''.'' profile report)))"

definition run_accept ::
    "bench_env \<Rightarrow> (string \<Rightarrow> string + AcceptanceDoc) \<Rightarrow> (AcceptanceReport \<Rightarrow> string + string) \<Rightarrow> string \<Rightarrow> CliError + unit" where
  "run_accept env yaml json path =
     and_then (with_context (''load '' @ path) (AcceptanceProfile_load_path env yaml path)) (\<lambda>profile.
     case Acceptance_run env json ''.'' profile of
       Inr report \<Rightarrow> and_then (map_err CliJson (json report)) (\<lambda>_. Inr ())
     | Inl (AcceptanceFailed report) \<Rightarrow>
         and_then (map_err CliJson (json report)) (\<lambda>_. Inl (CliBail (''acceptance failed: profile='' @ ar_profile_id report)))
     | Inl e \<Rightarrow> Inl (CliAcceptance e))"

definition run_soak ::
    "bench_env \<Rightarrow> (u32 \<Rightarrow> bench_env) \<Rightarrow> u64 \<Rightarrow> (string \<Rightarrow> string + SoakDoc) \<Rightarrow> (SoakReport \<Rightarrow> string + string) \<Rightarrow> string
     \<Rightarrow> CliError + unit" where
  "run_soak env envs elapsed yaml json path =
     and_then (with_context (''load '' @ path) (SoakProfile_load_path env yaml path)) (\<lambda>profile.
     case Soak_run env envs elapsed json ''.'' profile of
       Inr report \<Rightarrow> and_then (map_err CliJson (json report)) (\<lambda>_. Inr ())
     | Inl (SoakFailed report) \<Rightarrow>
         and_then (map_err CliJson (json report)) (\<lambda>_. Inl (CliBail (''soak failed: profile='' @ sr_profile_id report)))
     | Inl e \<Rightarrow> Inl (CliSoak e))"

definition run_fault_drill ::
    "bench_env \<Rightarrow> (string \<Rightarrow> string + FaultDrillProfile) \<Rightarrow> (FaultDrillReport \<Rightarrow> string + string) \<Rightarrow> string \<Rightarrow> CliError + unit" where
  "run_fault_drill env yaml json path =
     and_then (with_context (''load '' @ path) (FaultDrillProfile_load_path env yaml path)) (\<lambda>profile.
     and_then (with_context ''fault-drill'' (FaultDrill_run env json ''.'' profile)) (\<lambda>report.
     and_then (map_err CliJson (json report)) (\<lambda>_.
     if \<not> fdr_passed report
     then Inl (CliBail (''fault-drill did not observe fault/recovery signals (packets='' @ show_u64 (br_packets (fdr_bench report)) @ '')''))
     else Inr ())))"

definition run_ops_status :: "bench_env \<Rightarrow> string \<Rightarrow> CliError + (ObservabilityConfig \<times> HealthThresholds)" where
  "run_ops_status env ops_config =
     and_then (with_context (''load '' @ ops_config) (ObservabilityConfig_load_path (read_to_string env) (parse_ops env) ops_config)) (\<lambda>ops.
     and_then (with_context (''load '' @ health_policy_path (ob_health ops))
                 (HealthThresholds_load_path (read_to_string env) (parse_health env) (health_policy_path (ob_health ops)))) (\<lambda>health.
     Inr (ops, health)))"

subsection \<open>Prometheus\<close>

text \<open>The bench, the health and the text that \<^verbatim>\<open>prom-dump\<close>, \<^verbatim>\<open>ops-report\<close> and \<^verbatim>\<open>prom-serve\<close> render.\<close>

definition bench_metrics :: "bench_env \<Rightarrow> string \<Rightarrow> (u64 \<Rightarrow> u64) \<Rightarrow> string \<Rightarrow> CliError + (BenchReport \<times> MetricsEngine)" where
  "bench_metrics env path limit ctx =
     and_then (with_context (''load '' @ path) (BenchProfile_load_path env path)) (\<lambda>profile.
     with_context ctx (PipelineBench_run env ''.'' (profile\<lparr>symbol_count := limit (symbol_count profile)\<rparr>)))"

definition metrics_health :: "bench_env \<Rightarrow> string \<Rightarrow> MetricsEngine \<Rightarrow> HealthState" where
  "metrics_health env policy metrics =
     hm_state (evaluate_silently env (HealthManager_new (unwrap_or
       (HealthThresholds_load_path (read_to_string env) (parse_health env) policy) HealthThresholds_default)) metrics)"

definition create_parent :: "bench_env \<Rightarrow> string \<Rightarrow> CliError + unit" where
  "create_parent env out =
     (case path_parent out of None \<Rightarrow> Inr () | Some parent \<Rightarrow> map_err CliIo (create_dir_all env parent))"

definition run_prom_dump :: "bench_env \<Rightarrow> string \<Rightarrow> string \<Rightarrow> string \<Rightarrow> CliError + unit" where
  "run_prom_dump env out bench_profile job =
     and_then (bench_metrics env bench_profile (\<lambda>n. min n 32) ''bench for prom-dump'') (\<lambda>(report, metrics).
     let health = metrics_health env ''configs/ops/health_policy.yaml'' metrics;
         text = render_prometheus_text (layered metrics) (Some health) job
     in and_then (create_parent env out) (\<lambda>_. with_context (''write '' @ out) (write_file env out text)))"

record OpsReport =
  or_ops_config_id :: string
  or_recovery_policy_id :: string
  or_health :: string
  or_trace_enabled :: bool
  or_bench :: BenchReport
  or_layered_metrics :: LayeredMetricsSnapshot
  or_prometheus_text_bytes :: usize

definition run_ops_report ::
    "bench_env \<Rightarrow> (OpsReport \<Rightarrow> string + string) \<Rightarrow> string \<Rightarrow> string \<Rightarrow> string \<Rightarrow> CliError + OpsReport" where
  "run_ops_report env json out bench_profile ops_config =
     and_then (with_context (''load '' @ ops_config) (ObservabilityConfig_load_path (read_to_string env) (parse_ops env) ops_config)) (\<lambda>ops.
     and_then (with_context (''load '' @ recovery_policy_path (ob_recovery ops))
                 (RecoveryPolicy_load_path (read_to_string env) (parse_recovery env) (recovery_policy_path (ob_recovery ops)))) (\<lambda>recovery.
     and_then (bench_metrics env bench_profile (\<lambda>n. min n 32) ''bench for ops-report'') (\<lambda>(report, metrics).
     let health = metrics_health env (health_policy_path (ob_health ops)) metrics;
         prom = render_prometheus_text (layered metrics) (Some health) ''aether-sim'';
         body = \<lparr>or_ops_config_id = ob_id ops, or_recovery_policy_id = rp_id recovery, or_health = health_as_str health,
                 or_trace_enabled = tcf_enabled (ob_trace ops), or_bench = report, or_layered_metrics = layered metrics,
                 or_prometheus_text_bytes = length prom\<rparr>
     in and_then (create_parent env out) (\<lambda>_.
        and_then (map_err CliJson (json body)) (\<lambda>text.
        and_then (with_context (''write '' @ out) (write_file env out text)) (\<lambda>_. Inr body))))))"

record PromScrapeConfig =
  psc_bind :: string
  psc_path :: string
  refresh_on_scrape :: bool
  psc_bench_profile :: string
  psc_symbol_count :: u64
  psc_job :: string

record PromScrapeDoc =
  psd_bind :: string
  psd_path :: "string option"
  psd_refresh_on_scrape :: "bool option"
  psd_bench_profile :: "string option"
  psd_symbol_count :: "u64 option"
  psd_job :: "string option"

definition PromScrapeConfig_of :: "PromScrapeDoc \<Rightarrow> PromScrapeConfig" where
  "PromScrapeConfig_of d =
     \<lparr>psc_bind = psd_bind d, psc_path = or_default (psd_path d) ''/metrics'', refresh_on_scrape = or_default (psd_refresh_on_scrape d) True,
      psc_bench_profile = or_default (psd_bench_profile d) ''configs/bench_profile.yaml'', psc_symbol_count = or_default (psd_symbol_count d) 8,
      psc_job = or_default (psd_job d) ''aether-sim''\<rparr>"

definition prom_render :: "bench_env \<Rightarrow> PromScrapeConfig \<Rightarrow> CliError + string" where
  "prom_render env cfg =
     and_then (bench_metrics env (psc_bench_profile cfg) (\<lambda>_. psc_symbol_count cfg) ''bench for prom-serve'') (\<lambda>(report, metrics).
     Inr (render_prometheus_text (layered metrics) (Some (metrics_health env ''configs/ops/health_policy.yaml'' metrics)) (psc_job cfg)))"

definition is_metrics :: "PromScrapeConfig \<Rightarrow> string \<Rightarrow> bool" where
  "is_metrics cfg req \<longleftrightarrow>
     starts_with req ''GET ''
     \<and> (contains req ('' '' @ psc_path cfg @ '' '') \<or> contains req ('' '' @ psc_path cfg @ ''?'')
        \<or> contains req ('' '' @ psc_path cfg @ '' HTTP''))"

definition crlf :: string where "crlf = [CHR 0x0D, CHR 0x0A]"

definition ok_response :: "string \<Rightarrow> string" where
  "ok_response body =
     ''HTTP/1.1 200 OK'' @ crlf @ ''Content-Type: text/plain; version=0.0.4'' @ crlf
     @ ''Content-Length: '' @ show_nat (length body) @ crlf @ ''Connection: close'' @ crlf @ crlf @ body"

definition not_found_response :: string where
  "not_found_response =
     (let body = ''use GET /metrics'' @ newline in
      ''HTTP/1.1 404 Not Found'' @ crlf @ ''Content-Length: '' @ show_nat (length body) @ crlf
      @ ''Connection: close'' @ crlf @ crlf @ body)"

text \<open>
  The accept loop.  A connection is the failure of \<^verbatim>\<open>accept\<close>, or the at most 1024 bytes that were read of
  the request, as text, with the result of writing the answer; \<open>envs k\<close> is the environment at the \<open>k\<close>-th
  connection.  The result is the list of answers with the result the command returns, which is \<open>None\<close> as
  long as the server still listens.
\<close>

datatype connection = AcceptError string | Request string "string + unit"

fun serve ::
    "(nat \<Rightarrow> bench_env) \<Rightarrow> PromScrapeConfig \<Rightarrow> bool \<Rightarrow> nat \<Rightarrow> string \<Rightarrow> connection list \<Rightarrow> string list \<times> (CliError + unit) option" where
  "serve envs cfg once k cached [] = ([], None)"
| "serve envs cfg once k cached (AcceptError e # cs) = ([], Some (Inl (CliContext ''accept'')))"
| "serve envs cfg once k cached (Request req w # cs) =
     (if is_metrics cfg req then
        (case (if refresh_on_scrape cfg then prom_render (envs k) cfg else Inr cached) of
           Inl e \<Rightarrow> ([], Some (Inl e))
         | Inr cached \<Rightarrow>
             (case w of
                Inl e \<Rightarrow> ([], Some (Inl (CliIo e)))
              | Inr _ \<Rightarrow>
                  if once then ([ok_response cached], Some (Inr ()))
                  else let (rs, e) = serve envs cfg once (Suc k) cached cs in (ok_response cached # rs, e)))
      else let (rs, e) = serve envs cfg once (Suc k) cached cs in (not_found_response # rs, e))"

definition run_prom_serve ::
    "(nat \<Rightarrow> bench_env) \<Rightarrow> (string \<Rightarrow> string + PromScrapeDoc) \<Rightarrow> (string \<Rightarrow> string + connection list) \<Rightarrow> string \<Rightarrow> bool
     \<Rightarrow> string list \<times> (CliError + unit) option" where
  "run_prom_serve envs yaml bind config_path once =
     (case and_then (with_context (''read '' @ config_path) (read_to_string (envs 0) config_path)) (\<lambda>text.
           and_then (with_context ''parse prometheus_scrape.yaml'' (map_sum id PromScrapeConfig_of (yaml text))) (\<lambda>cfg.
           and_then (prom_render (envs 0) cfg) (\<lambda>cached.
           and_then (with_context (''bind '' @ psc_bind cfg) (bind (psc_bind cfg))) (\<lambda>conns. Inr (cfg, cached, conns))))) of
        Inl e \<Rightarrow> ([], Some (Inl e))
      | Inr (cfg, cached, conns) \<Rightarrow> serve envs cfg once 1 cached conns)"

subsection \<open>The smoke run\<close>

definition LINK_UP :: string where "LINK_UP = ''LINK_UP''"

definition STREAM_CREATE :: string where "STREAM_CREATE = ''STREAM_CREATE''"

definition smoke_transport :: "bench_env \<Rightarrow> CliError + SimTransportEngine" where
  "smoke_transport env =
     and_then (with_context ''read configs/transport_deadline.yaml'' (read_to_string env ''configs/transport_deadline.yaml'')) (\<lambda>yaml.
     and_then (map_err (\<lambda>e. CliHost (HostTransport e)) (Sim_from_yaml (parse_deadline env) yaml)) (\<lambda>t.
     case link_up t of
       (Inl e, _) \<Rightarrow> Inl (CliHost (HostTransport e))
     | (Inr _, t) \<Rightarrow>
         (case create_stream t \<lparr>cfg_stream_id = StreamId 1, carrier = 0, antenna = 0, qos = 0, deadline_ns = 10000\<rparr> of
            (Inl e, _) \<Rightarrow> Inl (CliHost (HostTransport e))
          | (Inr _, t) \<Rightarrow>
              (case start_stream t (StreamId 1) of
                 (Inl e, _) \<Rightarrow> Inl (CliHost (HostTransport e))
               | (Inr _, t) \<Rightarrow> Inr t))))"

text \<open>Ten microseconds after its time stamp the packet is ingested and received back.\<close>

definition smoke_ingest :: "SimTransportEngine \<Rightarrow> Packet \<Rightarrow> CliError + (Packet \<times> SimTransportEngine)" where
  "smoke_ingest t packet =
     (case ingest (t\<lparr>now_ns := tstamp (timestamp packet) + 10000\<rparr>) packet of
        (Inl e, _) \<Rightarrow> Inl (CliHost (HostTransport e))
      | (Inr _, t) \<Rightarrow>
          (case receive t of
             (Inl e, _) \<Rightarrow> Inl (CliHost (HostTransport e))
           | (Inr None, _) \<Rightarrow> Inl (CliContext ''expected ingested packet on receive'')
           | (Inr (Some p), t) \<Rightarrow> Inr (p, t)))"

definition smoke_nic :: "bench_env \<Rightarrow> u64 \<Rightarrow> Packet \<Rightarrow> CliError + (u64 \<times> Cx5Nic)" where
  "smoke_nic env now packet =
     and_then (with_context ''read configs/nic_dma.yaml'' (read_to_string env ''configs/nic_dma.yaml'')) (\<lambda>yaml.
     and_then (map_err (\<lambda>e. CliHost (HostNic e)) (Cx5Nic_from_yaml (parse_nic env) yaml)) (\<lambda>nic.
     case submit_rx (advance_time nic now) packet of
       (Inl e, _) \<Rightarrow> Inl (CliHost (HostNic e))
     | (Inr _, nic) \<Rightarrow>
         let now = now + dma_latency_ns (nic_cfg nic) in Inr (now, advance_time nic now)))"

record Smoke =
  sm_now :: u64
  sm_ring :: GpuRingBuffer
  sm_metrics :: MetricsEngine
  sm_events :: EventLogger
  sm_trace :: TraceEngine

fun smoke_deliver :: "(nat \<Rightarrow> u64) \<Rightarrow> u64 \<Rightarrow> Packet list \<Rightarrow> Smoke \<Rightarrow> CliError + Smoke" where
  "smoke_deliver clock tid [] s = Inr s"
| "smoke_deliver clock tid (pkt # ps) s =
     (let n = word_of_nat (length (payload pkt));
          s = s\<lparr>sm_metrics := record_symbol (record_rx_bytes (sm_metrics s) n),
                sm_trace := stamp (sm_trace s) tid GpuEnqueue (sm_now s)\<rparr>
      in case process_packet (sm_ring s) (payload pkt) (sm_now s) of
           (Inl e, _) \<Rightarrow> Inl (CliHost (HostGpu e))
         | (Inr latency, r) \<Rightarrow>
             let now = sm_now s + latency;
                 m = record_latency_sample (record_tx_bytes (record_kernel_ns (sm_metrics s) latency) n) latency;
                 ev = emit (sm_events s) (with_latency_us (with_sequence (with_stream (with_component
                        (LogEvent_now (clock (length (ev_log (sm_events s)))) PACKET_RX) ''gpu_ring'')
                        (sid (stream_id pkt))) (seqno (sequence pkt))) (latency_us latency))
             in smoke_deliver clock tid ps (s\<lparr>sm_ring := r, sm_now := now, sm_metrics := m,
                  sm_trace := stamp (sm_trace s) tid CudaDone now, sm_events := ev\<rparr>))"

abbreviation log_now :: "(nat \<Rightarrow> u64) \<Rightarrow> string \<Rightarrow> (LogEvent \<Rightarrow> LogEvent) \<Rightarrow> EventLogger \<Rightarrow> EventLogger" where
  "log_now clock name f ev \<equiv> emit ev (f (LogEvent_now (clock (length (ev_log ev))) name))"

definition run_smoke :: "bench_env \<Rightarrow> string \<Rightarrow> CliError + (Smoke \<times> SimTransportEngine \<times> HealthState \<times> usize)" where
  "run_smoke env profile =
     and_then (with_context (''read profile '' @ profile) (read_to_string env profile)) (\<lambda>_.
     and_then (with_context ''load configs/ops/observability.yaml''
                 (ObservabilityConfig_load_path (read_to_string env) (parse_ops env) ''configs/ops/observability.yaml'')) (\<lambda>ops.
     and_then (map_err CliIo (open_log env (log_events_path (ob_logging ops)))) (\<lambda>events.
     and_then (with_context ''load recovery policy''
                 (RecoveryPolicy_load_path (read_to_string env) (parse_recovery env) (recovery_policy_path (ob_recovery ops)))) (\<lambda>recovery.
     let clock = wall_clock env;
         events = log_now clock RUNTIME_STARTED (\<lambda>e. with_detail (with_component e ''cli'') (''smoke recovery='' @ rp_id recovery))
                    events;
         trace = TraceEngine_from_config True (min (ring_capacity (ob_trace ops)) 64) (tcf_export_path (ob_trace ops))
     in and_then (with_context ''read configs/radio_timing.yaml'' (read_to_string env ''configs/radio_timing.yaml'')) (\<lambda>yaml.
     and_then (map_err (\<lambda>e. CliHost (HostFpga e)) (RadioTimingConfig_from_yaml_str (parse_timing env) yaml)) (\<lambda>timing.
     and_then (smoke_transport env) (\<lambda>t.
     let events = log_now clock LINK_UP (\<lambda>e. with_component e ''transport'') events;
         events = log_now clock STREAM_CREATE (\<lambda>e. with_stream (with_component e ''transport'') 1) events;
         (packet, fpga) = emit_symbol (libm_cos env) (libm_sin env) (FpgaEmulator_new timing (StreamId 1));
         (tid, trace) = trace_start trace (sid (stream_id packet)) (seqno (sequence packet)) FpgaTx (tstamp (timestamp packet));
         now = tstamp (timestamp packet)
     in and_then (smoke_ingest t packet) (\<lambda>(packet, t).
     let trace = stamp trace tid Cx5Rx (now + 10000) in
     and_then (smoke_nic env now packet) (\<lambda>(now, nic).
     let trace = stamp trace tid DmaDone now in
     and_then (with_context ''read configs/gpu_ring.yaml'' (read_to_string env ''configs/gpu_ring.yaml'')) (\<lambda>yaml.
     and_then (map_err (\<lambda>e. CliHost (HostGpu e)) (GpuRingBuffer_from_yaml (parse_ring env) yaml)) (\<lambda>ring.
     and_then (smoke_deliver clock tid (fst (Cx5Nic_rx_burst nic 32))
                 \<lparr>sm_now = now, sm_ring = ring, sm_metrics = set_link_up MetricsEngine_new True (f64_lit 100), sm_events = events,
                  sm_trace = trace\<rparr>) (\<lambda>s.
     let thr = unwrap_or (HealthThresholds_load_path (read_to_string env) (parse_health env) (health_policy_path (ob_health ops)))
                 HealthThresholds_default;
         (_, h, ev) = evaluate clock (HealthManager_new thr) (layered (sm_metrics s)) (Some (sm_events s));
         exported = unwrap_or (export_configured (create_dir_all env) (create_log_file env) (append_file env) (json_trace env) (sm_trace s)) 0
     in Inr (s\<lparr>sm_events := the ev\<rparr>, t, hm_state h, exported)))))))))))))"

section \<open>The scrape server\<close>

text \<open>
  A server started with \<^verbatim>\<open>--once\<close>.  Requests for anything else are answered with 404 and the server
  goes on; the first request for the metrics path is answered with the metrics, rendered afresh if the
  configuration says so, and ends the server.  A failed rendering ends it with that error.
\<close>

theorem prom_serve_once:
  "serve envs cfg True k cached (map (\<lambda>r. Request r (Inr ())) reqs) =
     (let m = length (takeWhile (\<lambda>r. \<not> is_metrics cfg r) reqs); skipped = replicate m not_found_response in
      if m = length reqs then (skipped, None)
      else case (if refresh_on_scrape cfg then prom_render (envs (k + m)) cfg else Inr cached) of
             Inl e \<Rightarrow> (skipped, Some (Inl e))
           | Inr body \<Rightarrow> (skipped @ [ok_response body], Some (Inr ())))"
  by (induction reqs arbitrary: k) (auto simp: Let_def split: sum.split)

text \<open>A client takes what follows the first empty line as the body.\<close>

fun after_blank :: "string \<Rightarrow> string" where
  "after_blank [] = []"
| "after_blank (c # s) = (if take 4 (c # s) = crlf @ crlf then drop 4 (c # s) else after_blank s)"

definition content_length :: "string \<Rightarrow> nat" where
  "content_length resp =
     read_digits 0 (takeWhile (\<lambda>c. c \<noteq> CHR 0x0D)
       (drop (length (''HTTP/1.1 200 OK'' @ crlf @ ''Content-Type: text/plain; version=0.0.4'' @ crlf @ ''Content-Length: '')) resp))"

lemma digit_not_cr: "n < 10 \<Longrightarrow> digit_char n \<noteq> CHR 0x0D"
  using of_digit_char [of n] by (auto simp: of_char_def)

lemma show_nat_no_cr: "CHR 0x0D \<notin> set (show_nat n)"
proof (induction n rule: show_nat.induct)
  case (1 n)
  then show ?case
    using digit_not_cr [of n] digit_not_cr [of "n mod 10"] by (auto simp: show_nat.simps [of n])
qed

lemma after_blank_skip: "CHR 0x0D \<notin> set xs \<Longrightarrow> after_blank (xs @ s) = after_blank s"
  by (induction xs) (auto simp: crlf_def)

lemma after_blank_line: "s \<noteq> [] \<Longrightarrow> hd s \<noteq> CHR 0x0D \<Longrightarrow> after_blank (crlf @ s) = after_blank s"
  by (cases s) (auto simp: crlf_def)

lemma after_blank_end: "after_blank (crlf @ crlf @ s) = s"
  by (simp add: crlf_def)

text \<open>
  The answer to a scrape is framed correctly: after the first empty line comes exactly the body, and
  the content length that is announced is its length.  With the text being readable line by line this is
  what a Prometheus server relies on.
\<close>

theorem scrape_response_framed:
  "after_blank (ok_response body) = body \<and> content_length (ok_response body) = length body"
proof
  have "after_blank (ok_response body) = after_blank (''Content-Type: text/plain; version=0.0.4'' @ crlf
      @ ''Content-Length: '' @ show_nat (length body) @ crlf @ ''Connection: close'' @ crlf @ crlf @ body)"
    unfolding ok_response_def by (subst after_blank_skip, simp, subst after_blank_line) simp_all
  also have "\<dots> = after_blank (''Content-Length: '' @ show_nat (length body) @ crlf @ ''Connection: close'' @ crlf @ crlf @ body)"
    by (subst after_blank_skip, simp, subst after_blank_line) simp_all
  also have "\<dots> = after_blank (crlf @ ''Connection: close'' @ crlf @ crlf @ body)"
    by (subst after_blank_skip, simp, subst after_blank_skip) (simp_all add: show_nat_no_cr)
  also have "\<dots> = body"
    by (subst after_blank_line, simp, simp, subst after_blank_skip) (simp_all add: after_blank_end)
  finally show "after_blank (ok_response body) = body" .
  have "takeWhile (\<lambda>c. c \<noteq> CHR 0x0D) (show_nat n @ crlf @ s) = show_nat n" for n s
    using show_nat_no_cr [of n] by (subst takeWhile_append2) (auto simp: crlf_def)
  then show "content_length (ok_response body) = length body"
    by (simp add: content_length_def ok_response_def crlf_def read_show_nat)
qed

section \<open>The smoke run\<close>

lemma smoke_transport_ok:
  assumes "read_to_string env ''configs/transport_deadline.yaml'' = Inr y" "parse_deadline env y = Inr dl"
  shows "\<exists>t r. smoke_transport env = Inr t \<and> link t = Link_Running \<and> streams t (StreamId 1) = Some r \<and> rt_state r = Stream_Running
    \<and> expected_seq (seq t) (StreamId 1) = start_sequence dl \<and> ts t = TimestampChecker_from_config dl \<and> inbox t = []
    \<and> sequence_gaps t = 0 \<and> late_packets t = 0"
  by (simp add: smoke_transport_def with_context_def assms Sim_from_yaml_def TransportDeadlineConfig_from_yaml_str_def Sim_new_def link_up_def
      create_stream_def start_stream_def set_stream_state_def expected_seq_def register_stream_def SequenceChecker_from_config_def
      SequenceChecker_new_def Let_def)

lemma smoke_ingest_ok:
  assumes "link t = Link_Running" "streams t (stream_id p) = Some r" "rt_state r = Stream_Running" "inbox t = []"
    and "seqno (sequence p) = expected_seq (seq t) (stream_id p)" "tstamp (timestamp p) = 0" "10000 \<le> tc_max_latency_ns (ts t)"
  shows "\<exists>t'. smoke_ingest t p = Inr (p, t') \<and> sequence_gaps t' = sequence_gaps t \<and> late_packets t' = late_packets t"
proof -
  let ?t = "t\<lparr>now_ns := tstamp (timestamp p) + 10000\<rparr>"
  have "can_ingest ?t p" using assms by (simp add: can_ingest_def word_le_nat_alt)
  from ingest_accept [OF this] show ?thesis using assms(4,5) by (simp add: smoke_ingest_def receive_def)
qed

lemma smoke_nic_ok:
  assumes "read_to_string env ''configs/nic_dma.yaml'' = Inr y" "parse_nic env y = Inr nic" "0 < rx_queue_depth nic"
  shows "\<exists>n n'. smoke_nic env 0 p = Inr (dma_latency_ns nic, n) \<and> Cx5Nic_rx_burst n 32 = ([p], n')"
proof -
  have "nic_quiet nic (Cx5Nic_new nic)" by (simp add: nic_quiet_def Cx5Nic_new_def)
  from nic_quiet_submit [OF this assms(3), of 0 p] obtain n1 n2 where
    "submit_rx (advance_time (Cx5Nic_new nic) 0) p = (Inr (), n1)" "nic_cfg n1 = nic"
    "Cx5Nic_rx_burst (advance_time n1 (dma_latency_ns nic)) 32 = ([p], n2)"
    by (auto simp: sat_add_commute [of 0])
  then show ?thesis
    by (simp add: smoke_nic_def with_context_def assms Cx5Nic_from_yaml_def NicDmaConfig_from_yaml_str_def Let_def)
qed

lemma smoke_deliver_ok:
  assumes "process_packet (sm_ring s) (payload p) (sm_now s) = (Inr l, r)"
  shows "\<exists>s'. smoke_deliver clock tid [p] s = Inr s' \<and> sm_now s' = sm_now s + l \<and> sm_ring s' = r
    \<and> rx_packets (transport (layered (sm_metrics s'))) = rx_packets (transport (layered (sm_metrics s))) + 1
    \<and> tx_packets (transport (layered (sm_metrics s'))) = tx_packets (transport (layered (sm_metrics s))) + 1
    \<and> kernel_latency_ns (compute (layered (sm_metrics s'))) = l"
  using assms
  by (simp add: Let_def record_symbol_def record_rx_bytes_def record_latency_sample_def latency_sample_def record_tx_bytes_def record_kernel_ns_def)

text \<open>The way of the first symbol through the transport and the NIC, which both smoke runs take.\<close>

lemma smoke_front_ok:
  fixes env timing
  defines "p \<equiv> emitted (libm_cos env) (libm_sin env) timing (StreamId 1) 0"
  assumes "read_to_string env ''configs/transport_deadline.yaml'' = Inr y" "parse_deadline env y = Inr dl" "start_sequence dl = 0"
    "10000 \<le> max_latency_ns dl"
    and "read_to_string env ''configs/nic_dma.yaml'' = Inr z" "parse_nic env z = Inr nic" "0 < rx_queue_depth nic"
  shows "\<exists>t t' n n'. smoke_transport env = Inr t \<and> smoke_ingest t p = Inr (p, t') \<and> sequence_gaps t' = 0 \<and> late_packets t' = 0
    \<and> smoke_nic env 0 p = Inr (dma_latency_ns nic, n) \<and> Cx5Nic_rx_burst n 32 = ([p], n')"
proof -
  obtain t r where t: "smoke_transport env = Inr t" "link t = Link_Running" "streams t (StreamId 1) = Some r" "rt_state r = Stream_Running"
      "expected_seq (seq t) (StreamId 1) = 0" "10000 \<le> tc_max_latency_ns (ts t)" "inbox t = []" "sequence_gaps t = 0" "late_packets t = 0"
    using smoke_transport_ok [OF assms(2,3)] assms(4,5)
    by (auto simp: TimestampChecker_from_config_def TimestampChecker_new_def)
  moreover have "tstamp (timestamp p) = 0" by (simp add: p_def tg_spec_def)
  ultimately have "\<exists>t'. smoke_ingest t p = Inr (p, t') \<and> sequence_gaps t' = 0 \<and> late_packets t' = 0"
    using smoke_ingest_ok [of t p r] by (auto simp: p_def)
  then show ?thesis using t(1) smoke_nic_ok [OF assms(6-8), of p] by blast
qed

lemma first_symbol:
  "emit_symbol c s (FpgaEmulator_new timing i) = (emitted c s timing i 0, fpga_after timing i 1)"
  "tstamp (timestamp (emitted c s timing i 0)) = 0"
  using emit_symbol_after [of c s timing i 0] by (simp_all add: fpga_after_0 tg_spec_def)

lemma ring_from_yaml_ok:
  "parse_ring env y = Inr ring \<Longrightarrow> GpuRingBuffer_from_yaml (parse_ring env) y = Inr (GpuRingBuffer_new ring)"
  by (simp add: GpuRingBuffer_from_yaml_def GpuRingConfig_from_yaml_str_def)

text \<open>
  C34: the smoke run.  With all configuration files present, a latency bound of ten microseconds or more, a
  first sequence number of zero, a NIC with a queue and a ring whose slots hold a symbol, the run succeeds:
  the one symbol is neither late nor out of sequence, it is received and transmitted once, and the final
  time is the DMA delay plus the latency of the kernel.
\<close>

theorem smoke_delivers_one_symbol:
  assumes "\<And>path. read_to_string env path = Inr (file path)"
    and "parse_ops env (file ''configs/ops/observability.yaml'') = Inr doc" "open_log env (log_events_path (ob_logging (ObservabilityConfig_of doc))) = Inr events"
    and "parse_recovery env (file (recovery_policy_path (ob_recovery (ObservabilityConfig_of doc)))) = Inr policy"
    and "parse_timing env (file ''configs/radio_timing.yaml'') = Inr timing"
    and "parse_deadline env (file ''configs/transport_deadline.yaml'') = Inr dl" "start_sequence dl = 0" "10000 \<le> max_latency_ns dl"
    and "parse_nic env (file ''configs/nic_dma.yaml'') = Inr nic" "0 < rx_queue_depth nic"
    and "parse_ring env (file ''configs/gpu_ring.yaml'') = Inr ring" "slot_count ring \<noteq> 0" "8 * samples_per_symbol timing \<le> cfg_slot_bytes ring"
  shows "\<exists>s t health exported. run_smoke env profile = Inr (s, t, health, exported) \<and> sequence_gaps t = 0 \<and> late_packets t = 0
    \<and> rx_packets (transport (layered (sm_metrics s))) = 1 \<and> tx_packets (transport (layered (sm_metrics s))) = 1
    \<and> sm_now s = dma_latency_ns nic + kernel_latency_ns (compute (layered (sm_metrics s)))"
proof -
  let ?p = "emitted (libm_cos env) (libm_sin env) timing (StreamId 1) 0"
  note p = first_symbol(1) [of "libm_cos env" "libm_sin env" timing "StreamId 1"]
    and ts0 = first_symbol(2) [of "libm_cos env" "libm_sin env" timing "StreamId 1"] and ring = ring_from_yaml_ok [OF assms(11)]
  obtain t t' n n' where t: "smoke_transport env = Inr t" and t': "smoke_ingest t ?p = Inr (?p, t')" "sequence_gaps t' = 0" "late_packets t' = 0"
      and n: "smoke_nic env 0 ?p = Inr (dma_latency_ns nic, n)" "Cx5Nic_rx_burst n 32 = ([?p], n')"
    using smoke_front_ok [OF assms(1) assms(6-8) assms(1,9,10), of timing] by blast
  obtain l g where g: "process_packet (GpuRingBuffer_new ring) (payload ?p) (dma_latency_ns nic) = (Inr l, g)"
    using ring_quiet_process [OF ring_quiet_new assms(12), of "payload ?p" "dma_latency_ns nic"] assms(13) by auto
  note loads = ObservabilityConfig_load_path_def ObservabilityConfig_from_yaml_str_def RecoveryPolicy_load_path_def
    RecoveryPolicy_from_yaml_str_def RadioTimingConfig_from_yaml_str_def
  let ?s0 = "\<lambda>ev tr. \<lparr>sm_now = dma_latency_ns nic, sm_ring = GpuRingBuffer_new ring,
    sm_metrics = set_link_up MetricsEngine_new True (f64_lit 100), sm_events = ev, sm_trace = tr\<rparr>"
  let ?exported = "\<lambda>s. unwrap_or (export_configured (create_dir_all env) (create_log_file env) (append_file env) (json_trace env) (sm_trace s)) 0"
  have "\<exists>tid ev tr thr. run_smoke env profile = and_then (smoke_deliver (wall_clock env) tid [?p] (?s0 ev tr)) (\<lambda>s.
      Inr (s\<lparr>sm_events := the (snd (snd (evaluate (wall_clock env) (HealthManager_new thr) (layered (sm_metrics s)) (Some (sm_events s)))))\<rparr>, t',
           hm_state (fst (snd (evaluate (wall_clock env) (HealthManager_new thr) (layered (sm_metrics s)) (Some (sm_events s))))), 
           ?exported s))"
    unfolding run_smoke_def with_context_def loads
    by (simp add: assms(1-5) t t'(1) n ring p ts0 split_beta Let_def del: smoke_deliver.simps emitted_simps) blast
  then obtain tid ev tr thr where run: "run_smoke env profile = and_then (smoke_deliver (wall_clock env) tid [?p] (?s0 ev tr)) (\<lambda>s.
      Inr (s\<lparr>sm_events := the (snd (snd (evaluate (wall_clock env) (HealthManager_new thr) (layered (sm_metrics s)) (Some (sm_events s)))))\<rparr>, t',
           hm_state (fst (snd (evaluate (wall_clock env) (HealthManager_new thr) (layered (sm_metrics s)) (Some (sm_events s))))), 
           ?exported s))"
    by blast
  have m0: "rx_packets (transport (layered (set_link_up MetricsEngine_new True v))) = 0"
      "tx_packets (transport (layered (set_link_up MetricsEngine_new True v))) = 0" for v
    by (simp_all add: set_link_up_def MetricsEngine_new_def LayeredMetricsSnapshot_default_def TransportLayerMetrics_default_def)
  obtain s where "smoke_deliver (wall_clock env) tid [?p] (?s0 ev tr) = Inr s" "sm_now s = dma_latency_ns nic + l"
      "rx_packets (transport (layered (sm_metrics s))) = 1" "tx_packets (transport (layered (sm_metrics s))) = 1"
      "kernel_latency_ns (compute (layered (sm_metrics s))) = l"
    using smoke_deliver_ok [of "?s0 ev tr" ?p l g "wall_clock env" tid] g m0 by auto
  then show ?thesis using run t'(2,3) by simp
qed

definition sample_ops_doc :: ObservabilityDoc where
  "sample_ops_doc = \<lparr>od_version = ''1.0.0'', od_id = ''ops'', od_metrics = None, od_logging = None, od_trace = None, od_health = None,
     od_recovery = None, od_prometheus_scrape = None\<rparr>"

definition sample_smoke_env :: bench_env where
  "sample_smoke_env = sample_bench_env\<lparr>parse_ops := (\<lambda>_. Inr sample_ops_doc),
     parse_recovery := (\<lambda>_. Inr \<lparr>rpf_version = ''1.0.0'', rpf_id = ''recovery'', rpf_actions = Map.empty\<rparr>)\<rparr>"

theorem smoke_delivers_one_symbol_witness:
  "\<exists>s t health exported. run_smoke sample_smoke_env ''profile.yaml'' = Inr (s, t, health, exported) \<and> sequence_gaps t = 0 \<and> late_packets t = 0
    \<and> rx_packets (transport (layered (sm_metrics s))) = 1 \<and> tx_packets (transport (layered (sm_metrics s))) = 1
    \<and> sm_now s = dma_latency_ns sample_nic_config + kernel_latency_ns (compute (layered (sm_metrics s)))"
  by (rule smoke_delivers_one_symbol [of _ "\<lambda>_. []" sample_ops_doc
        "\<lparr>ev_log = [], ev_path = log_events_path (ob_logging (ObservabilityConfig_of sample_ops_doc))\<rparr>" "\<lparr>rpf_version = ''1.0.0'', rpf_id = ''recovery'', rpf_actions = Map.empty\<rparr>" sample_timing
        "sample_deadline\<lparr>max_latency_ns := 50000000\<rparr>" _ sample_ring_config])
    (simp_all add: sample_smoke_env_def sample_bench_env_def sample_deadline_def sample_nic_config_def sample_ring_config_def sample_timing_def
      EventLogger_create_def open_append_def split: option.split)

end
