(* ===== verification/Cli_Cuda.thy ===== *)
theory Cli_Cuda
  imports Cli Cuda
begin

text \<open>
  The commands \<^verbatim>\<open>gpu-info\<close> and \<^verbatim>\<open>smoke-cuda\<close>, which need the build with the feature \<^verbatim>\<open>cuda\<close>: the smoke run with
  the ring on the host and the kernel on the device.  The lines printed for the packets are kept as the size of the
  processed payload and the time of the kernel.
\<close>

section \<open>Definitions\<close>

definition run_gpu_info :: "bench_env \<Rightarrow> CliError + string list" where
  "run_gpu_info env =
     (case cuda_build env of
        None \<Rightarrow> Inl (CliBail
          ''CUDA support not compiled in. Rebuild with: cargo run -p aether-radio-cli --features cuda -- gpu-info'')
      | Some (d, _) \<Rightarrow> with_context ''probe CUDA devices'' (probe_devices d))"

record SmokeCuda =
  sc_now :: u64
  sc_ring :: GpuRingBuffer
  sc_gpu :: CudaGpu
  sc_metrics :: MetricsEngine
  sc_lines :: "(usize \<times> u64) list"

text \<open>A panic of the driver crate is not an error that gets a context.\<close>

definition cuda_context :: "string \<Rightarrow> CudaGpuError \<Rightarrow> CliError" where
  "cuda_context msg e = (if e = CudaPanic then CliPanic else CliContext msg)"

text \<open>The second use of the device, through the trait: a buffer, the kernel on it, and a wait.\<close>

definition cuda_exercise :: "cuda_driver \<Rightarrow> CudaGpu \<Rightarrow> usize \<Rightarrow> CliError + CudaGpu" where
  "cuda_exercise d g n =
     (case cuda_allocate_buffer d g n of
        (Inl e, _) \<Rightarrow> Inl (CliHost (HostGpu e))
      | (Inr buf, g) \<Rightarrow>
          (case cuda_launch_kernel d g buf of
             (Inl e, _) \<Rightarrow> Inl (CliHost (HostGpu e))
           | (Inr _, g) \<Rightarrow> and_then (map_err (\<lambda>e. CliHost (HostGpu e)) (cuda_sync d g)) (\<lambda>_. Inr g)))"

definition smoke_cuda_packet :: "cuda_driver \<Rightarrow> Packet \<Rightarrow> SmokeCuda \<Rightarrow> CliError + SmokeCuda" where
  "smoke_cuda_packet d pkt s =
     (let m = record_rx (sc_metrics s) in
      case begin_receive (sc_ring s) (sc_now s) of
        (Inl e, _) \<Rightarrow> Inl (CliHost (HostGpu e))
      | (Inr i, r) \<Rightarrow>
          (case complete_receive r i (payload pkt) of
             (Inl e, _) \<Rightarrow> Inl (CliHost (HostGpu e))
           | (Inr _, r) \<Rightarrow>
               (case begin_process r (sc_now s) of
                  (Inl e, _) \<Rightarrow> Inl (CliHost (HostGpu e))
                | (Inr (i, _), r) \<Rightarrow>
                    (case process_bytes d (sc_gpu s) (payload pkt) of
                       (Inl e, _) \<Rightarrow> Inl (cuda_context ''cuda process_bytes'' e)
                     | (Inr processed, g) \<Rightarrow>
                         let now = sc_now s + kernel_ns_of g in
                         (case complete_process r i now of
                            (Inl e, _) \<Rightarrow> Inl (CliHost (HostGpu e))
                          | (Inr _, r) \<Rightarrow>
                              (case release r i of
                                 (Inl e, _) \<Rightarrow> Inl (CliHost (HostGpu e))
                               | (Inr _, r) \<Rightarrow>
                                   and_then (cuda_exercise d g (length processed)) (\<lambda>g'.
                                     Inr \<lparr>sc_now = now, sc_ring = r, sc_gpu = g', sc_metrics = record_tx m,
                                          sc_lines = sc_lines s @ [(length processed, kernel_ns_of g)]\<rparr>)))))))"

fun smoke_cuda_deliver :: "cuda_driver \<Rightarrow> Packet list \<Rightarrow> SmokeCuda \<Rightarrow> CliError + SmokeCuda" where
  "smoke_cuda_deliver d [] s = Inr s"
| "smoke_cuda_deliver d (pkt # ps) s = and_then (smoke_cuda_packet d pkt s) (smoke_cuda_deliver d ps)"

definition run_smoke_cuda_cuda ::
    "cuda_driver \<Rightarrow> (string \<Rightarrow> string + CudaBackendConfig) \<Rightarrow> bench_env \<Rightarrow> string \<Rightarrow> string
     \<Rightarrow> CliError + (SmokeCuda \<times> SimTransportEngine)" where
  "run_smoke_cuda_cuda d parse_cuda env profile cuda_config =
     and_then (with_context (''read profile '' @ profile) (read_to_string env profile)) (\<lambda>_.
     and_then (with_context (''read '' @ cuda_config) (read_to_string env cuda_config)) (\<lambda>cuda_yaml.
     and_then (map_err (cuda_context ''init CudaGpu'') (CudaGpu_from_yaml d parse_cuda cuda_yaml)) (\<lambda>gpu.
     and_then (with_context ''read configs/radio_timing.yaml'' (read_to_string env ''configs/radio_timing.yaml'')) (\<lambda>yaml.
     and_then (map_err (\<lambda>e. CliHost (HostFpga e)) (RadioTimingConfig_from_yaml_str (parse_timing env) yaml)) (\<lambda>timing.
     and_then (smoke_transport env) (\<lambda>t.
     let (packet, fpga) = emit_symbol (libm_cos env) (libm_sin env) (FpgaEmulator_new timing (StreamId 1));
         now = tstamp (timestamp packet)
     in and_then (smoke_ingest t packet) (\<lambda>(packet, t).
     and_then (smoke_nic env now packet) (\<lambda>(now, nic).
     and_then (with_context ''read configs/gpu_ring.yaml'' (read_to_string env ''configs/gpu_ring.yaml'')) (\<lambda>yaml.
     and_then (map_err (\<lambda>e. CliHost (HostGpu e)) (GpuRingBuffer_from_yaml (parse_ring env) yaml)) (\<lambda>ring.
     and_then (smoke_cuda_deliver d (fst (Cx5Nic_rx_burst nic 32))
                 \<lparr>sc_now = now, sc_ring = ring, sc_gpu = gpu, sc_metrics = MetricsEngine_new, sc_lines = []\<rparr>) (\<lambda>s.
     Inr (s, t))))))))))))"

definition run_smoke_cuda :: "bench_env \<Rightarrow> string \<Rightarrow> string \<Rightarrow> CliError + (SmokeCuda \<times> SimTransportEngine)" where
  "run_smoke_cuda env profile cuda_config =
     (case cuda_build env of
        None \<Rightarrow> Inl (CliBail
          ''CUDA support not compiled in. Rebuild with: cargo run -p aether-radio-cli --features cuda -- smoke-cuda'')
      | Some (d, parse_cuda) \<Rightarrow> run_smoke_cuda_cuda d parse_cuda env profile cuda_config)"

section \<open>The smoke run on the device\<close>

lemma cuda_exercise_ok:
  assumes "driver_ok d" "cuda_inv g" "n < 2 ^ 32"
  shows "\<exists>g'. cuda_exercise d g n = Inr g' \<and> length (device_bufs g') = length (device_bufs g) + 1"
proof -
  let ?ws = "replicate (max (div_ceil n 4) 1) (0 :: u32)"
  have "length ?ws < 2 ^ 31" using assms(3) by (auto simp: div_ceil_def)
  then show ?thesis
    using launch_last [OF assms(1,2), of ?ws] assms(1)
    by (auto simp: cuda_exercise_def cuda_allocate_buffer_def driver_ok_def cuda_sync_def Let_def max_def)
qed

lemma metrics_one:
  "rx_packets (transport (layered (record_tx (record_rx MetricsEngine_new)))) = 1"
  "tx_packets (transport (layered (record_tx (record_rx MetricsEngine_new)))) = 1"
  by (simp_all add: record_tx_def record_rx_def MetricsEngine_new_def LayeredMetricsSnapshot_default_def TransportLayerMetrics_default_def)

lemma smoke_cuda_packet_ok:
  assumes "driver_ok d" "cuda_inv (sc_gpu s)" "length (device_bufs (sc_gpu s)) + 1 < 2 ^ 64"
    and "ring_quiet cfg (sc_ring s)" "slot_count cfg \<noteq> 0"
    and "4 \<le> length (payload p)" "length (payload p) < 2 ^ 32" "length (payload p) \<le> cfg_slot_bytes cfg"
  shows "\<exists>s' ns. smoke_cuda_packet d p s = Inr s' \<and> sc_now s' = sc_now s + ns \<and> sc_lines s' = sc_lines s @ [(length (payload p), ns)]
    \<and> sc_metrics s' = record_tx (record_rx (sc_metrics s)) \<and> ring_quiet cfg (sc_ring s')
    \<and> length (device_bufs (sc_gpu s')) = length (device_bufs (sc_gpu s)) + 2"
proof -
  let ?r = "sc_ring s" and ?data = "payload p"
  obtain i where i: "find_state ?r Free = Some i"
    using ring_quiet_counts(1) [OF assms(4)] assms(5) find_state_None [of ?r Free] by auto
  have fit: "length ?data \<le> slot_bytes ?r" using assms(4,8) by (simp add: ring_quiet_def)
  note steps = opened_slot [OF i ring_quiet_counts(2) [OF assms(4)] fit]
  obtain out g ns where gpu: "process_bytes d (sc_gpu s) ?data = (Inr out, g)" "length out = length ?data" "last_kernel_ns g = Some ns"
      "cuda_inv g" "length (device_bufs g) = length (device_bufs (sc_gpu s)) + 1"
    using process_bytes_eq [OF assms(1,2,6)] assms(2,3,7) process_bytes_length [of _ ?data]
    by (fastforce simp: cuda_inv_def)
  obtain g' where g': "cuda_exercise d g (length ?data) = Inr g'" "length (device_bufs g') = length (device_bufs g) + 1"
    using cuda_exercise_ok [OF assms(1) gpu(4) assms(7)] by blast
  let ?free = "(slots ?r ! i)\<lparr>arrive_ns := sc_now s, done_ns := sc_now s + ns, slot_payload := [], slot_state := Free\<rparr>"
  have "smoke_cuda_packet d p s = Inr \<lparr>sc_now = sc_now s + ns, sc_ring = set_slot ?r i ?free, sc_gpu = g',
      sc_metrics = record_tx (record_rx (sc_metrics s)), sc_lines = sc_lines s @ [(length ?data, ns)]\<rparr>"
    using find_state_SomeD(1) [OF i] gpu(1-3) g'(1)
    by (simp add: smoke_cuda_packet_def steps kernel_ns_of_def complete_process_def release_def transition_def Let_def)
  moreover have "ring_quiet cfg (set_slot ?r i ?free)"
    using assms(4) find_state_SomeD(1,2) [OF i] by (auto simp: ring_quiet_def map_update list_update_same_conv)
  ultimately show ?thesis using gpu(5) g'(2) by simp
qed

text \<open>
  The smoke run on the device.  With all configuration files present, a device of the expected name, a
  driver that reports no error, a latency bound of ten microseconds or more, a first sequence number of
  zero, a NIC with a queue, and symbols that fit a slot of the ring, the run succeeds: the one symbol is
  received and transmitted once, neither late nor out of sequence, its payload comes back from the device
  with its size, the final time is the DMA delay plus the time the kernel took, and every slot of the ring is
  free again.  Two device buffers are left allocated.
\<close>

theorem smoke_cuda_delivers_one_symbol:
  assumes "\<And>path. read_to_string env path = Inr (file path)"
    and "cuda_build env = Some (d, parse_cuda)" "parse_cuda (file cuda_config) = Inr cfg" "CudaGpu_new d cfg = Inr gpu" "driver_ok d"
    and "parse_timing env (file ''configs/radio_timing.yaml'') = Inr timing" "0 < samples_per_symbol timing" "8 * samples_per_symbol timing < 2 ^ 32"
    and "parse_deadline env (file ''configs/transport_deadline.yaml'') = Inr dl" "start_sequence dl = 0" "10000 \<le> max_latency_ns dl"
    and "parse_nic env (file ''configs/nic_dma.yaml'') = Inr nic" "0 < rx_queue_depth nic"
    and "parse_ring env (file ''configs/gpu_ring.yaml'') = Inr ring" "slot_count ring \<noteq> 0" "8 * samples_per_symbol timing \<le> cfg_slot_bytes ring"
  shows "\<exists>s t ns. run_smoke_cuda env profile cuda_config = Inr (s, t)
    \<and> sequence_gaps t = 0 \<and> late_packets t = 0
    \<and> rx_packets (transport (layered (sc_metrics s))) = 1 \<and> tx_packets (transport (layered (sc_metrics s))) = 1
    \<and> sc_lines s = [(8 * samples_per_symbol timing, ns)] \<and> sc_now s = dma_latency_ns nic + ns
    \<and> occupied (sc_ring s) = 0 \<and> length (device_bufs (sc_gpu s)) = 2"
proof -
  let ?p = "emitted (libm_cos env) (libm_sin env) timing (StreamId 1) 0"
  let ?s0 = "\<lparr>sc_now = dma_latency_ns nic, sc_ring = GpuRingBuffer_new ring, sc_gpu = gpu, sc_metrics = MetricsEngine_new, sc_lines = []\<rparr>"
  note first = first_symbol [of "libm_cos env" "libm_sin env" timing "StreamId 1"] and ring = ring_from_yaml_ok [OF assms(14)]
  obtain t t' n n' where t: "smoke_transport env = Inr t" and t': "smoke_ingest t ?p = Inr (?p, t')" "sequence_gaps t' = 0" "late_packets t' = 0"
      and n: "smoke_nic env 0 ?p = Inr (dma_latency_ns nic, n)" "Cx5Nic_rx_burst n 32 = ([?p], n')"
    using smoke_front_ok [OF assms(1) assms(9-11) assms(1,12,13), of timing] by blast
  have len: "length (payload ?p) = 8 * samples_per_symbol timing" by simp
  obtain s ns where s: "smoke_cuda_packet d ?p ?s0 = Inr s" "sc_now s = dma_latency_ns nic + ns"
      "sc_lines s = [(8 * samples_per_symbol timing, ns)]" "sc_metrics s = record_tx (record_rx MetricsEngine_new)"
      "ring_quiet ring (sc_ring s)" "length (device_bufs (sc_gpu s)) = 2"
    using smoke_cuda_packet_ok [OF assms(5), of ?s0 ring ?p] CudaGpu_new_fresh [OF assms(4)] ring_quiet_new [of ring] assms(7,8,15,16) len
    by fastforce
  have "run_smoke_cuda env profile cuda_config = Inr (s, t')"
    unfolding run_smoke_cuda_def run_smoke_cuda_cuda_def with_context_def
    by (simp add: assms(1-4,6) CudaGpu_from_yaml_def CudaBackendConfig_from_yaml_str_def RadioTimingConfig_from_yaml_str_def
        first t t'(1) n ring s(1) split_beta Let_def del: emitted_simps)
  moreover have "occupied (sc_ring s) = 0" using s(5) ring_quiet_occupied by blast
  ultimately show ?thesis using t'(2,3) s(2-4,6) by (simp add: metrics_one)
qed

definition sample_cuda_env :: bench_env where
  "sample_cuda_env = sample_smoke_env\<lparr>cuda_build := Some (sample_driver, \<lambda>_. Inr default_rtx4050)\<rparr>"

theorem smoke_cuda_delivers_one_symbol_witness:
  "\<exists>s t ns. run_smoke_cuda sample_cuda_env ''profile.yaml'' ''gpu_cuda.yaml'' = Inr (s, t)
    \<and> sequence_gaps t = 0 \<and> late_packets t = 0
    \<and> rx_packets (transport (layered (sc_metrics s))) = 1 \<and> tx_packets (transport (layered (sc_metrics s))) = 1
    \<and> sc_lines s = [(8 * samples_per_symbol sample_timing, ns)] \<and> sc_now s = dma_latency_ns sample_nic_config + ns
    \<and> occupied (sc_ring s) = 0 \<and> length (device_bufs (sc_gpu s)) = 2"
  by (rule smoke_cuda_delivers_one_symbol [of _ "\<lambda>_. []" sample_driver "\<lambda>_. Inr default_rtx4050" _ default_rtx4050 sample_gpu sample_timing
        "sample_deadline\<lparr>max_latency_ns := 50000000\<rparr>" _ sample_ring_config])
    (simp_all add: sample_cuda_env_def sample_smoke_env_def sample_bench_env_def sample_deadline_def sample_nic_config_def sample_ring_config_def sample_timing_def
      driver_ok_def sample_driver_def CudaGpu_new_def default_rtx4050_def sample_gpu_def contains_def starts_with_def to_ascii_lowercase_def)

end
