(* ===== verification/Cli_Main.thy ===== *)
theory Cli_Main
  imports Cli Cli_Cuda
begin

text \<open>
  The commands of \<^verbatim>\<open>cli/src/main.rs\<close> and their dispatch.  The arguments are those of the parsed command line.
\<close>

section \<open>The commands\<close>

datatype Commands =
    Info
  | ValidateConfig string
  | Smoke_cmd string
  | Bench string
  | Accept string
  | OpsStatus string
  | Soak string
  | PromDump string string string
  | OpsReport_cmd string string string
  | PromServe string bool
  | FaultDrill string
  | GpuInfo
  | SmokeCuda_cmd string string
  | FpgaEmit emit_args u64
  | HostRecv host_args u64
  | ShmPrepare string

record cli_env =
  ce_host :: host_env
  ce_rounds :: "u32 \<Rightarrow> bench_env"
  ce_elapsed :: u64
  ce_connections :: "nat \<Rightarrow> bench_env"
  ce_bind :: "string \<Rightarrow> string + connection list"
  ce_send_to :: "nat \<Rightarrow> u8 list \<Rightarrow> string \<Rightarrow> string + usize"
  ce_other :: "nat \<Rightarrow> nat \<Rightarrow> shm_map \<Rightarrow> shm_map"
  ce_idle :: "nat \<Rightarrow> shm_map \<Rightarrow> shm_map"
  parse_acceptance :: "string \<Rightarrow> string + AcceptanceDoc"
  parse_soak :: "string \<Rightarrow> string + SoakDoc"
  parse_drill :: "string \<Rightarrow> string + FaultDrillProfile"
  parse_scrape :: "string \<Rightarrow> string + PromScrapeDoc"
  json_bench :: "BenchReport \<Rightarrow> string + string"
  json_acceptance :: "AcceptanceReport \<Rightarrow> string + string"
  json_soak :: "SoakReport \<Rightarrow> string + string"
  json_drill :: "FaultDrillReport \<Rightarrow> string + string"
  json_ops :: "OpsReport \<Rightarrow> string + string"

definition done_with :: "'e + 'a \<Rightarrow> 'e + unit" where
  "done_with r = map_sum id (\<lambda>_. ()) r"

text \<open>The dispatch of \<^verbatim>\<open>main\<close>; the result is the exit status, with its error, of a command that returns.\<close>

fun cli_main :: "cli_env \<Rightarrow> Commands \<Rightarrow> (CliError + unit) option" where
  "cli_main env Info = Some (Inr ())"
| "cli_main env (ValidateConfig path) = Some (done_with (run_validate_config (he_bench (ce_host env)) path))"
| "cli_main env (Smoke_cmd profile) = Some (done_with (run_smoke (he_bench (ce_host env)) profile))"
| "cli_main env (Bench profile) = Some (done_with (run_bench (he_bench (ce_host env)) (json_bench env) profile))"
| "cli_main env (Accept profile) = Some (run_accept (he_bench (ce_host env)) (parse_acceptance env) (json_acceptance env) profile)"
| "cli_main env (OpsStatus path) = Some (done_with (run_ops_status (he_bench (ce_host env)) path))"
| "cli_main env (Soak profile) =
     Some (run_soak (he_bench (ce_host env)) (ce_rounds env) (ce_elapsed env) (parse_soak env) (json_soak env) profile)"
| "cli_main env (PromDump out profile job) = Some (run_prom_dump (he_bench (ce_host env)) out profile job)"
| "cli_main env (OpsReport_cmd out profile ops) = Some (done_with (run_ops_report (he_bench (ce_host env)) (json_ops env) out profile ops))"
| "cli_main env (PromServe config once) =
     snd (run_prom_serve (ce_connections env) (parse_scrape env) (ce_bind env) config once)"
| "cli_main env (FaultDrill profile) = Some (run_fault_drill (he_bench (ce_host env)) (parse_drill env) (json_drill env) profile)"
| "cli_main env GpuInfo = Some (done_with (run_gpu_info (he_bench (ce_host env))))"
| "cli_main env (SmokeCuda_cmd profile cuda_config) = Some (done_with (run_smoke_cuda (he_bench (ce_host env)) profile cuda_config))"
| "cli_main env (FpgaEmit a interval_us) =
     Some (done_with (map_err CliHost (run_fpga_emit (ce_host env) (ce_send_to env) (ce_other env) (ce_idle env) a)))"
| "cli_main env (HostRecv a warmup_ms) = map_option (\<lambda>r. done_with (map_err CliHost r)) (run_host_recv (ce_host env) a)"
| "cli_main env (ShmPrepare path) = Some (done_with (map_err CliHost (run_shm_prepare (ce_host env) path)))"

section \<open>The bench command\<close>

lemma write_report_ok:
  assumes "\<And>d. create_dir_all env d = Inr ()" "\<And>f s. write_file env f s = Inr ()"
  shows "write_report env json base p report = Inr (path_join base (bp_report_path p))"
  using assms by (simp add: write_report_def Let_def split: option.split)

text \<open>
  C13: the command \<^verbatim>\<open>bench\<close>, from its arguments to its exit.  If the profile and the files it names can be loaded,
  the build can serve the GPU back end the profile asks for (a device, if one is used, opens and reports no
  error), directories and files can be written, the NIC has a receive descriptor and the GPU takes a symbol,
  then the process ends with success, whatever faults, delays and deadlines are configured; and for the run of the
  bench it makes, the delivered and late packets of the report and the dropped packets of the metrics add up to one packet
  per symbol and stream.
\<close>

theorem bench_command_reports:
  assumes "he_bench (ce_host env) = e" "BenchProfile_load_path e path = Inr p" "load_config e ''.'' p = Inr c" "open_cuda e ''.'' p = Inr gpu"
    and "to_ascii_lowercase (gpu_backend p) \<noteq> ''cuda'' \<or> cuda_build e \<noteq> None"
    and "gpu = None \<or> (\<exists>d g. gpu = Some (d, g) \<and> driver_ok d)"
    and "\<And>d. create_dir_all e d = Inr ()" "\<And>f s. write_file e f s = Inr ()" "\<And>f. create_log_file e f = Inr ()"
    and "0 < rx_queue_depth (pc_nic c)" "gpu_fits (c\<lparr>pc_gpu := gpu\<rparr>) (8 * samples_per_symbol (pc_timing c))"
  shows "cli_main env (Bench path) = Some (Inr ())
    \<and> (\<exists>report m. PipelineBench_run e ''.'' p = Inr (report, m)
        \<and> br_packets report + br_late_packets report + drop_count (transport (layered m)) = symbol_count p * ucast (max (bp_streams p) 1))"
proof -
  let ?log = "path_join ''.'' (bp_events_path p)"
  have log: "open_log e ?log = Inr \<lparr>ev_log = [], ev_path = ?log\<rparr>"
    using assms(7,9) by (simp add: EventLogger_create_def open_append_def split: option.split)
  obtain report m where run: "PipelineBench_run e ''.'' p = Inr (report, m)"
      "br_packets report + br_late_packets report + drop_count (transport (layered m)) = symbol_count p * ucast (max (bp_streams p) 1)"
    using bench_conserves [OF assms(3-6) log assms(10,11)] by blast
  moreover have "cli_main env (Bench path) = Some (Inr ())"
    using run(1) assms(1,2) write_report_ok [OF assms(7,8)] by (simp add: run_bench_def with_context_def done_with_def)
  ultimately show ?thesis by blast
qed

definition sample_cli_env :: cli_env where
  "sample_cli_env = \<lparr>ce_host = sample_host_env [], ce_rounds = (\<lambda>_. sample_bench_env), ce_elapsed = 0, ce_connections = (\<lambda>_. sample_bench_env),
     ce_bind = (\<lambda>_. Inl []), ce_send_to = (\<lambda>_ _ _. Inl []), ce_other = (\<lambda>_ _ m. m), ce_idle = (\<lambda>_ m. m),
     parse_acceptance = (\<lambda>_. Inl []), parse_soak = (\<lambda>_. Inl []), parse_drill = (\<lambda>_. Inl []), parse_scrape = (\<lambda>_. Inl []),
     json_bench = (\<lambda>_. Inr ''{}''), json_acceptance = (\<lambda>_. Inl []), json_soak = (\<lambda>_. Inl []), json_drill = (\<lambda>_. Inl []), json_ops = (\<lambda>_. Inl [])\<rparr>"

lemma sample_bench_loads:
  "\<exists>c. load_config sample_bench_env ''.'' sample_profile = Inr c \<and> pc_nic c = sample_nic_config \<and> pc_ring c = sample_ring_config
     \<and> pc_timing c = sample_timing"
  by (simp add: load_config_def load_yaml_def read_rel_def sample_bench_env_def RadioTimingConfig_from_yaml_str_def EthernetModelConfig_from_yaml_str_def
      TransportDeadlineConfig_from_yaml_str_def NicDmaConfig_from_yaml_str_def GpuRingConfig_from_yaml_str_def FaultInjectionConfig_from_yaml_str_def Let_def)

theorem bench_command_reports_witness:
  "cli_main sample_cli_env (Bench ''bench.yaml'') = Some (Inr ())
    \<and> (\<exists>report m. PipelineBench_run sample_bench_env ''.'' sample_profile = Inr (report, m)
        \<and> br_packets report + br_late_packets report + drop_count (transport (layered m))
            = symbol_count sample_profile * ucast (max (bp_streams sample_profile) 1))"
proof -
  obtain c where c: "load_config sample_bench_env ''.'' sample_profile = Inr c" "pc_nic c = sample_nic_config" "pc_ring c = sample_ring_config"
      "pc_timing c = sample_timing" using sample_bench_loads by blast
  have backend: "to_ascii_lowercase (gpu_backend sample_profile) \<noteq> ''cuda''" using sample_backend by (simp add: sample_profile_def)
  then have gpu: "open_cuda sample_bench_env ''.'' sample_profile = Inr None" by (simp add: open_cuda_def)
  show ?thesis
    by (rule bench_command_reports [OF _ _ c(1) gpu])
      (use backend in \<open>simp_all add: sample_profile_of sample_cli_env_def sample_host_time BenchProfile_load_path_def BenchProfile_from_yaml_str_def sample_bench_env_def
        gpu_fits_def c(2-) sample_nic_config_def sample_ring_config_def sample_timing_def\<close>)
qed

end
