(* ===== verification/Crate_Tests.thy ===== *)
theory Crate_Tests
  imports Protocol Transport Ethernet Fault_Injection Cx5 Fpga Memory Gpu_Ring Shm_Ring Metrics Ops Net_IO Cuda Pipeline Link_Delivery Dpdk_Adapter
begin

text \<open>
  The unit tests of the crates, run on the model.  Each test is a definition that computes \<open>True\<close> when every
  \<^verbatim>\<open>unwrap\<close> finds a value and every assertion holds; a lemma shows that it does.  The tests state what the
  authors expect of the code on concrete inputs, so they check the definitions the theorems are about.  A
  configuration that a test parses from YAML is the record its text denotes.  The tests that parse a file or print
  JSON, the one that measures the power of the generated samples and the runs of the whole bench are left out.
\<close>

section \<open>Running a test\<close>

definition unwrap_in :: "('e, 'a, 's) outcome \<Rightarrow> ('a \<Rightarrow> 's \<Rightarrow> bool) \<Rightarrow> bool" where
  "unwrap_in res k = (case res of (Inl _, _) \<Rightarrow> False | (Inr x, s) \<Rightarrow> k x s)"

definition unwrap_err_in :: "('e, 'a, 's) outcome \<Rightarrow> ('e \<Rightarrow> 's \<Rightarrow> bool) \<Rightarrow> bool" where
  "unwrap_err_in res k = (case res of (Inl e, s) \<Rightarrow> k e s | (Inr _, _) \<Rightarrow> False)"

definition unwrap_then :: "'e + 'a \<Rightarrow> ('a \<Rightarrow> bool) \<Rightarrow> bool" where
  "unwrap_then res k = (case res of Inl _ \<Rightarrow> False | Inr x \<Rightarrow> k x)"

lemma unwrap_simps [simp]:
  "unwrap_in (Inr x, s) k = k x s" "unwrap_in (Inl e, s) k = False"
  "unwrap_err_in (Inl e, s) k' = k' e s" "unwrap_err_in (Inr x, s) k' = False"
  "unwrap_then (Inr x) j = j x" "unwrap_then (Inl e) j = False"
  by (simp_all add: unwrap_in_def unwrap_err_in_def unwrap_then_def)

section \<open>aether-types and aether-protocol\<close>

definition packet_holds_payload :: bool where
  "packet_holds_payload =
     (let pkt = Packet_new (StreamId 1) (Sequence 42) (Timestamp 100) [1, 2, 3]
      in length (payload pkt) = 3 \<and> sequence pkt = Sequence 42)"

lemma test_packet_holds_payload: packet_holds_payload
  by code_simp

definition encode_decode_roundtrip :: bool where
  "encode_decode_roundtrip =
     (let header = AetherHeader_new (StreamId 7) (Timestamp 123456) (Sequence 99) 1500
      in unwrap_then (decode (encode header)) (\<lambda>decoded. header = decoded))"

lemma test_encode_decode_roundtrip: encode_decode_roundtrip
proof -
  let ?h = "AetherHeader_new (StreamId 7) (Timestamp 123456) (Sequence 99) 1500"
  have "decode (encode ?h) = Inr ?h"
    unfolding decode_Inr_iff using header_of_bytes_encode [of ?h "[]"] by (simp add: AetherHeader_new_def)
  then show ?thesis by (simp add: encode_decode_roundtrip_def Let_def)
qed

definition reject_bad_magic :: bool where
  "reject_bad_magic =
     (let bytes = (encode (AetherHeader_new (StreamId 1) (Timestamp 0) (Sequence 0) 0))[0 := 0]
      in case decode bytes of Inl (BadMagic _) \<Rightarrow> True | _ \<Rightarrow> False)"

lemma test_reject_bad_magic: reject_bad_magic
proof -
  let ?b = "(encode (AetherHeader_new (StreamId 1) (Timestamp 0) (Sequence 0) 0))[0 := 0]"
  have "u32_to_le_bytes (magic (header_of_bytes ?b)) = subslice ?b 0 4"
    by (simp add: header_of_bytes_def u32_codec.enc_dec)
  then have "u32_to_le_bytes (magic (header_of_bytes ?b)) ! 0 = 0" by (simp add: subslice_def)
  moreover have four: "4 = Suc 3" by simp
  have "u32_to_le_bytes w ! 0 = word_of_nat (unat w)" for w unfolding u32_to_le_bytes_def four le_bytes.simps(2) by simp
  then have "u32_to_le_bytes AETHER_MAGIC ! 0 \<noteq> 0" by (simp add: AETHER_MAGIC_def)
  ultimately have "magic (header_of_bytes ?b) \<noteq> AETHER_MAGIC" by auto
  then show ?thesis by (simp add: reject_bad_magic_def decode_def validate_def Let_def)
qed

definition reject_truncated :: bool where
  "reject_truncated = (case decode (replicate 8 0) of Inl (Truncated _ _) \<Rightarrow> True | _ \<Rightarrow> False)"

lemma test_reject_truncated: reject_truncated
  by code_simp

definition frame_roundtrip_test :: bool where
  "frame_roundtrip_test =
     (let pkt = Packet_new (StreamId 3) (Sequence 9) (Timestamp 42) [1, 2, 3, 4]
      in unwrap_then (decode_frame (encode_frame pkt)) (\<lambda>got. pkt = got))"

lemma test_frame_roundtrip: frame_roundtrip_test
  by (simp add: frame_roundtrip_test_def decode_frame_encode_frame Let_def)

section \<open>aether-transport\<close>

definition sequence_accepts_in_order :: bool where
  "sequence_accepts_in_order =
     (let i = StreamId 1; chk = register_stream (SequenceChecker_new 0 False) i;
          p0 = Packet_new i (Sequence 0) (Timestamp 0) []; p1 = Packet_new i (Sequence 1) (Timestamp 1) []
      in unwrap_in (seq_check chk p0) (\<lambda>_ chk. unwrap_in (seq_check chk p1) (\<lambda>_ _. True)))"

lemma test_sequence_accepts_in_order: sequence_accepts_in_order
  by code_simp

definition sequence_detects_gap :: bool where
  "sequence_detects_gap =
     (let i = StreamId 1; chk = register_stream (SequenceChecker_new 0 False) i;
          p0 = Packet_new i (Sequence 0) (Timestamp 0) []; p2 = Packet_new i (Sequence 2) (Timestamp 2) []
      in unwrap_in (seq_check chk p0) (\<lambda>_ chk. unwrap_err_in (seq_check chk p2) (\<lambda>e _. e = SequenceGap 1 2)))"

lemma test_sequence_detects_gap: sequence_detects_gap
  by code_simp

definition timestamp_detects_late :: bool where
  "timestamp_detects_late =
     (let chk = TimestampChecker_new 1000; pkt = Packet_new (StreamId 1) (Sequence 0) (Timestamp 0) []
      in (case ts_check chk pkt 5000 of Inl (LatePacket _ _) \<Rightarrow> True | _ \<Rightarrow> False)
         \<and> unwrap_then (ts_check chk pkt 500) (\<lambda>_. True))"

lemma test_timestamp_detects_late: timestamp_detects_late
  by code_simp

definition mock_stream_lifecycle :: bool where
  "mock_stream_lifecycle =
     (let i = StreamId 1 in
      unwrap_in (Mock_link_up Mock_new) (\<lambda>_ eng.
      unwrap_in (Mock_create_stream eng \<lparr>cfg_stream_id = i, carrier = 0, antenna = 0, qos = 0, deadline_ns = 10000\<rparr>) (\<lambda>_ eng.
      unwrap_in (Mock_send eng (Packet_new i (Sequence 0) (Timestamp 1) [9])) (\<lambda>_ eng.
        length (mock_outbox eng) = 1 \<and> unwrap_in (Mock_destroy_stream eng i) (\<lambda>_ _. True)))))"

lemma test_mock_stream_lifecycle: mock_stream_lifecycle
  by code_simp

definition test_engine :: SimTransportEngine where
  "test_engine = Sim_new \<lparr>tdc_version = ''1.0.0'', tdc_id = ''transport-deadline-policy'', max_latency_ns = 10000,
     allow_reorder = False, start_sequence = 0\<rparr>"

definition ingest_in_order_and_receive :: bool where
  "ingest_in_order_and_receive =
     (let i = StreamId 1 in
      unwrap_in (link_up test_engine) (\<lambda>_ eng.
      unwrap_in (create_stream eng \<lparr>cfg_stream_id = i, carrier = 0, antenna = 0, qos = 0, deadline_ns = 10000\<rparr>) (\<lambda>_ eng.
      unwrap_in (start_stream eng i) (\<lambda>_ eng.
      unwrap_in (ingest (eng\<lparr>now_ns := 100\<rparr>) (Packet_new i (Sequence 0) (Timestamp 50) [1])) (\<lambda>_ eng.
      unwrap_in (receive eng) (\<lambda>got eng. case got of None \<Rightarrow> False | Some p \<Rightarrow> seqno (sequence p) = 0))))))"

lemma test_ingest_in_order_and_receive: ingest_in_order_and_receive
  by code_simp

definition recover_after_gap :: bool where
  "recover_after_gap =
     (let i = StreamId 2 in
      unwrap_in (link_up test_engine) (\<lambda>_ eng.
      unwrap_in (create_stream eng \<lparr>cfg_stream_id = i, carrier = 1, antenna = 1, qos = 0, deadline_ns = 10000\<rparr>) (\<lambda>_ eng.
      unwrap_in (start_stream eng i) (\<lambda>_ eng.
      unwrap_in (ingest (eng\<lparr>now_ns := 1000\<rparr>) (Packet_new i (Sequence 0) (Timestamp 0) [])) (\<lambda>_ eng.
      unwrap_err_in (ingest eng (Packet_new i (Sequence 2) (Timestamp 10) [])) (\<lambda>err eng.
        (case err of SequenceGap _ _ \<Rightarrow> True | _ \<Rightarrow> False) \<and> sequence_gaps eng = 1
        \<and> unwrap_in (ingest (recover_sequence eng i 2) (Packet_new i (Sequence 2) (Timestamp 20) [9])) (\<lambda>_ eng.
          unwrap_in (receive eng) (\<lambda>first eng. first \<noteq> None
            \<and> unwrap_in (receive eng) (\<lambda>got _. map_option payload got = Some [9])))))))))"

lemma test_recover_after_gap: recover_after_gap
  by code_simp

section \<open>cx5-emulator and dpdk-adapter\<close>

definition test_nic_cfg :: NicDmaConfig where
  "test_nic_cfg = \<lparr>nic_version = ''1.0.0'', nic_id = ''cx5-dma-model'', nic_dma_latency_us = f64_lit 2,
     rx_queue_depth = 8, tx_queue_depth = 8, completion_queue_depth = 8\<rparr>"

definition test_dpdk_mock :: DpdkBackendDoc where
  "test_dpdk_mock = \<lparr>dd_version = ''1.0.0'', dd_id = ''dpdk-mock'', dd_backend = Some ''mock'', dd_enabled = Some True,
     dd_pci_address = None, dd_rx_queues = Some 1, dd_tx_queues = Some 1, dd_mbuf_pool_size = Some 4, dd_burst_size = Some 2,
     dd_poll_cost_ns = Some 10, dd_hugepage_mb = None\<rparr>"

definition sim_packet_io_burst :: bool where
  "sim_packet_io_burst =
     (let io = \<lparr>sio_rx = [Packet_new (StreamId 1) (Sequence 0) (Timestamp 0) [1]], sio_tx = []\<rparr>;
          (got, io) = SimPacketIO_rx_burst io 8
      in length got = 1 \<and> fst (SimPacketIO_tx_burst io got) = 1)"

lemma test_sim_packet_io_burst: sim_packet_io_burst
  by code_simp

definition dma_delay_before_rx_visible :: bool where
  "dma_delay_before_rx_visible =
     (let nic = Cx5Nic_new test_nic_cfg in
      dma_latency_ns (nic_cfg nic) = 2000
      \<and> unwrap_in (submit_rx (advance_time nic 0) (Packet_new (StreamId 1) (Sequence 0) (Timestamp 0) [7])) (\<lambda>_ nic.
          let (got, nic) = Cx5Nic_rx_burst nic 8 in
          got = [] \<and> length (pending nic) = 1
          \<and> (let (got, nic) = Cx5Nic_rx_burst (advance_time nic 2000) 8
             in length got = 1 \<and> payload (got ! 0) = [7] \<and> completions nic = 1)))"

lemma test_nic_latency: "dma_latency_ns test_nic_cfg = 2000"
  by (simp add: dma_latency_ns_def test_nic_cfg_def)

lemma test_dma_delay_before_rx_visible: dma_delay_before_rx_visible
  by (simp add: dma_delay_before_rx_visible_def Cx5Nic_new_def test_nic_latency submit_rx_def submit_rx_ready_at_def
      advance_time_def poll_completions_def Cx5Nic_rx_burst_def drain_front_def sat_add_def Let_def)
    (simp add: test_nic_cfg_def)

definition dpdk_hardware_is_unavailable :: bool where
  "dpdk_hardware_is_unavailable =
     (case open_config (DpdkBackendConfig_of
         \<lparr>dd_version = ''1.0.0'', dd_id = ''dpdk-hw'', dd_backend = Some ''hardware'', dd_enabled = Some True,
          dd_pci_address = None, dd_rx_queues = None, dd_tx_queues = None, dd_mbuf_pool_size = None, dd_burst_size = None,
          dd_poll_cost_ns = None, dd_hugepage_mb = None\<rparr>) of
        Inl (BackendUnavailable _) \<Rightarrow> True | _ \<Rightarrow> False)"

lemma test_dpdk_hardware_is_unavailable: dpdk_hardware_is_unavailable
  by code_simp

definition dpdk_mock_burst_and_mbuf_limit :: bool where
  "dpdk_mock_burst_and_mbuf_limit =
     (let pkt = (\<lambda>n. Packet_new (StreamId 1) (Sequence (word_of_nat n)) (Timestamp 0) [word_of_nat n]) in
      unwrap_then (open_config (DpdkBackendConfig_of test_dpdk_mock)) (\<lambda>io.
        burst_size (dp_cfg io) = 2
        \<and> unwrap_in (inject_rx io [pkt 0]) (\<lambda>_ io. unwrap_in (inject_rx io [pkt 1]) (\<lambda>_ io.
          unwrap_in (inject_rx io [pkt 2]) (\<lambda>_ io. unwrap_in (inject_rx io [pkt 3]) (\<lambda>_ io.
          unwrap_err_in (inject_rx io [pkt 9]) (\<lambda>e io.
            let (got1, io) = Dpdk_rx_burst io 8; cost = last_poll_cost_ns io; (got2, io) = Dpdk_rx_burst io 8 in
            e = MbufExhausted \<and> length got1 = 2 \<and> cost = 10 \<and> length got2 = 2 \<and> fst (Dpdk_tx_burst io got1) = 2)))))))"

lemma test_dpdk_mock_burst_and_mbuf_limit: dpdk_mock_burst_and_mbuf_limit
  by code_simp

definition hardware_probe_is_unavailable :: bool where
  "hardware_probe_is_unavailable =
     ((case probe_hardware of ProbeUnavailable _ \<Rightarrow> True) \<and> isl (open_hardware ''0000:00:00.0''))"

lemma test_hardware_probe_is_unavailable: hardware_probe_is_unavailable
  by code_simp

section \<open>ethernet-model and fault-injection\<close>

definition load_yaml_and_serialize_delay :: bool where
  "load_yaml_and_serialize_delay =
     (let cfg = \<lparr>eth_version = ''1.0.0'', eth_id = ''ethernet-model-100g'', bandwidth_gbps = f64_lit 100, mtu = 9000,
                 latency_ns = 1000, jitter_ns = 500, eth_loss_rate = f64_lit 0\<rparr>
      in mtu cfg = 9000 \<and> serialize_delay_ns cfg 1250 = 100)"

lemma test_load_yaml_and_serialize_delay: load_yaml_and_serialize_delay
  using serialize_delay_1250 by (simp add: load_yaml_and_serialize_delay_def sample_ethernet_def Let_def)

definition test_fault_cfg :: FaultInjectionConfig where
  "test_fault_cfg = \<lparr>fi_version = ''1.0.0'', fi_id = ''fault-injection-defaults'', enabled = True, loss_rate = f64_lit (1 / 1000),
     extra_latency_us = f64_lit 5, burst_length = 10, kernel_delay_us = f64_lit 100, burst_start = 5,
     reorder_distance = 0, sequence_jump = 0, timestamp_skew_ns = 0\<rparr>"

definition test_pkt :: "u64 \<Rightarrow> Packet" where
  "test_pkt n = Packet_new (StreamId 1) (Sequence n) (Timestamp (n * 1000)) [1]"

definition load_and_extra_latency :: bool where
  "load_and_extra_latency =
     (let cfg = test_fault_cfg in
      extra_latency_ns cfg = 5000 \<and> should_drop_deterministic cfg 0 \<and> \<not> should_drop_deterministic cfg 1
      \<and> should_drop_burst cfg 5 5 \<and> should_drop_burst cfg 14 5 \<and> \<not> should_drop_burst cfg 15 5)"

lemma rnd_thousandth: "rnd f64_format (1 / 1000) = Fin (4611686018427388 * pow2 (- 62))"
  using rnd_f64_certificate [of "- 10" "1 / 1000" 4611686018427388] by (simp add: pow2_def)

lemma rnd_thousand: "rnd f64_format (1 / (4611686018427388 * pow2 (- 62))) = Fin 1000"
  using rnd_f64_certificate [of 9 "1 / (4611686018427388 * pow2 (- 62))" 8796093022208000] by (simp add: pow2_def)

lemma test_drop_period: "drop_period test_fault_cfg = 1000"
proof -
  have "\<lfloor>2001 / 2 :: rat\<rfloor> = 1000" by (simp add: floor_eq_iff)
  then show ?thesis by (simp add: drop_period_def test_fault_cfg_def rnd_thousandth rnd_thousand)
qed

lemma test_load_and_extra_latency: load_and_extra_latency
  by (simp add: load_and_extra_latency_def should_drop_deterministic_def should_drop_burst_def extra_latency_ns_def test_drop_period Let_def)
    (simp add: test_fault_cfg_def rnd_thousandth not_le)

definition sequence_jump_and_skew :: bool where
  "sequence_jump_and_skew =
     (let p = mutate_packet (test_fault_cfg\<lparr>sequence_jump := 10, timestamp_skew_ns := - 100\<rparr>) (test_pkt 1)
      in seqno (sequence p) = 11 \<and> tstamp (timestamp p) = 900)"

lemma test_sequence_jump_and_skew: sequence_jump_and_skew
  by (simp add: sequence_jump_and_skew_def mutate_packet_def test_fault_cfg_def test_pkt_def sat_add_def Packet_new_def Let_def)

definition reorder_delays_one_packet :: bool where
  "reorder_delays_one_packet =
     (let inj = FaultInjector_new (test_fault_cfg\<lparr>loss_rate := f64_lit 0, burst_length := 0, reorder_distance := 1\<rparr>);
          (out0, inj) = push inj (test_pkt 0);
          (out, inj) = push inj (test_pkt 1)
      in out0 = [] \<and> length out = 2 \<and> seqno (sequence (out ! 0)) = 0 \<and> seqno (sequence (out ! 1)) = 1 \<and> reordered inj = 1)"

lemma test_reorder_delays_one_packet: reorder_delays_one_packet
  by (simp add: reorder_delays_one_packet_def push_def tick_hold_def mutate_packet_def should_drop_def should_drop_deterministic_def
      should_drop_burst_def FaultInjector_new_def test_fault_cfg_def test_pkt_def sat_sub_def Packet_new_def Let_def)

section \<open>fpga-emulator\<close>

definition test_timing :: RadioTimingConfig where
  "test_timing = \<lparr>rtc_version = ''1.0.0'', rtc_id = ''radio-timing-nr-like'', slots_per_sfn = 20, symbols_per_slot = 14,
     symbol_duration_ns = 714286, samples_per_symbol = 64, max_antennas = 8, max_carriers = 4\<rparr>"

definition mock_iq_and_packetize :: "(f32 \<Rightarrow> f32) \<Rightarrow> (f32 \<Rightarrow> f32) \<Rightarrow> bool" where
  "mock_iq_and_packetize cos32 sin32 =
     (let radio_ts = RadioTimestamp_new 0 0 0 1000;
          samples = MockIQ_generate cos32 sin32 16 radio_ts;
          (pkt, _) = packetize \<lparr>pktz_sequence = SequenceGenerator_new\<rparr> (StreamId 1) radio_ts samples
      in length samples = 16 \<and> length (payload pkt) = 16 * 8 \<and> seqno (sequence pkt) = 0)"

lemma test_mock_iq_and_packetize: "mock_iq_and_packetize cos32 sin32"
  by (simp add: mock_iq_and_packetize_def packetize_def sg_next_sequence_def SequenceGenerator_new_def length_iq_payload
      MockIQ_generate_def Let_def)

fun skip_symbols :: "nat \<Rightarrow> SimpleSlotScheduler \<Rightarrow> SimpleSlotScheduler" where
  "skip_symbols 0 s = s"
| "skip_symbols (Suc n) s = skip_symbols n (snd (next_symbol s))"

definition slot_scheduler_rolls_symbols_and_slots :: bool where
  "slot_scheduler_rolls_symbols_and_slots =
     (let (one, sched) = next_symbol (SimpleSlotScheduler_new test_timing);
          (after_slot, _) = next_symbol (skip_symbols 13 sched)
      in rt_symbol one = 0 \<and> rt_slot one = 0 \<and> rt_slot after_slot = 1 \<and> rt_symbol after_slot = 0
         \<and> rt_ns after_slot = 14 * 714286)"

lemma next_symbol_spec:
  "next_symbol \<lparr>timestamps = tg_spec timing n\<rparr> = (tg_current (tg_spec timing n), \<lparr>timestamps = tg_spec timing (Suc n)\<rparr>)"
  by (simp add: next_symbol_def tick_symbol_spec)

lemma skip_symbols_spec: "skip_symbols k \<lparr>timestamps = tg_spec timing n\<rparr> = \<lparr>timestamps = tg_spec timing (n + k)\<rparr>"
  by (induction k arbitrary: n) (simp_all add: next_symbol_spec)

lemma test_slot_scheduler_rolls_symbols_and_slots: slot_scheduler_rolls_symbols_and_slots
  by (simp add: slot_scheduler_rolls_symbols_and_slots_def SimpleSlotScheduler_new_def next_symbol_spec skip_symbols_spec
      flip: tg_spec_0) (simp add: tg_current_def RadioTimestamp_new_def tg_spec_def test_timing_def Let_def)

definition fpga_emit_symbol_advances_sequence :: "(f32 \<Rightarrow> f32) \<Rightarrow> (f32 \<Rightarrow> f32) \<Rightarrow> bool" where
  "fpga_emit_symbol_advances_sequence cos32 sin32 =
     (let fpga = FpgaEmulator_new test_timing (StreamId 7);
          (a, fpga) = emit_symbol cos32 sin32 fpga;
          (b, fpga) = emit_symbol cos32 sin32 fpga
      in stream_id a = StreamId 7 \<and> seqno (sequence a) = 0 \<and> seqno (sequence b) = 1 \<and> tstamp (timestamp a) < tstamp (timestamp b))"

lemma test_fpga_emit_symbol_advances_sequence: "fpga_emit_symbol_advances_sequence cos32 sin32"
  by (simp add: fpga_emit_symbol_advances_sequence_def emit_symbol_def FpgaEmulator_new_def SimpleSlotScheduler_new_def
      TimestampGenerator_new_def next_symbol_def tick_symbol_def tg_current_def packetize_def sg_next_sequence_def
      SequenceGenerator_new_def RadioTimestamp_new_def test_timing_def sat_add_def Let_def)

section \<open>gpu-runtime and memory-manager\<close>

definition sim_kernel_records_delay :: bool where
  "sim_kernel_records_delay =
     unwrap_in (allocate_buffer SimGpu_new 1024) (\<lambda>i gpu.
     unwrap_in (launch_kernel gpu i 50000) (\<lambda>_ gpu.
       last_delay gpu = Some 50000 \<and> unwrap_in (gpu_sync gpu) (\<lambda>_ _. True)))"

lemma test_sim_kernel_records_delay: sim_kernel_records_delay
  by (simp add: sim_kernel_records_delay_def allocate_buffer_def launch_kernel_def gpu_sync_def SimGpu_new_def)

definition test_ring_cfg :: GpuRingConfig where
  "test_ring_cfg = \<lparr>gr_version = ''1.0.0'', gr_id = ''gpu-ring-default'', slot_count = 4, cfg_slot_bytes = 256,
     gr_kernel_delay_us = f64_lit 2\<rparr>"

definition ring_lifecycle_and_latency :: bool where
  "ring_lifecycle_and_latency =
     (let ring = GpuRingBuffer_new test_ring_cfg in
      ring_kernel_delay_ns ring = 2000
      \<and> unwrap_in (process_packet ring [1, 2, 3] 100) (\<lambda>latency ring. latency = 2000 \<and> count_state ring Free = 4))"

lemma test_ring_new: "GpuRingBuffer_new test_ring_cfg = \<lparr>slots = [RingSlot_empty, RingSlot_empty, RingSlot_empty, RingSlot_empty], slot_bytes = 256, ring_kernel_delay_ns = 2000\<rparr>"
  by (simp add: GpuRingBuffer_new_def test_ring_cfg_def cfg_kernel_delay_ns_def upt_conv_Cons)

lemma test_ring_lifecycle_and_latency: ring_lifecycle_and_latency
  by (simp add: ring_lifecycle_and_latency_def test_ring_new process_packet_def begin_receive_def complete_receive_def
      begin_process_def complete_process_def release_def transition_def find_state_def count_state_def RingSlot_empty_def sat_add_def
      sat_sub_def Let_def)

definition ring_full_errors :: bool where
  "ring_full_errors =
     (let fill = (\<lambda>k ring. unwrap_in (begin_receive ring 0) (\<lambda>i ring. unwrap_in (complete_receive ring i [9]) (\<lambda>_ ring. k ring)))
      in fill (fill (fill (fill (\<lambda>ring. unwrap_err_in (begin_receive ring 1) (\<lambda>e _. e = RingFull))))) (GpuRingBuffer_new test_ring_cfg))"

lemma test_ring_full_errors: ring_full_errors
  unfolding ring_full_errors_def test_ring_new by code_simp

definition host_write_read :: bool where
  "host_write_read =
     (let hello = [104, 101, 108, 108, 111] in
      unwrap_in (sim_allocate SimMemory_new 16 Host) (\<lambda>i mem.
        kind_of mem i = Inr Host
        \<and> unwrap_in (sim_write mem i 0 hello) (\<lambda>_ mem.
            sim_read mem i 0 5 = Inr hello \<and> unwrap_in (sim_free mem i) (\<lambda>_ _. True))))"

lemma test_host_write_read: host_write_read
proof -
  have "subslice (blit (replicate 16 0) 0 [104, 101, 108, 108, 111 :: u8]) 0 5 = [104, 101, 108, 108, 111]"
    using subslice_blit [of 0 "[104, 101, 108, 108, 111 :: u8]" "replicate 16 0"] by (simp add: eval_nat_numeral)
  then show ?thesis
    by (simp add: host_write_read_def sim_allocate_def sim_write_def sim_read_def sim_free_def kind_of_def get_buffer_def SimMemory_new_def
        checked_add_def length_blit Let_def)
qed

definition test_pool_cfg :: MemoryPoolConfig where
  "test_pool_cfg = \<lparr>pool_version = ''1.0.0'', pool_id = ''mem-test'', host_pool_bytes = 64, gpu_pool_bytes = 64, max_buffers = 8,
     h2d_bandwidth_gbps = f64_lit 16, d2h_bandwidth_gbps = f64_lit 16, fixed_copy_latency_ns = 200\<rparr>"

definition pooled_h2d_copy_and_limit :: bool where
  "pooled_h2d_copy_and_limit =
     unwrap_in (pool_allocate (PooledMemory_new test_pool_cfg) 32 Host) (\<lambda>host mem.
     unwrap_in (pool_write mem host 0 (replicate 32 1)) (\<lambda>_ mem.
     unwrap_in (pool_copy mem host 0 32 Gpu) (\<lambda>(gpu, ns) mem.
       200 \<le> ns \<and> pool_read mem gpu 0 32 = Inr (replicate 32 1)
       \<and> unwrap_err_in (pool_allocate mem 64 Host) (\<lambda>e _. e = PoolExhausted))))"

lemma test_pooled_h2d_copy_and_limit: pooled_h2d_copy_and_limit
proof -
  let ?ones = "replicate 32 (1 :: u8)"
  have whole: "blit xs 0 ?ones = ?ones" if "length xs = 32" for xs using that by (simp add: blit_def)
  have sub: "subslice ?ones 0 32 = ?ones" by (simp add: subslice_def)
  have latency: "200 \<le> sat_add w (200 :: u64)" for w
    by (simp add: word_le_nat_alt unat_sat_add)
  show ?thesis
    by (simp add: pooled_h2d_copy_and_limit_def pool_allocate_def pool_write_def pool_read_def pool_copy_def sim_allocate_def sim_write_def
        sim_read_def kind_of_def get_buffer_def SimMemory_new_def PooledMemory_new_def copy_latency_ns_def checked_add_def usat_add_def
        whole sub latency test_pool_cfg_def Let_def)
qed

section \<open>metrics-engine and benchmark\<close>

text \<open>Without the assertions on the printed JSON.\<close>

definition counters_and_json :: bool where
  "counters_and_json = (lm_rx_packets (ms_link (snapshot (record_drop (record_tx (record_rx MetricsEngine_new))))) = 1)"

lemma test_counters_and_json: counters_and_json
  by code_simp

definition layered_latency_samples :: bool where
  "layered_latency_samples =
     (let m = record_latency_sample (record_latency_sample (set_link_up MetricsEngine_new True (f64_lit 100)) 1000) 3000
      in link_is_up (physical (layered m)) \<and> latency_min_ns (transport (layered m)) = 1000
         \<and> latency_max_ns (transport (layered m)) = 3000 \<and> latency_samples (transport (layered m)) = 2)"

lemma test_layered_latency_samples: layered_latency_samples
  by (simp add: layered_latency_samples_def set_link_up_def record_latency_sample_def latency_sample_def MetricsEngine_new_def
      LayeredMetricsSnapshot_default_def TransportLayerMetrics_default_def sat_add_def Let_def)

definition healthy_stays_normal :: bool where
  "healthy_stays_normal =
     (let (changed, h, _) = evaluate (\<lambda>_. 0) (HealthManager_new HealthThresholds_default) LayeredMetricsSnapshot_default None
      in changed = None \<and> hm_state h = Normal)"

definition gap_triggers_warning_or_failed :: bool where
  "gap_triggers_warning_or_failed =
     (let snap = LayeredMetricsSnapshot_default\<lparr>transport :=
            (transport LayeredMetricsSnapshot_default)\<lparr>rx_packets := 100, gap_count := 1\<rparr>\<rparr>;
          (_, h, _) = evaluate (\<lambda>_. 0) (HealthManager_new HealthThresholds_default) snap None
      in hm_state h \<in> {Warning, Failed, Degraded})"

lemma test_gap_triggers_warning_or_failed: gap_triggers_warning_or_failed
  by (simp add: gap_triggers_warning_or_failed_def evaluate_def HealthManager_new_def next_health_def HealthThresholds_default_def
      LayeredMetricsSnapshot_default_def TransportLayerMetrics_default_def Let_def)

definition ring_records_stages :: bool where
  "ring_records_stages =
     (let (i, eng) = trace_start (TraceEngine_new 8) 1 10 FpgaTx 1000;
          eng = stamp (stamp eng i Cx5Rx 1500) i CudaDone 3500
      in case latest eng of None \<Rightarrow> False | Some t \<Rightarrow> length (stages t) = 3 \<and> tr_sequence t = 10)"

lemma test_ring_records_stages: ring_records_stages
  by code_simp

definition latency_percentiles :: bool where
  "latency_percentiles =
     (let stats = from_sorted_ns (map word_of_nat [1..<101])
      in min_ns stats = 1 \<and> max_ns stats = 100 \<and> p50_ns stats = 50)"

lemma test_healthy_stays_normal: healthy_stays_normal
  using default_metrics_clean by (simp add: healthy_stays_normal_def evaluate_def HealthManager_new_def next_health_clean Let_def)

lemma rnd_half: "rnd f64_format (1 / 2) = Fin (1 / 2)" "rnd f64_format (99 / 2) = Fin (99 / 2)"
  using rnd_f64_certificate [of "- 1" "1 / 2" 4503599627370496] rnd_f64_certificate [of 5 "99 / 2" 6966505673588736]
  by (simp_all add: pow2_def)

lemma test_latency_percentiles: latency_percentiles
proof -
  let ?xs = "map word_of_nat [1..<101] :: u64 list"
  have "\<lfloor>99 / 2 :: rat\<rfloor> = 49" by (simp add: floor_eq_iff)
  then have "pct ?xs (f64_lit (50 / 100)) = 50"
    by (simp add: pct_def rnd_half f64_of_nat_exact del: upt_Suc)
  then show ?thesis by (simp add: latency_percentiles_def from_sorted_ns_def last_map Let_def del: upt_Suc)
qed

text \<open>The test allows a difference of one billionth, which is computed exactly here.\<close>

definition near :: "f64 \<Rightarrow> rat \<Rightarrow> bool" where
  "near x y = (case x of Fin a \<Rightarrow> \<bar>a - y\<bar> < 1 / 1000000000 | _ \<Rightarrow> False)"

definition throughput_100g_model :: bool where
  "throughput_100g_model =
     (let t = from_bytes_and_duration 12500000000 (f64_lit 1) 1000000 in near (gbs t) (25 / 2) \<and> near (gbps t) 100)"

lemma rnd_twelve_half: "rnd f64_format (25 / 2) = Fin (25 / 2)"
  using rnd_f64_certificate [of 3 "25 / 2" 7036874417766400] by (simp add: pow2_def)

lemma test_throughput_100g_model: throughput_100g_model
  by (simp add: throughput_100g_model_def near_def from_bytes_and_duration_def f64_of_nat_exact rnd_twelve_half Let_def)

text \<open>The policy of \<^verbatim>\<open>configs/ops/recovery_policy.yaml\<close>.\<close>

definition repo_recovery_policy :: RecoveryPolicyFile where
  "repo_recovery_policy = \<lparr>rpf_version = ''1.0.0'', rpf_id = ''recovery-policy-default'', rpf_actions =
     [''packet_invalid'' \<mapsto> ''mark_invalid_continue'', ''sequence_gap'' \<mapsto> ''recover_sequence'',
      ''buffer_overflow'' \<mapsto> ''drop_oldest_resync_slot'', ''link_down'' \<mapsto> ''restart_stream'',
      ''gpu_stall'' \<mapsto> ''alert_and_continue'', ''late_packet'' \<mapsto> ''record_and_drop'']\<rparr>"

definition load_repo_recovery_policy :: bool where
  "load_repo_recovery_policy =
     unwrap_then (RecoveryPolicy_from_yaml_str (\<lambda>_. Inr repo_recovery_policy) []) (\<lambda>policy.
       action_for policy ''sequence_gap'' = RecoverSequence
       \<and> (let (action, ex, _) = recovery_apply (\<lambda>_. 0) (RecoveryExecutor_new policy) ''late_packet'' None
          in action = RecordAndDrop \<and> length (applied ex) = 1))"

lemma test_load_repo_recovery_policy: load_repo_recovery_policy
  by (simp add: load_repo_recovery_policy_def RecoveryPolicy_from_yaml_str_def repo_recovery_policy_def action_for_def
      recovery_apply_def RecoveryExecutor_new_def action_parse_names Let_def)

section \<open>net-io\<close>

text \<open>The kernel delivers what is sent to the address the host is bound to.\<close>

definition localhost_udp_roundtrip :: bool where
  "localhost_udp_roundtrip =
     (let env = \<lparr>env_resolve = (\<lambda>a. Inr [a]), env_bind = (\<lambda>_. Inr ()), env_set_timeout = (\<lambda>_. Inr ())\<rparr>;
          host_cfg = \<lparr>net_version = ''1.0.0'', net_id = ''test-host'', bind_addr = ''127.0.0.1:19001'', peer_addr = [],
                      recv_timeout_ms = 50, max_datagram_bytes = 2048\<rparr>;
          fpga_cfg = \<lparr>net_version = ''1.0.0'', net_id = ''test-fpga'', bind_addr = ''127.0.0.1:0'', peer_addr = ''127.0.0.1:19001'',
                      recv_timeout_ms = 50, max_datagram_bytes = 2048\<rparr>;
          pkt = Packet_new (StreamId 1) (Sequence 7) (Timestamp 99) [9, 8, 7]
      in unwrap_then (NetPacketIO_bind env [] host_cfg) (\<lambda>host.
         unwrap_then (NetPacketSink_bind env fpga_cfg) (\<lambda>fpga.
         unwrap_in (net_send_packet (\<lambda>frame _. Inr (length frame)) fpga pkt) (\<lambda>_ fpga.
           let host = (if sink_peer fpga = bind_addr host_cfg then host\<lparr>net_in := [Datagram (encode_frame pkt)]\<rparr> else host);
               (got, host) = net_rx_burst host 8;
               (got, host) = (if got = [] then net_rx_burst host 8 else (got, host))
           in length got = 1 \<and> got ! 0 = pkt \<and> sent fpga = 1 \<and> received host = 1))))"

lemma test_localhost_udp_roundtrip: localhost_udp_roundtrip
  by (simp add: localhost_udp_roundtrip_def NetPacketIO_bind_def NetPacketSink_bind_def resolve_one_def net_send_packet_def
      net_rx_burst_def net_poll_rx_def drain_front_def decode_frame_encode_frame Let_def)

section \<open>gpu-cuda\<close>

text \<open>On a machine where the device cannot be opened the test passes without doing anything.\<close>

definition cuda_smoke_on_device0 :: "cuda_driver \<Rightarrow> bool" where
  "cuda_smoke_on_device0 d =
     (case CudaGpu_new d (default_rtx4050\<lparr>expect_name_contains := []\<rparr>) of
        Inl _ \<Rightarrow> True
      | Inr gpu \<Rightarrow>
          unwrap_in (cuda_allocate_buffer d gpu 64) (\<lambda>i gpu.
          unwrap_in (cuda_launch_kernel d gpu i) (\<lambda>_ gpu.
          unwrap_then (cuda_sync d gpu) (\<lambda>_. last_kernel_ns gpu \<noteq> None))))"

lemma test_cuda_smoke_on_device0:
  assumes "driver_ok d"
  shows "cuda_smoke_on_device0 d"
proof (cases "CudaGpu_new d (default_rtx4050\<lparr>expect_name_contains := []\<rparr>)")
  case (Inr gpu)
  then have gpu: "cuda_inv gpu" "device_bufs gpu = []" "lengths gpu = []" using CudaGpu_new_fresh by blast+
  show ?thesis using assms gpu(2,3) allocate_words(1) [OF assms gpu(1), of 16] launch_last [OF assms gpu(1), where ws = "replicate 16 0"] Inr
    by (auto simp: cuda_smoke_on_device0_def cuda_sync_def driver_ok_def)
qed (simp add: cuda_smoke_on_device0_def)

section \<open>shm-io\<close>

definition test_shm_cfg :: ShmLinkConfig where
  "test_shm_cfg = \<lparr>shm_version = ''1.0.0'', shm_id = ''test'', shm_path = ''/tmp/aether_shm.bin'',
     shm_cfg_slot_count = 8, shm_cfg_slot_bytes = 1024, shm_create = True\<rparr>"

fun send_all :: "ShmPacketRing \<Rightarrow> Packet list \<Rightarrow> (ShmIoError, unit, ShmPacketRing) outcome" where
  "send_all ring [] = (Inr (), ring)"
| "send_all ring (p # ps) =
     (case send_packet (\<lambda>_ m. m) ring p of
        (Inl e, ring) \<Rightarrow> (Inl e, ring)
      | (Inr _, ring) \<Rightarrow> send_all ring ps)"

definition spsc_same_process_roundtrip :: bool where
  "spsc_same_process_roundtrip =
     unwrap_then (ShmPacketRing_open (sample_fs []) test_shm_cfg) (\<lambda>prod.
     unwrap_then (ShmPacketIO_open (sample_fs (shm_map prod)) (test_shm_cfg\<lparr>shm_create := False\<rparr>)) (\<lambda>cons.
     unwrap_in (send_all prod (map (\<lambda>i. Packet_new (StreamId 1) (Sequence (word_of_nat i)) (Timestamp (word_of_nat (i * 10)))
         (replicate 16 (word_of_nat i))) [0..<5])) (\<lambda>_ prod.
       let (got, _) = shm_rx_burst (cons\<lparr>shm_ring := (shm_ring cons)\<lparr>shm_map := shm_map prod\<rparr>\<rparr>) 8
       in length got = 5 \<and> seqno (sequence (got ! 4)) = 4)))"

definition open_sink_without_create_does_not_truncate_prepared_ring :: bool where
  "open_sink_without_create_does_not_truncate_prepared_ring =
     unwrap_then (ShmPacketRing_open (sample_fs []) test_shm_cfg) (\<lambda>prep.
     unwrap_then (ShmPacketRing_open (sample_fs (shm_map prep)) (test_shm_cfg\<lparr>shm_create := False\<rparr>)) (\<lambda>sink.
       length (shm_map sink) = length (shm_map prep)
       \<and> unwrap_in (send_packet (\<lambda>_ m. m) sink (Packet_new (StreamId 1) (Sequence 0) (Timestamp 0) (replicate 8 9))) (\<lambda>_ sink.
         unwrap_then (ShmPacketIO_open (sample_fs (shm_map sink)) (test_shm_cfg\<lparr>shm_create := False\<rparr>)) (\<lambda>cons.
           length (fst (shm_rx_burst cons 1)) = 1))))"

lemma send_all_ok:
  assumes "shm_inv ring" "shm_header_ok ring" "\<forall>p\<in>set ps. 32 + length (payload p) \<le> shm_slot_bytes ring"
    and "length (shm_queue ring) + length ps \<le> shm_slot_count ring" "unat (write_pos (shm_map ring)) + length ps < 2 ^ 64"
  shows "\<exists>ring'. send_all ring ps = (Inr (), ring') \<and> shm_inv ring' \<and> shm_header_ok ring' \<and> shm_queue ring' = shm_queue ring @ ps
    \<and> shm_slot_count ring' = shm_slot_count ring \<and> shm_slot_bytes ring' = shm_slot_bytes ring"
  using assms
proof (induction ps arbitrary: ring)
  case Nil
  then show ?case by simp
next
  case (Cons p ps)
  have w: "unat (write_pos (shm_map ring)) < 2 ^ 64 - 1" using Cons.prems(5) by simp
  from Cons.prems(1) w show ?case
  proof (cases rule: try_push_cases [of ring p])
    case (stored ring')
    have "unat (write_pos (shm_map ring')) = Suc (unat (write_pos (shm_map ring)))"
      unfolding stored(6) using w by (simp add: unat_inc)
    then have "\<exists>ring''. send_all ring' ps = (Inr (), ring'') \<and> shm_inv ring'' \<and> shm_header_ok ring'' \<and> shm_queue ring'' = shm_queue ring' @ ps
        \<and> shm_slot_count ring'' = shm_slot_count ring' \<and> shm_slot_bytes ring'' = shm_slot_bytes ring'"
      using Cons.prems stored by (intro Cons.IH header_push [OF Cons.prems(1,2) stored(3)]) simp_all
    then show ?thesis using stored send_packet_stored [OF stored(3)] by auto
  qed (use Cons.prems in simp_all)
qed

lemma reopen:
  assumes "shm_inv ring" "shm_header_ok ring" "shm_slot_count ring = shm_cfg_slot_count cfg" "shm_slot_bytes ring = shm_cfg_slot_bytes cfg"
    and "64 \<le> shm_cfg_slot_bytes cfg"
  shows "ShmPacketRing_open (sample_fs (shm_map ring)) (cfg\<lparr>shm_create := False\<rparr>) =
    Inr \<lparr>shm_map = shm_map ring, shm_slot_count = shm_cfg_slot_count cfg, shm_slot_bytes = shm_cfg_slot_bytes cfg, pushed = 0, popped = 0\<rparr>"
proof -
  have "length (shm_map ring) = HEADER_BYTES + shm_cfg_slot_count cfg * slot_stride (shm_cfg_slot_bytes cfg)" "0 < shm_cfg_slot_count cfg"
    using assms(1,3,4) by (auto simp: shm_inv_def shm_rep_def shm_geometry_def Let_def)
  then show ?thesis using assms(2-5) by (simp add: ShmPacketRing_open_def sample_fs_def shm_header_ok_def Let_def)
qed

lemma test_ring_created:
  obtains ring where "ShmPacketRing_open (sample_fs []) test_shm_cfg = Inr ring" "shm_inv ring" "shm_header_ok ring" "shm_queue ring = []"
    "shm_slot_count ring = 8" "shm_slot_bytes ring = 1024" "write_pos (shm_map ring) = 0"
proof -
  obtain ring where ring: "ShmPacketRing_open (sample_fs []) test_shm_cfg = Inr ring"
    by (simp add: ShmPacketRing_open_def test_shm_cfg_def sample_fs_def Let_def)
  have "shm_create test_shm_cfg" "shm_cfg_slot_count test_shm_cfg < 2 ^ 64" "shm_cfg_slot_bytes test_shm_cfg < 2 ^ 32"
    by (simp_all add: test_shm_cfg_def)
  note created = open_created [OF ring this]
  show ?thesis using that [OF ring] shm_repI [OF created(1)] created(2-5) by (simp add: shm_header_ok_def test_shm_cfg_def)
qed

lemma shm_inv_map:
  "shm_map a = shm_map b \<Longrightarrow> shm_slot_count a = shm_slot_count b \<Longrightarrow> shm_slot_bytes a = shm_slot_bytes b \<Longrightarrow> shm_inv a = shm_inv b"
  using shm_queue_map [of a b] by (simp add: shm_inv_def shm_rep_def Let_def)

lemma test_spsc_same_process_roundtrip: spsc_same_process_roundtrip
proof -
  let ?ps = "map (\<lambda>i. Packet_new (StreamId 1) (Sequence (word_of_nat i)) (Timestamp (word_of_nat (i * 10))) (replicate 16 (word_of_nat i))) [0..<5]"
  obtain prod where prod: "ShmPacketRing_open (sample_fs []) test_shm_cfg = Inr prod" "shm_inv prod" "shm_header_ok prod" "shm_queue prod = []"
    "shm_slot_count prod = 8" "shm_slot_bytes prod = 1024" "write_pos (shm_map prod) = 0" by (rule test_ring_created)
  obtain prod' where sent: "send_all prod ?ps = (Inr (), prod')" "shm_inv prod'" "shm_queue prod' = ?ps"
    "shm_slot_count prod' = 8" "shm_slot_bytes prod' = 1024"
    using send_all_ok [OF prod(2,3), of ?ps] prod(4-7) by (auto simp del: upt_Suc)
  have "ShmPacketRing_open (sample_fs (shm_map prod)) (test_shm_cfg\<lparr>shm_create := False\<rparr>) =
      Inr \<lparr>shm_map = shm_map prod, shm_slot_count = 8, shm_slot_bytes = 1024, pushed = 0, popped = 0\<rparr>"
    using reopen [OF prod(2,3), of test_shm_cfg] prod(5,6) by (simp add: test_shm_cfg_def)
  note cons = this
  let ?io = "\<lparr>shm_ring = \<lparr>shm_map = shm_map prod', shm_slot_count = 8, shm_slot_bytes = 1024, pushed = 0, popped = 0\<rparr>, shm_rx = []\<rparr>"
  have "shm_inv (shm_ring ?io)" "shm_queue (shm_ring ?io) = ?ps"
    using sent shm_inv_map [of "shm_ring ?io" prod'] shm_queue_map [of "shm_ring ?io" prod'] by simp_all
  then have "fst (shm_rx_burst ?io 8) = ?ps" using shm_io.burst_out [of ?io 8] by (simp del: upt_Suc)
  then show ?thesis using prod(1) sent(1) cons
    by (simp add: spsc_same_process_roundtrip_def ShmPacketIO_open_def split_beta Let_def del: upt_Suc)
qed

lemma test_open_sink_without_create: open_sink_without_create_does_not_truncate_prepared_ring
proof -
  let ?p = "Packet_new (StreamId 1) (Sequence 0) (Timestamp 0) (replicate 8 9)"
  let ?ring = "\<lambda>m. \<lparr>shm_map = m, shm_slot_count = 8, shm_slot_bytes = 1024, pushed = 0, popped = 0\<rparr>"
  have again: "ShmPacketRing_open (sample_fs (shm_map ring)) (test_shm_cfg\<lparr>shm_create := False\<rparr>) = Inr (?ring (shm_map ring))
      \<and> shm_inv (?ring (shm_map ring)) \<and> shm_queue (?ring (shm_map ring)) = shm_queue ring"
    if "shm_inv ring" "shm_header_ok ring" "shm_slot_count ring = 8" "shm_slot_bytes ring = 1024" for ring
    using that reopen [OF that(1,2), of test_shm_cfg] shm_inv_map [of "?ring (shm_map ring)" ring]
      shm_queue_map [of "?ring (shm_map ring)" ring] by (simp add: test_shm_cfg_def)
  obtain prep where prep: "ShmPacketRing_open (sample_fs []) test_shm_cfg = Inr prep" "shm_inv prep" "shm_header_ok prep" "shm_queue prep = []"
    "shm_slot_count prep = 8" "shm_slot_bytes prep = 1024" "write_pos (shm_map prep) = 0" by (rule test_ring_created)
  note sink = again [OF prep(2,3,5,6)]
  have "shm_header_ok (?ring (shm_map prep))" using prep(3,5,6) by (simp add: shm_header_ok_def)
  then obtain ring' where sent: "send_all (?ring (shm_map prep)) [?p] = (Inr (), ring')" "shm_inv ring'" "shm_header_ok ring'"
    "shm_queue ring' = [?p]" "shm_slot_count ring' = 8" "shm_slot_bytes ring' = 1024"
    using send_all_ok [of "?ring (shm_map prep)" "[?p]"] sink prep(4,7) by auto
  then have send: "send_packet (\<lambda>_ m. m) (?ring (shm_map prep)) ?p = (Inr (), ring')" by (auto split: prod.splits sum.splits)
  note cons = again [OF sent(2,3,5,6)]
  have "fst (shm_rx_burst \<lparr>shm_ring = ?ring (shm_map ring'), shm_rx = []\<rparr> 1) = [?p]"
    using shm_io.burst_out [of "\<lparr>shm_ring = ?ring (shm_map ring'), shm_rx = []\<rparr>" 1] cons sent(4) by simp
  then show ?thesis using prep(1) sink send cons
    by (simp add: open_sink_without_create_does_not_truncate_prepared_ring_def ShmPacketIO_open_def)
qed

section \<open>The integration tests of the command line crate\<close>

text \<open>How they start a transport engine; the configurations are those of the repository.\<close>

definition running_transport :: "StreamId \<Rightarrow> (SimTransportEngine \<Rightarrow> bool) \<Rightarrow> bool" where
  "running_transport i k =
     unwrap_in (link_up test_engine) (\<lambda>_ eng.
     unwrap_in (create_stream eng \<lparr>cfg_stream_id = i, carrier = 0, antenna = 0, qos = 0, deadline_ns = 10000\<rparr>) (\<lambda>_ eng.
     unwrap_in (start_stream eng i) (\<lambda>_ eng. k eng)))"

definition test1_single_stream_fpga_transport_memory :: "(f32 \<Rightarrow> f32) \<Rightarrow> (f32 \<Rightarrow> f32) \<Rightarrow> bool" where
  "test1_single_stream_fpga_transport_memory cos32 sin32 =
     running_transport (StreamId 1) (\<lambda>eng.
       let packet = fst (emit_symbol cos32 sin32 (FpgaEmulator_new test_timing (StreamId 1)));
           eng = eng\<lparr>now_ns := tstamp (timestamp packet) + 100\<rparr>;
           header = AetherHeader_new (stream_id packet) (timestamp packet) (sequence packet) (word_of_nat (length (payload packet)))
       in \<not> isl (validate header)
          \<and> unwrap_in (ingest eng packet) (\<lambda>_ eng.
            unwrap_in (receive eng) (\<lambda>got _. case got of
                None \<Rightarrow> False
              | Some p \<Rightarrow>
                  unwrap_in (sim_allocate SimMemory_new (length (payload p)) Host) (\<lambda>buf mem.
                  unwrap_in (sim_write mem buf 0 (payload p)) (\<lambda>_ mem.
                    sim_read mem buf 0 (length (payload p)) = Inr (payload packet))))))"

lemma test_running_transport:
  "running_transport i k = k \<lparr>streams = [i \<mapsto> \<lparr>rt_cfg = \<lparr>cfg_stream_id = i, carrier = 0, antenna = 0, qos = 0, deadline_ns = 10000\<rparr>,
       rt_state = Stream_Running\<rparr>], inbox = [], outbox = [], link = Link_Running,
     seq = \<lparr>sc_next = [i \<mapsto> 0], sc_start = 0, sc_allow_reorder = False\<rparr>, ts = \<lparr>tc_max_latency_ns = 10000\<rparr>,
     now_ns = 0, sequence_gaps = 0, late_packets = 0\<rparr>"
  by (simp add: running_transport_def link_up_def create_stream_def start_stream_def set_stream_state_def test_engine_def Sim_new_def
      SequenceChecker_from_config_def SequenceChecker_new_def TimestampChecker_from_config_def TimestampChecker_new_def
      register_stream_def Let_def)

lemma test_test1: "test1_single_stream_fpga_transport_memory cos32 sin32"
proof -
  define p where "p = fst (emit_symbol cos32 sin32 (FpgaEmulator_new test_timing (StreamId 1)))"
  have p: "stream_id p = StreamId 1" "seqno (sequence p) = 0" "tstamp (timestamp p) = 0" "length (payload p) = 512"
    by (simp_all add: p_def emit_symbol_def FpgaEmulator_new_def SimpleSlotScheduler_new_def
        TimestampGenerator_new_def next_symbol_def tick_symbol_def tg_current_def packetize_def sg_next_sequence_def
        SequenceGenerator_new_def RadioTimestamp_new_def test_timing_def MockIQ_generate_def Let_def split: prod.split)
  have whole: "blit (replicate 512 0) 0 (payload p) = payload p" "subslice (payload p) 0 512 = payload p"
    using p(4) by (simp_all add: blit_def subslice_def)
  show ?thesis
    unfolding test1_single_stream_fpga_transport_memory_def p_def [symmetric] test_running_transport
    using p whole
    by (simp add: validate_def AetherHeader_new_def ingest_def seq_check_def ts_check_def receive_def sim_allocate_def sim_write_def
        sim_read_def get_buffer_def SimMemory_new_def checked_add_def expected_seq_def sat_sub_def Let_def)
qed

definition test4_fault :: FaultInjectionConfig where
  "test4_fault = \<lparr>fi_version = ''1.0.0'', fi_id = ''fault-test'', enabled = True, loss_rate = f64_lit (1 / 1000),
     extra_latency_us = f64_lit 5, burst_length = 2, kernel_delay_us = f64_lit 100, burst_start = 0,
     reorder_distance = 0, sequence_jump = 0, timestamp_skew_ns = 0\<rparr>"

text \<open>The loop over the sequence numbers: a packet in the burst is skipped, a gap is recovered and the packet sent again.\<close>

fun test4_loop :: "StreamId \<Rightarrow> u64 list \<Rightarrow> SimTransportEngine \<Rightarrow> (SimTransportEngine \<Rightarrow> bool) \<Rightarrow> bool" where
  "test4_loop i [] eng k = k eng"
| "test4_loop i (n # ns) eng k =
     (let pkt = Packet_new i (Sequence n) (Timestamp (n * 100)) [ucast n] in
      if should_drop_burst test4_fault n 1 then test4_loop i ns eng k
      else
        case ingest (eng\<lparr>now_ns := tstamp (timestamp pkt) + 100\<rparr>) pkt of
          (Inr _, eng) \<Rightarrow> test4_loop i ns eng k
        | (Inl (SequenceGap _ g), eng) \<Rightarrow>
            let retry = Packet_new i (Sequence g) (Timestamp (g * 100)) [ucast g] in
            unwrap_in (ingest ((recover_sequence eng i g)\<lparr>now_ns := tstamp (timestamp retry) + 100\<rparr>) retry) (\<lambda>_ eng. test4_loop i ns eng k)
        | (Inl _, _) \<Rightarrow> False)"

definition test4_fault_recovery_loss_and_late :: bool where
  "test4_fault_recovery_loss_and_late =
     running_transport (StreamId 9) (\<lambda>eng.
     test4_loop (StreamId 9) [0, 1, 2, 3, 4] eng (\<lambda>eng.
       1 \<le> sequence_gaps eng
       \<and> unwrap_err_in (ingest (eng\<lparr>now_ns := 50000\<rparr>) (Packet_new (StreamId 9) (Sequence 5) (Timestamp 0) [5])) (\<lambda>e eng.
           (case e of LatePacket _ _ \<Rightarrow> True | _ \<Rightarrow> False) \<and> late_packets eng = 1)
       \<and> kernel_delay_ns test4_fault = 100000 \<and> extra_latency_ns test4_fault = 5000))"

lemma test4_drops: "should_drop_burst test4_fault n 1 \<longleftrightarrow> 1 \<le> n \<and> n < 3"
  by (simp add: should_drop_burst_def test4_fault_def)

lemma test_test4: test4_fault_recovery_loss_and_late
  unfolding test4_fault_recovery_loss_and_late_def test_running_transport
  by (simp add: test4_drops ingest_def ts_check_def seq_check_def expected_seq_def recover_sequence_def resync_def sat_sub_def
      kernel_delay_ns_def extra_latency_ns_def Let_def) (simp add: test4_fault_def rnd_thousandth)

definition repo_nic_cfg :: NicDmaConfig where
  "repo_nic_cfg = \<lparr>nic_version = ''1.0.0'', nic_id = ''cx5-dma-model'', nic_dma_latency_us = f64_lit 2,
     rx_queue_depth = 1024, tx_queue_depth = 1024, completion_queue_depth = 1024\<rparr>"

definition repo_ring_cfg :: GpuRingConfig where
  "repo_ring_cfg = \<lparr>gr_version = ''1.0.0'', gr_id = ''gpu-ring-default'', slot_count = 8, cfg_slot_bytes = 4096,
     gr_kernel_delay_us = f64_lit 1\<rparr>"

definition test5_cx5_dma_and_gpu_ring :: bool where
  "test5_cx5_dma_and_gpu_ring =
     (let nic = Cx5Nic_new repo_nic_cfg; ring = GpuRingBuffer_new repo_ring_cfg; dma = dma_latency_ns (nic_cfg nic) in
      unwrap_in (submit_rx (advance_time nic 0) (Packet_new (StreamId 1) (Sequence 0) (Timestamp 0) [1, 2, 3, 4])) (\<lambda>_ nic.
        let (none, nic) = Cx5Nic_rx_burst nic 8; (pkts, nic) = Cx5Nic_rx_burst (advance_time nic dma) 8 in
        none = [] \<and> length pkts = 1
        \<and> unwrap_in (process_packet ring (payload (pkts ! 0)) dma) (\<lambda>latency ring.
            latency = ring_kernel_delay_ns ring \<and> count_state ring Free = length (slots ring))))"

lemma repo_nic_latency: "dma_latency_ns repo_nic_cfg = 2000"
  by (simp add: dma_latency_ns_def repo_nic_cfg_def)

lemma repo_ring_new: "GpuRingBuffer_new repo_ring_cfg = \<lparr>slots = [RingSlot_empty, RingSlot_empty, RingSlot_empty, RingSlot_empty,
     RingSlot_empty, RingSlot_empty, RingSlot_empty, RingSlot_empty], slot_bytes = 4096, ring_kernel_delay_ns = 1000\<rparr>"
  by (simp add: GpuRingBuffer_new_def repo_ring_cfg_def cfg_kernel_delay_ns_def upt_conv_Cons)

lemma test_test5: test5_cx5_dma_and_gpu_ring
  by (simp add: test5_cx5_dma_and_gpu_ring_def Cx5Nic_new_def repo_nic_latency submit_rx_def submit_rx_ready_at_def advance_time_def
      poll_completions_def Cx5Nic_rx_burst_def drain_front_def sat_add_def Let_def)
    (simp add: repo_nic_cfg_def repo_ring_new process_packet_def begin_receive_def complete_receive_def begin_process_def
      complete_process_def release_def transition_def find_state_def count_state_def RingSlot_empty_def sat_add_def sat_sub_def Let_def)

end
