(* ===== verification/Spec2Isabelle.thy ===== *)
theory Spec2Isabelle
  imports Prelude Ieee_Float Rust_Strings Aether_Types Protocol Transport_Check Transport Ethernet Fault_Injection Cx5 Fpga Memory Gpu_Ring Shm_Ring Shm_Concurrent Metrics Ops Net_IO Pipeline Pipeline_Props Bench_Timing Ops_Config Prometheus Ops_Files Bench_Load Gates Host_Link Host_Props Link_Delivery Cuda Dpdk_Adapter Cli Cli_Cuda Cli_Main Crate_Tests
begin

text \<open>
  A verification development of the aether radio simulator, a Rust workspace that simulates the path
  of radio IQ samples from an FPGA over Ethernet, a transport protocol and a network card into GPU
  memory (sources under \<^verbatim>\<open>src/crates\<close>).

  \<^bold>\<open>The program.\<close>  An FPGA emulator turns symbols of IQ samples into numbered, time-stamped packets.
  They travel as frames of a binary protocol, directly (the bench), over UDP (\<^verbatim>\<open>net-io\<close>) or through a
  ring in shared memory (\<^verbatim>\<open>shm-io\<close>), and a fault injector may drop, delay, renumber or reorder them.  The
  transport engine checks deadline and sequence of each packet, the NIC emulator delays it by its DMA
  latency and the GPU ring walks a slot through its state machine.  Metrics, events, traces, a health
  state machine and recovery actions observe all this; \<^verbatim>\<open>PipelineBench\<close> runs it end to end from its
  configuration files, and acceptance, soak and fault-drill runs judge its report.  The command line
  starts these runs, and splits the path into two processes: an emitter that sends the symbols over UDP
  or the shared ring, and a receiver that polls the link, passes each packet through transport, NIC and
  GPU, and gives up after thirty seconds.

  \<^bold>\<open>Conventions.\<close>  \<^verbatim>\<open>u8\<close>, \<^verbatim>\<open>u16\<close>, \<^verbatim>\<open>u32\<close>, \<^verbatim>\<open>u64\<close> are words of their width, so \<open>+\<close> wraps as in a release build and
  the saturating operations are \<open>sat_add\<close> and \<open>sat_sub\<close>; \<^verbatim>\<open>usize\<close> is \<open>nat\<close>.  A \<^verbatim>\<open>Result\<close> is a sum with the
  error on the left.  A method on \<^verbatim>\<open>&mut self\<close> returns its result and the new state (\<open>outcome\<close>), also on
  its error paths.  A struct is a record with its fields prefixed where names clash, a \<^verbatim>\<open>HashMap\<close> a
  partial function, a \<^verbatim>\<open>Vec\<close> a list.  \<^verbatim>\<open>f64\<close> and \<^verbatim>\<open>f32\<close> are rationals with the special values, and every
  operation rounds to the nearest even representable number (\<open>Ieee_Float\<close>).  Third-party code is a parameter:
  the YAML and JSON libraries, sine and cosine, the file system, sockets, the CUDA driver and the clock.
  A build with the feature \<^verbatim>\<open>cuda\<close> is one whose environment has a driver (\<open>cuda_build\<close>); both builds are modelled.

  \<^bold>\<open>The theories.\<close>

  \<^item> \<open>Prelude\<close>: words, little-endian bytes, slices; the locales \<open>fixed_codec\<close> (fixed-width integer codecs,
    interpreted for 16, 32 and 64 bits) and \<open>burst_queue\<close> (the receiving half of the trait \<^verbatim>\<open>PacketIO\<close>,
    interpreted for the plain queue, the NIC, the DPDK mock, the shared-memory and the UDP back end).
  \<^item> \<open>Ieee_Float\<close>, \<open>Rust_Strings\<close>: the parts of the language the sources use.
  \<^item> \<open>Aether_Types\<close> (\<^verbatim>\<open>aether-types\<close>) and \<open>Protocol\<close> (\<^verbatim>\<open>aether-protocol\<close>): packets, header and frames; round trip,
    soundness of the decoder and what it makes of cut, extended and damaged frames.
  \<^item> \<open>Transport_Check\<close>, \<open>Transport\<close> (\<^verbatim>\<open>aether-transport\<close>): checkers, mock and simulation engine behind the locale
    \<open>transport_engine\<close>; the verdict of \<^verbatim>\<open>ingest\<close>, in-order acceptance, recovery from gaps, an invariant over all
    reachable engines of the step relation \<open>sim_step\<close>.
  \<^item> \<open>Ethernet\<close>, \<open>Fault_Injection\<close>, \<open>Fpga\<close> (crates of the same names): monotone wire delay, conservation and
    the exact reordering of the injector, closed forms of radio time and of the emitted stream.
  \<^item> \<open>Cx5\<close> (\<^verbatim>\<open>cx5-emulator\<close>): bounded queues, no packet before its completion time, refinement of the NIC to a FIFO queue, mbuf accounting.
  \<^item> \<open>Memory\<close> (\<^verbatim>\<open>memory-manager\<close>): both back ends behind the locale \<open>memory_backend\<close>, and with the steps of
    their users behind \<open>memory_history\<close>; pool accounting, reads after writes, no use after free, all-or-nothing copies.
  \<^item> \<open>Gpu_Ring\<close> (\<^verbatim>\<open>gpu-runtime\<close>): the slot state machine, its invariant and the verdict of one packet.
  \<^item> \<open>Shm_Ring\<close> (\<^verbatim>\<open>shm-io\<close>): the ring over the bytes of the mapped file, refined to a bounded FIFO queue.
    \<open>Shm_Concurrent\<close>: the same two operations as sequences of single loads and stores, run by two processes in
    any interleaving; the ring stays a FIFO queue, no half-written frame is read, and neither operation waits.
  \<^item> \<open>Net_IO\<close> (\<^verbatim>\<open>net-io\<close>): binding, sending and the polling loop over the results of the socket calls.
  \<^item> \<open>Metrics\<close>, \<open>Ops\<close> (\<^verbatim>\<open>metrics-engine\<close>): counters and latency statistics; events, health, recovery, traces.
  \<^item> \<open>Pipeline\<close>, \<open>Pipeline_Props\<close> (\<^verbatim>\<open>benchmark\<close>): the end-to-end run and its report; no stage refuses a packet
    of a sound configuration, every symbol is delivered, late or dropped exactly once, and the report is that of
    \<open>passage\<close>, a server with nothing but a clock.
  \<^item> \<open>Bench_Timing\<close> (\<^verbatim>\<open>benchmark/src/pipeline.rs\<close>): the run without faults in closed form: what a packet
    costs on the wire, in the NIC and in the kernel, the simulated time of each stage, and from them every latency of the
    report, evaluated with the numbers of the repository's configuration files.
  \<^item> \<open>Ops_Config\<close>, \<open>Prometheus\<close> (\<^verbatim>\<open>config.rs\<close>, \<^verbatim>\<open>prometheus.rs\<close> of \<^verbatim>\<open>metrics-engine\<close>): the observability document
    with the defaults of its sections; the text format, which a scraper reads back.  \<open>Ops_Files\<close>: paths, the
    creation of the event log and the export of traces, which can be read back.
  \<^item> \<open>Bench_Load\<close> (\<^verbatim>\<open>benchmark\<close>): paths, the loading of the eight files of a run and the report file; which files
    a run cannot do without.
  \<^item> \<open>Gates\<close> (\<^verbatim>\<open>acceptance.rs\<close>, \<^verbatim>\<open>soak.rs\<close>, \<^verbatim>\<open>fault_drill.rs\<close>): the drivers around the bench; when a run is accepted
    and what a soak run adds up.
  \<^item> \<open>Host_Link\<close>, \<open>Host_Props\<close> (\<^verbatim>\<open>run_host_recv\<close>, \<^verbatim>\<open>run_fpga_emit\<close>, \<^verbatim>\<open>run_shm_prepare\<close> of \<^verbatim>\<open>cli\<close>): the two processes of
    the link.  The locale \<open>link_source\<close> states what the receiver needs of its back end and proves that its loop
    returns; it is interpreted for UDP and for the shared ring.  The states that packets lead to are well-formed,
    and no packet gets the receiver stuck.
  \<^item> \<open>Link_Delivery\<close>: the two processes together.  The locale \<open>link_queue\<close>, also provided by both back ends, says
    that a link hands out what arrives, while it arrives; the receiver then accepts every symbol of the emitter,
    over the network and through a ring with fewer slots than symbols.
  \<^item> \<open>Cuda\<close> (\<^verbatim>\<open>gpu-cuda\<close>), \<open>Dpdk_Adapter\<close> (\<^verbatim>\<open>dpdk-adapter\<close>): the hardware back ends.
  \<^item> \<open>Cli\<close> (\<^verbatim>\<open>cli\<close>): the commands; the smoke run, the scrape server and its answers.  \<open>Cli_Cuda\<close> has the
    two commands that use the device, \<open>Cli_Main\<close> the dispatch of \<^verbatim>\<open>main\<close> and the bench command from its arguments
    to its exit.
  \<^item> \<open>Crate_Tests\<close>: the unit tests of the crates and three integration tests, run on the model.
  \<^item> This theory: the path from the FPGA over UDP into the transport inbox.

  \<^bold>\<open>Loops and bounds.\<close>  Loops over lists and counted loops are structural recursions.  \<^verbatim>\<open>send_packet\<close> retries
  10000 times as in the source; what the other process does to the map between two attempts is a
  parameter.  The polling loop of \<^verbatim>\<open>net-io\<close> consumes one socket result per turn and the one of \<^verbatim>\<open>shm-io\<close> counts
  its bound down.  The loop that flushes the injector has a termination proof.  The receiver's loop is a
  partial function into options, since it ends only by its deadline: given a clock that advances by the
  millisecond that each turn sleeps, it is proved to return within 30,001 turns.  The scrape server serves a
  list of connections; when the list ends it is still waiting.  No fuel is used.

  \<^bold>\<open>Not modelled.\<close>  Parsing and printing of YAML and JSON (a parsed document is a record, and the fields that
  have a \<^verbatim>\<open>serde\<close> default of their own are optional in it), the parsing of command line arguments, what is
  printed to the terminal, accessors that only return a field, and weak memory (the loads and stores of the two
  processes of a ring interleave, each process in the order of its program).  \<^verbatim>\<open>BufWriter\<close> is taken to write a text whole or not
  at all, and the result of the trace export at the end of a bench run, which the source ignores, is left out.
  Panics for want of memory are not modelled (a bench reserves the space for the latencies of all its packets at the start).
  The printed form of an error that wraps another one is kept as the inner error value.
\<close>

section \<open>From the radio to the transport over the network\<close>

lemma can_ingest_accept:
  "can_ingest e q \<Longrightarrow> can_ingest (e\<lparr>seq := c, inbox := ps\<rparr>) q"
  by (simp add: can_ingest_def)

lemma ingest_all_in_order:
  assumes "\<forall>p\<in>set ps. can_ingest e p \<and> stream_id p = i"
    "consecutive_from (expected_seq (seq e) i) (map (\<lambda>p. seqno (sequence p)) ps)"
  shows "fst (ingest_all e ps) = ps \<and> inbox (snd (ingest_all e ps)) = inbox e @ ps"
  using assms
proof (induction ps arbitrary: e)
  case Nil
  then show ?case by simp
next
  case (Cons p ps)
  let ?e = "e\<lparr>seq := resync (seq e) i (seqno (sequence p) + 1), inbox := inbox e @ [p]\<rparr>"
  have p: "can_ingest e p" "stream_id p = i" "seqno (sequence p) = expected_seq (seq e) i"
    using Cons.prems by simp_all
  then have "ingest e p = (Inr (), ?e)" using ingest_accept [of e p] by simp
  moreover have "fst (ingest_all ?e ps) = ps \<and> inbox (snd (ingest_all ?e ps)) = inbox ?e @ ps"
    using Cons.prems p(3) by (intro Cons.IH) (auto simp: can_ingest_accept)
  ultimately show ?case by (simp add: split_beta)
qed

lemma emitted_consecutive:
  "consecutive_from (word_of_nat k) (map (\<lambda>p. seqno (sequence p)) (map (emitted cos32 sin32 timing i) [k..<k + n]))"
proof (induction n arbitrary: k)
  case (Suc n)
  show ?case using Suc.IH [of "Suc k"] by (simp add: upt_conv_Cons add.commute del: upt_Suc)
qed simp

text \<open>
  C15: from the radio to the inbox.  The symbols an FPGA emulator emits on a stream, framed and sent
  as datagrams over a lossless network, received in bursts of the UDP back end and handed to a
  transport engine that has the stream running and expects its first number, are all accepted, in
  order, for any number of symbols: the sequence numbers of emulator and checker wrap together.
  The receiver's buffer must hold one frame and the transport clock must be within the deadline.
\<close>

theorem radio_to_transport_over_udp:
  assumes "link e = Link_Running" "streams e i = Some r" "rt_state r = Stream_Running" "expected_seq (seq e) i = 0"
    and "now_ns e \<le> tc_max_latency_ns (ts e)"
    and "net_rx io = []" "32 + 8 * samples_per_symbol timing \<le> net_max_datagram io" "8 * samples_per_symbol timing < 2 ^ 32"
    and "net_in io = map (\<lambda>p. Datagram (encode_frame p)) (fst (emit_symbols cos32 sin32 n (FpgaEmulator_new timing i)))"
    and "n \<le> k * m"
  shows "fst (ingest_all e (fst (net_io.bursts k m io))) = fst (emit_symbols cos32 sin32 n (FpgaEmulator_new timing i))
    \<and> inbox (snd (ingest_all e (fst (net_io.bursts k m io)))) =
        inbox e @ fst (emit_symbols cos32 sin32 n (FpgaEmulator_new timing i))"
proof -
  let ?ps = "map (emitted cos32 sin32 timing i) [0..<n]"
  have ps: "fst (emit_symbols cos32 sin32 n (FpgaEmulator_new timing i)) = ?ps" by (simp add: emit_symbols_new)
  have "net_rx io @ decoded (net_max_datagram io) (net_in io) = ?ps"
    using assms(6-9) unfolding ps by (subst assms(9) [unfolded ps]) (subst decoded_frames; simp)
  moreover have "all_datagrams (net_in io)" unfolding assms(9) by (rule all_datagrams_map)
  ultimately have bursts: "fst (net_io.bursts k m io) = ?ps"
    using net_io.drain_complete(1) [of io k m] assms(10) by simp
  have "can_ingest e p \<and> stream_id p = i" if "p \<in> set ?ps" for p
    using that assms(1-5) by (auto simp: can_ingest_def word_le_nat_alt)
  then show ?thesis unfolding bursts ps
    using ingest_all_in_order [of ?ps e i] emitted_consecutive [of 0 cos32 sin32 timing i n] assms(4) by auto
qed

definition sample_radio_io :: NetPacketIO where
  "sample_radio_io = \<lparr>net_in = map (\<lambda>p. Datagram (encode_frame p))
       (fst (emit_symbols (\<lambda>x. x) (\<lambda>x. x) 3 (FpgaEmulator_new sample_timing (StreamId 2)))),
     net_peer = None, net_max_datagram = 2048, net_rx = [], received = 0, decode_errors = 0\<rparr>"

theorem radio_to_transport_over_udp_witness:
  "fst (ingest_all sample_engine (fst (net_io.bursts 2 2 sample_radio_io))) =
      fst (emit_symbols (\<lambda>x. x) (\<lambda>x. x) 3 (FpgaEmulator_new sample_timing (StreamId 2)))
    \<and> inbox (snd (ingest_all sample_engine (fst (net_io.bursts 2 2 sample_radio_io)))) =
        inbox sample_engine @ fst (emit_symbols (\<lambda>x. x) (\<lambda>x. x) 3 (FpgaEmulator_new sample_timing (StreamId 2)))"
  by (rule radio_to_transport_over_udp
      [where r = "\<lparr>rt_cfg = sample_config 2, rt_state = Stream_Running\<rparr>" and i = "StreamId 2" and timing = sample_timing])
    (simp_all add: sample_simps expected_seq_def sample_radio_io_def sample_timing_def)

end
